(* ===== verification/Prelude.thy ===== *)
theory Prelude
  imports Main "HOL-Library.Word" "HOL-Library.Multiset"
begin

text \<open>
  What every component shares: the machine integers of the Go code, the collections of
  theorems the component theories feed, and the three table operations (update, delete,
  lookup by key) to which the SQL statements embedded in the Go sources are translated, with
  the facts about keys, frames and counts that the component proofs use.
\<close>

section \<open>Collections\<close>

named_theorems sql_simps \<open>facts about the table operations\<close>
named_theorems go_defs \<open>definitions of Go helpers that proofs unfold\<close>
named_theorems frame \<open>what an operation leaves unchanged\<close>

section \<open>Machine integers\<close>

text \<open>Go's \<open>int\<close>, \<open>int64\<close> and \<open>time.Duration\<close> are 64-bit two's complement words.\<close>

type_synonym i64 = "64 word"

definition i64_of :: "int \<Rightarrow> i64" where
  "i64_of n = word_of_int n"

lemma sint_i64_of [simp]:
  assumes "- (2 ^ 63) \<le> n" and "n < 2 ^ 63"
  shows "sint (i64_of n) = n"
  using assms by (simp add: i64_of_def sint_sbintrunc' signed_take_bit_int_eq_self)

lemma i64_of_sint [simp]: "i64_of (sint (w :: i64)) = w"
  by (simp add: i64_of_def)

lemma sint_i64_range: "- (2 ^ 63) \<le> sint (w :: i64)" "sint (w :: i64) < 2 ^ 63"
  using sint_greater_eq [of w] sint_lt [of w] by simp_all

lemma sint_eq_iff: "sint (a :: i64) = sint b \<longleftrightarrow> a = b"
  by (metis i64_of_sint)

section \<open>Tables\<close>

text \<open>
  A table is the list of its rows in physical order. \<open>UPDATE ... WHERE\<close>,
  \<open>DELETE ... WHERE\<close> and a lookup by a unique column are these.
\<close>

definition sql_update :: "('r \<Rightarrow> bool) \<Rightarrow> ('r \<Rightarrow> 'r) \<Rightarrow> 'r list \<Rightarrow> 'r list" where
  "sql_update P f rows = map (\<lambda>r. if P r then f r else r) rows"

definition sql_delete :: "('r \<Rightarrow> bool) \<Rightarrow> 'r list \<Rightarrow> 'r list" where
  "sql_delete P rows = filter (\<lambda>r. \<not> P r) rows"

definition sql_find :: "('r \<Rightarrow> 'k) \<Rightarrow> 'k \<Rightarrow> 'r list \<Rightarrow> 'r option" where
  "sql_find key k rows = find (\<lambda>r. key r = k) rows"

lemma sql_update_Nil [sql_simps]: "sql_update P f [] = []"
  by (simp add: sql_update_def)

lemma length_sql_update [sql_simps]: "length (sql_update P f rows) = length rows"
  by (simp add: sql_update_def)

lemma set_sql_update:
  "set (sql_update P f rows) = (\<lambda>r. if P r then f r else r) ` set rows"
  by (simp add: sql_update_def)

lemma map_sql_update:
  assumes "\<And>r. P r \<Longrightarrow> g (f r) = g r"
  shows "map g (sql_update P f rows) = map g rows"
  using assms by (simp add: sql_update_def)

lemma sql_update_none: "(\<And>r. r \<in> set rows \<Longrightarrow> \<not> P r) \<Longrightarrow> sql_update P f rows = rows"
  by (induction rows) (auto simp: sql_update_def)

lemma filter_sql_update_stable:
  assumes "\<And>r. P r \<Longrightarrow> \<not> Q r \<and> \<not> Q (f r)"
  shows "filter Q (sql_update P f rows) = filter Q rows"
  using assms by (induction rows) (auto simp: sql_update_def)

lemma sql_find_Some: "sql_find key k rows = Some r \<Longrightarrow> r \<in> set rows \<and> key r = k"
  by (auto simp: sql_find_def find_Some_iff in_set_conv_nth)

lemma sql_find_None: "sql_find key k rows = None \<longleftrightarrow> k \<notin> key ` set rows"
  by (auto simp: sql_find_def find_None_iff)

lemma sql_find_unique:
  assumes "distinct (map key rows)" and "r \<in> set rows"
  shows "sql_find key (key r) rows = Some r"
proof -
  from assms(2) obtain r' where r': "sql_find key (key r) rows = Some r'"
    by (cases "sql_find key (key r) rows") (auto simp: sql_find_None)
  then have "r' \<in> set rows" "key r' = key r"
    by (auto dest: sql_find_Some)
  with assms have "r' = r"
    by (auto simp: distinct_map inj_on_def)
  with r' show ?thesis by simp
qed

lemma sql_find_append:
  "sql_find key k (xs @ ys) =
     (case sql_find key k xs of Some r \<Rightarrow> Some r | None \<Rightarrow> sql_find key k ys)"
  by (induction xs) (auto simp: sql_find_def)

lemma sql_find_Cons [sql_simps]:
  "sql_find key k (r # rows) = (if key r = k then Some r else sql_find key k rows)"
  "sql_find key k [] = None"
  by (auto simp: sql_find_def)

lemma sql_find_update:
  assumes "\<And>r. P r \<Longrightarrow> key (f r) = key r"
  shows "sql_find key k (sql_update P f rows) =
     map_option (\<lambda>r. if P r then f r else r) (sql_find key k rows)"
  using assms by (induction rows) (auto simp: sql_find_def sql_update_def)

lemma sql_find_delete_other:
  assumes "\<And>r. r \<in> set rows \<Longrightarrow> key r = k \<Longrightarrow> \<not> P r"
  shows "sql_find key k (sql_delete P rows) = sql_find key k rows"
  using assms by (induction rows) (auto simp: sql_find_def sql_delete_def)

lemma set_sql_delete [sql_simps]: "set (sql_delete P rows) = {r \<in> set rows. \<not> P r}"
  by (simp add: sql_delete_def)

lemma distinct_map_sql_delete: "distinct (map key rows) \<Longrightarrow> distinct (map key (sql_delete P rows))"
  by (simp add: sql_delete_def distinct_map_filter)

section \<open>Lists\<close>

lemma filter_single:
  assumes "distinct (map key xs)" and "x \<in> set xs"
  shows "filter (\<lambda>y. key y = key x) xs = [x]"
  using assms
proof (induction xs)
  case Nil
  then show ?case by simp
next
  case (Cons y ys)
  show ?case
  proof (cases "y = x")
    case True
    with Cons.prems have "key x \<notin> key ` set ys" by auto
    then have "filter (\<lambda>y. key y = key x) ys = []"
      by (simp add: filter_empty_conv) (metis image_eqI)
    with True show ?thesis by simp
  next
    case False
    with Cons.prems have "x \<in> set ys" and "key y \<noteq> key x" by auto
    with Cons show ?thesis by simp
  qed
qed

lemma distinct_map_appendI:
  "distinct (map f xs) \<Longrightarrow> f y \<notin> f ` set xs \<Longrightarrow> distinct (map f (xs @ [y]))"
  by simp

lemma take_filter_length: "length (take n (filter P xs)) \<le> n"
  by simp

section \<open>An order that the server chooses\<close>

text \<open>The rows in the order of the permutation; anything else stands for the order they have.\<close>

definition reorder :: "nat list \<Rightarrow> 'a list \<Rightarrow> 'a list" where
  "reorder perm xs = (if mset perm = mset [0..<length xs] then map ((!) xs) perm else xs)"

lemma mset_reorder [simp]: "mset (reorder perm xs) = mset xs"
proof (cases "mset perm = mset [0..<length xs]")
  case True
  then have "mset (map ((!) xs) perm) = mset (map ((!) xs) [0..<length xs])" by (metis mset_map)
  also have "map ((!) xs) [0..<length xs] = xs" by (rule map_nth)
  finally show ?thesis using True by (simp add: reorder_def)
qed (simp add: reorder_def)

lemma reorder_Nil [simp]: "reorder perm [] = []"
  by (metis mset_reorder mset_zero_iff)

lemma set_reorder [simp]: "set (reorder perm xs) = set xs"
  by (metis mset_reorder set_mset_mset)

lemma distinct_reorder [simp]: "distinct (map f (reorder perm xs)) = distinct (map f xs)"
  by (metis mset_reorder mset_eq_imp_distinct_iff mset_map)

end
