(* ===== verification/Go_Strings.thy ===== *)
theory Go_Strings
  imports Prelude "HOL-Library.Sublist" "HOL-Library.Char_ord"
begin

text \<open>
  The parts of Go's strings, unicode, strconv and hex packages that the services call. A Go
  string is a sequence of bytes, here a \<open>string\<close> whose characters are the bytes. Functions
  that work on runes decode UTF-8 as Go does: an invalid byte is the rune U+FFFD of width 1.
  The case and letter tables of package unicode beyond ASCII are data, taken as a parameter
  (the record \<open>unicode_tables\<close>); ASCII is written out.
\<close>

section \<open>UTF-8\<close>

type_synonym rune = nat

definition rune_error :: rune where
  "rune_error = 0xFFFD"

definition byte :: "char \<Rightarrow> nat" where
  "byte c = of_char c"

lemma byte_less: "byte c < 256"
  by (simp add: byte_def)

definition cont :: "nat \<Rightarrow> nat \<Rightarrow> nat \<Rightarrow> bool" where
  "cont lo hi b \<longleftrightarrow> lo \<le> b \<and> b \<le> hi"

definition decode2 :: "nat \<Rightarrow> nat list \<Rightarrow> rune \<times> nat" where
  "decode2 b0 bs = (case bs of
     b1 # _ \<Rightarrow> if cont 0x80 0xBF b1
                then ((b0 - 0xC0) * 64 + (b1 - 0x80), 2) else (rune_error, 1)
   | [] \<Rightarrow> (rune_error, 1))"

definition decode3 :: "nat \<Rightarrow> nat list \<Rightarrow> rune \<times> nat" where
  "decode3 b0 bs = (case bs of
     b1 # b2 # _ \<Rightarrow>
       if cont (if b0 = 0xE0 then 0xA0 else 0x80) (if b0 = 0xED then 0x9F else 0xBF) b1
          \<and> cont 0x80 0xBF b2
       then ((b0 - 0xE0) * 4096 + (b1 - 0x80) * 64 + (b2 - 0x80), 3) else (rune_error, 1)
   | _ \<Rightarrow> (rune_error, 1))"

definition decode4 :: "nat \<Rightarrow> nat list \<Rightarrow> rune \<times> nat" where
  "decode4 b0 bs = (case bs of
     b1 # b2 # b3 # _ \<Rightarrow>
       if cont (if b0 = 0xF0 then 0x90 else 0x80) (if b0 = 0xF4 then 0x8F else 0xBF) b1
          \<and> cont 0x80 0xBF b2 \<and> cont 0x80 0xBF b3
       then ((b0 - 0xF0) * 262144 + (b1 - 0x80) * 4096 + (b2 - 0x80) * 64 + (b3 - 0x80), 4)
       else (rune_error, 1)
   | _ \<Rightarrow> (rune_error, 1))"

text \<open>\<open>utf8.DecodeRuneInString\<close> on a non-empty byte sequence: the rune and its width.\<close>

definition decode_rune :: "nat \<Rightarrow> nat list \<Rightarrow> rune \<times> nat" where
  "decode_rune b0 bs =
     (if b0 < 0x80 then (b0, 1)
      else if b0 < 0xC2 then (rune_error, 1)
      else if b0 < 0xE0 then decode2 b0 bs
      else if b0 < 0xF0 then decode3 b0 bs
      else if b0 < 0xF5 then decode4 b0 bs
      else (rune_error, 1))"

lemma decode_rune_ascii [simp]: "b0 < 0x80 \<Longrightarrow> decode_rune b0 bs = (b0, 1)"
  by (simp add: decode_rune_def)

text \<open>The runes that \<open>for _, r := range s\<close> visits.\<close>

fun runes_of :: "nat list \<Rightarrow> rune list" where
  "runes_of [] = []"
| "runes_of (b # bs) =
     (case decode_rune b bs of (r, n) \<Rightarrow> r # runes_of (drop (n - 1) bs))"

definition runes :: "string \<Rightarrow> rune list" where
  "runes s = runes_of (map byte s)"

text \<open>\<open>utf8.AppendRune\<close>: surrogates and out-of-range values encode U+FFFD.\<close>

definition encode_bytes :: "rune \<Rightarrow> nat list" where
  "encode_bytes r =
     (if r < 0x80 then [r]
      else if r < 0x800 then [0xC0 + r div 64, 0x80 + r mod 64]
      else if (0xD800 \<le> r \<and> r \<le> 0xDFFF) \<or> 0x10FFFF < r then [0xEF, 0xBF, 0xBD]
      else if r < 0x10000 then [0xE0 + r div 4096, 0x80 + r div 64 mod 64, 0x80 + r mod 64]
      else [0xF0 + r div 262144, 0x80 + r div 4096 mod 64, 0x80 + r div 64 mod 64,
            0x80 + r mod 64])"

definition encode_rune :: "rune \<Rightarrow> string" where
  "encode_rune r = map char_of (encode_bytes r)"

definition is_ascii :: "string \<Rightarrow> bool" where
  "is_ascii s = list_all (\<lambda>c. byte c < 0x80) s"

lemma is_ascii_simps [simp]:
  "is_ascii []"
  "is_ascii (c # s) \<longleftrightarrow> byte c < 0x80 \<and> is_ascii s"
  "is_ascii (s @ t) \<longleftrightarrow> is_ascii s \<and> is_ascii t"
  by (simp_all add: is_ascii_def)

lemma runes_ascii: "is_ascii s \<Longrightarrow> runes s = map byte s"
  by (induction s) (simp_all add: runes_def)

lemma length_runes_of_le: "length (runes_of bs) \<le> length bs"
proof (induction bs rule: runes_of.induct)
  case 1
  then show ?case by simp
next
  case (2 b bs)
  obtain r n where rn: "decode_rune b bs = (r, n)" by fastforce
  with 2 have "length (runes_of (drop (n - 1) bs)) \<le> length (drop (n - 1) bs)"
    by simp
  then have "length (runes_of (drop (n - 1) bs)) \<le> length bs" by simp
  then show ?case by (simp add: rn)
qed

lemma length_runes_le: "length (runes s) \<le> length s"
  using length_runes_of_le [of "map byte s"] by (simp add: runes_def)

text \<open>Decoding inverts encoding on every Unicode scalar value.\<close>

definition scalar :: "rune \<Rightarrow> bool" where
  "scalar r \<longleftrightarrow> r \<le> 0x10FFFF \<and> \<not> (0xD800 \<le> r \<and> r \<le> 0xDFFF)"

lemma base64_digits:
  fixes r :: nat
  shows "r = r div 64 * 64 + r mod 64"
    and "r div 64 = r div 4096 * 64 + r div 64 mod 64"
    and "r div 4096 = r div 262144 * 64 + r div 4096 mod 64"
proof -
  have d: "r div 64 div 64 = r div 4096" "r div 4096 div 64 = r div 262144"
    by (simp_all add: div_mult2_eq [symmetric])
  show "r = r div 64 * 64 + r mod 64" by simp
  show "r div 64 = r div 4096 * 64 + r div 64 mod 64" by (simp flip: d(1))
  show "r div 4096 = r div 262144 * 64 + r div 4096 mod 64" by (simp flip: d(2))
qed

lemma decode2_encode:
  assumes "0x80 \<le> r" and "r < 0x800"
  shows "decode_rune (0xC0 + r div 64) ((0x80 + r mod 64) # bs) = (r, 2)"
proof -
  have "r div 64 < 32" "2 \<le> r div 64" "r mod 64 < 64" using assms by simp_all
  then show ?thesis
    using base64_digits(1) [of r] by (simp add: decode_rune_def decode2_def cont_def)
qed

lemma decode3_value:
  assumes "a < 16" "b < 64" "c < 64" "a = 0 \<Longrightarrow> 32 \<le> b" "a = 13 \<Longrightarrow> b < 32"
  shows "decode_rune (0xE0 + a) ((0x80 + b) # (0x80 + c) # bs) = (a * 4096 + b * 64 + c, 3)"
  using assms by (auto simp: decode_rune_def decode3_def cont_def)

lemma decode3_encode:
  assumes "0x800 \<le> r" and "r < 0x10000" and "scalar r"
  shows "decode_rune (0xE0 + r div 4096) ((0x80 + r div 64 mod 64) # (0x80 + r mod 64) # bs) = (r, 3)"
proof -
  define a b c where abc: "a = r div 4096" "b = r div 64 mod 64" "c = r mod 64"
  have r: "r = a * 4096 + b * 64 + c"
    using base64_digits(1,2) [of r] unfolding abc by linarith
  have bounds: "b < 64" "c < 64" by (simp_all add: abc)
  have "a < 16" "a = 0 \<Longrightarrow> 32 \<le> b" "a = 13 \<Longrightarrow> b < 32"
    using assms bounds r by (auto simp: scalar_def)
  with bounds have "decode_rune (0xE0 + a) ((0x80 + b) # (0x80 + c) # bs) = (a * 4096 + b * 64 + c, 3)"
    by (intro decode3_value)
  with r show ?thesis by (simp only: abc)
qed

lemma decode4_value:
  assumes "a < 5" "b < 64" "c < 64" "d < 64" "a = 0 \<Longrightarrow> 16 \<le> b" "a = 4 \<Longrightarrow> b < 16"
  shows "decode_rune (0xF0 + a) ((0x80 + b) # (0x80 + c) # (0x80 + d) # bs)
    = (a * 262144 + b * 4096 + c * 64 + d, 4)"
  using assms by (auto simp: decode_rune_def decode4_def cont_def)

lemma decode4_encode:
  assumes "0x10000 \<le> r" and "scalar r"
  shows "decode_rune (0xF0 + r div 262144)
    ((0x80 + r div 4096 mod 64) # (0x80 + r div 64 mod 64) # (0x80 + r mod 64) # bs) = (r, 4)"
proof -
  define a b c d where abcd: "a = r div 262144" "b = r div 4096 mod 64" "c = r div 64 mod 64"
    "d = r mod 64"
  have r: "r = a * 262144 + b * 4096 + c * 64 + d"
    using base64_digits [of r] unfolding abcd by linarith
  have bounds: "b < 64" "c < 64" "d < 64" by (simp_all add: abcd)
  have "a < 5" "a = 0 \<Longrightarrow> 16 \<le> b" "a = 4 \<Longrightarrow> b < 16"
    using assms bounds r by (auto simp: scalar_def)
  with bounds have "decode_rune (0xF0 + a) ((0x80 + b) # (0x80 + c) # (0x80 + d) # bs)
    = (a * 262144 + b * 4096 + c * 64 + d, 4)"
    by (intro decode4_value)
  with r show ?thesis by (simp only: abcd)
qed

lemma decode_encode:
  assumes "scalar r" and "encode_bytes r = b # bs"
  shows "decode_rune b (bs @ rest) = (r, Suc (length bs))"
proof -
  consider "r < 0x80" | "0x80 \<le> r" "r < 0x800" | "0x800 \<le> r" "r < 0x10000" | "0x10000 \<le> r"
    by linarith
  then show ?thesis
  proof cases
    case 1
    with assms show ?thesis by (simp add: encode_bytes_def)
  next
    case 2
    with assms decode2_encode [OF 2] show ?thesis by (auto simp: encode_bytes_def)
  next
    case 3
    with assms decode3_encode [OF 3] show ?thesis
      by (auto simp: encode_bytes_def scalar_def)
  next
    case 4
    with assms decode4_encode [OF 4] show ?thesis
      by (auto simp: encode_bytes_def scalar_def)
  qed
qed

lemma encode_bytes_byte: "scalar r \<Longrightarrow> b \<in> set (encode_bytes r) \<Longrightarrow> b < 256"
  by (auto simp: encode_bytes_def scalar_def split: if_splits)

lemma encode_bytes_nonempty: "encode_bytes r \<noteq> []"
  by (simp add: encode_bytes_def)

lemma runes_of_encode: "scalar r \<Longrightarrow> runes_of (encode_bytes r @ bs) = r # runes_of bs"
  using encode_bytes_nonempty [of r] decode_encode [of r]
  by (cases "encode_bytes r") auto

lemma runes_encode: "list_all scalar rs \<Longrightarrow> runes (concat (map encode_rune rs)) = rs"
proof (induction rs)
  case Nil
  then show ?case by (simp add: runes_def)
next
  case (Cons r rs)
  then have "map byte (encode_rune r) = encode_bytes r"
    by (auto simp: encode_rune_def byte_def intro!: map_idI dest: encode_bytes_byte)
  with Cons show ?case by (simp add: runes_def runes_of_encode)
qed

section \<open>Case, letters and white space\<close>

text \<open>
  The tables of package unicode for the runes from U+0080 on. ASCII is fixed below.
\<close>

record unicode_tables =
  tab_upper :: "rune \<Rightarrow> rune"
  tab_lower :: "rune \<Rightarrow> rune"
  tab_is_upper :: "rune \<Rightarrow> bool"
  tab_is_letter :: "rune \<Rightarrow> bool"

definition rune_upper :: "'x unicode_tables_scheme \<Rightarrow> rune \<Rightarrow> rune" where
  "rune_upper ut r =
     (if r < 0x80 then (if 97 \<le> r \<and> r \<le> 122 then r - 32 else r) else tab_upper ut r)"

definition rune_lower :: "'x unicode_tables_scheme \<Rightarrow> rune \<Rightarrow> rune" where
  "rune_lower ut r =
     (if r < 0x80 then (if 65 \<le> r \<and> r \<le> 90 then r + 32 else r) else tab_lower ut r)"

definition rune_is_upper :: "'x unicode_tables_scheme \<Rightarrow> rune \<Rightarrow> bool" where
  "rune_is_upper ut r \<longleftrightarrow> (if r < 0x80 then 65 \<le> r \<and> r \<le> 90 else tab_is_upper ut r)"

definition rune_is_letter :: "'x unicode_tables_scheme \<Rightarrow> rune \<Rightarrow> bool" where
  "rune_is_letter ut r \<longleftrightarrow>
     (if r < 0x80 then (65 \<le> r \<and> r \<le> 90) \<or> (97 \<le> r \<and> r \<le> 122) else tab_is_letter ut r)"

text \<open>\<open>strings.ToUpper\<close> and \<open>strings.ToLower\<close>: rune by rune, re-encoded.\<close>

definition to_upper :: "'x unicode_tables_scheme \<Rightarrow> string \<Rightarrow> string" where
  "to_upper ut s = concat (map (\<lambda>r. encode_rune (rune_upper ut r)) (runes s))"

definition to_lower :: "'x unicode_tables_scheme \<Rightarrow> string \<Rightarrow> string" where
  "to_lower ut s = concat (map (\<lambda>r. encode_rune (rune_lower ut r)) (runes s))"

definition ascii_upper :: "char \<Rightarrow> char" where
  "ascii_upper c = (if 97 \<le> byte c \<and> byte c \<le> 122 then char_of (byte c - 32) else c)"

definition ascii_lower :: "char \<Rightarrow> char" where
  "ascii_lower c = (if 65 \<le> byte c \<and> byte c \<le> 90 then char_of (byte c + 32) else c)"

lemma encode_rune_ascii: "r < 0x80 \<Longrightarrow> encode_rune r = [char_of r]"
  by (simp add: encode_rune_def encode_bytes_def)

lemma char_of_byte [simp]: "char_of (byte c) = c"
  by (simp add: byte_def)

lemma to_upper_ascii: "is_ascii s \<Longrightarrow> to_upper ut s = map ascii_upper s"
  by (induction s)
    (auto simp: to_upper_def runes_ascii rune_upper_def ascii_upper_def encode_rune_ascii)

lemma to_lower_ascii: "is_ascii s \<Longrightarrow> to_lower ut s = map ascii_lower s"
  by (induction s)
    (auto simp: to_lower_def runes_ascii rune_lower_def ascii_lower_def encode_rune_ascii)

text \<open>The UTF-8 encodings of the runes of \<open>unicode.IsSpace\<close>.\<close>

definition space_encodings :: "string list" where
  "space_encodings =
     [[CHR 0x09], [CHR 0x0A], [CHR 0x0B], [CHR 0x0C], [CHR 0x0D], [CHR 0x20],
      [CHR 0xC2, CHR 0x85], [CHR 0xC2, CHR 0xA0], [CHR 0xE1, CHR 0x9A, CHR 0x80],
      [CHR 0xE2, CHR 0x80, CHR 0x80], [CHR 0xE2, CHR 0x80, CHR 0x81],
      [CHR 0xE2, CHR 0x80, CHR 0x82], [CHR 0xE2, CHR 0x80, CHR 0x83],
      [CHR 0xE2, CHR 0x80, CHR 0x84], [CHR 0xE2, CHR 0x80, CHR 0x85],
      [CHR 0xE2, CHR 0x80, CHR 0x86], [CHR 0xE2, CHR 0x80, CHR 0x87],
      [CHR 0xE2, CHR 0x80, CHR 0x88], [CHR 0xE2, CHR 0x80, CHR 0x89],
      [CHR 0xE2, CHR 0x80, CHR 0x8A], [CHR 0xE2, CHR 0x80, CHR 0xA8],
      [CHR 0xE2, CHR 0x80, CHR 0xA9], [CHR 0xE2, CHR 0x80, CHR 0xAF],
      [CHR 0xE2, CHR 0x81, CHR 0x9F], [CHR 0xE3, CHR 0x80, CHR 0x80]]"

text \<open>
  Dropping the listed words from the front as long as one matches. UTF-8 is
  self-synchronising, so matching an encoding at either end of a byte sequence is decoding
  the rune there.
\<close>

function strip_front :: "string list \<Rightarrow> string \<Rightarrow> string" where
  "strip_front ws s =
     (case find (\<lambda>w. w \<noteq> [] \<and> prefix w s) ws of
        None \<Rightarrow> s
      | Some w \<Rightarrow> strip_front ws (drop (length w) s))"
  by pat_completeness auto
termination
proof (relation "measure (\<lambda>(ws, s). length s)", goal_cases)
  case (2 ws s w)
  then have "w \<noteq> []" "prefix w s"
    by (auto simp: find_Some_iff)
  then show ?case by (cases s) auto
qed simp

declare strip_front.simps [simp del]

definition trim_left_space :: "string \<Rightarrow> string" where
  "trim_left_space s = strip_front space_encodings s"

definition trim_right_space :: "string \<Rightarrow> string" where
  "trim_right_space s = rev (strip_front (map rev space_encodings) (rev s))"

text \<open>\<open>strings.TrimSpace\<close>.\<close>

definition trim_space :: "string \<Rightarrow> string" where
  "trim_space s = trim_right_space (trim_left_space s)"

definition no_front :: "string list \<Rightarrow> string \<Rightarrow> bool" where
  "no_front ws s \<longleftrightarrow> list_all (\<lambda>w. w = [] \<or> \<not> prefix w s) ws"

lemma strip_front_fixed: "no_front ws s \<Longrightarrow> strip_front ws s = s"
  by (subst strip_front.simps)
    (auto simp: no_front_def list_all_iff find_Some_iff split: option.split)

lemma strip_front_no_front: "no_front ws (strip_front ws s)"
proof (induction ws s rule: strip_front.induct)
  case (1 ws s)
  show ?case
  proof (cases "find (\<lambda>w. w \<noteq> [] \<and> prefix w s) ws")
    case None
    then have "no_front ws s" by (auto simp: find_None_iff no_front_def list_all_iff)
    then show ?thesis by (simp add: strip_front_fixed)
  next
    case (Some w)
    with 1 show ?thesis by (subst strip_front.simps) simp
  qed
qed

lemma strip_front_suffix: "suffix (strip_front ws s) s"
proof (induction ws s rule: strip_front.induct)
  case (1 ws s)
  show ?case
  proof (cases "find (\<lambda>w. w \<noteq> [] \<and> prefix w s) ws")
    case None
    then show ?thesis by (subst strip_front.simps) simp
  next
    case (Some w)
    with 1 have "suffix (strip_front ws (drop (length w) s)) s"
      using suffix_drop suffix_order.trans by blast
    with Some show ?thesis by (subst strip_front.simps) simp
  qed
qed

lemma no_front_prefix: "no_front ws s \<Longrightarrow> prefix t s \<Longrightarrow> no_front ws t"
  by (auto simp: no_front_def list_all_iff dest: prefix_order.trans)

lemma prefix_trim_right: "prefix (trim_right_space s) s"
  using strip_front_suffix [of "map rev space_encodings" "rev s"]
  by (simp add: trim_right_space_def suffix_to_prefix)

definition trimmed :: "string \<Rightarrow> bool" where
  "trimmed s \<longleftrightarrow> no_front space_encodings s \<and> no_front (map rev space_encodings) (rev s)"

lemma trim_space_trimmed: "trimmed (trim_space s)"
  unfolding trimmed_def trim_space_def
proof
  show "no_front space_encodings (trim_right_space (trim_left_space s))"
    unfolding trim_left_space_def
    by (rule no_front_prefix [OF strip_front_no_front prefix_trim_right])
  show "no_front (map rev space_encodings) (rev (trim_right_space (trim_left_space s)))"
    by (simp add: trim_right_space_def strip_front_no_front)
qed

lemma trim_space_fixed: "trimmed s \<Longrightarrow> trim_space s = s"
  by (simp add: trimmed_def trim_space_def trim_left_space_def trim_right_space_def
      strip_front_fixed)

lemma trim_space_idem [simp]: "trim_space (trim_space s) = trim_space s"
  by (rule trim_space_fixed [OF trim_space_trimmed])

lemma trimmed_Nil [simp]: "trimmed []"
  by (simp add: trimmed_def no_front_def list_all_iff)

lemma trim_space_Nil [simp]: "trim_space [] = []"
  by (rule trim_space_fixed) simp

end
