(* ===== verification/Go_Strconv.thy ===== *)
theory Go_Strconv
  imports Go_Strings
begin

text \<open>
  Decimal formatting and parsing (package strconv), hexadecimal encoding (encoding/hex), and
  the splitting and joining functions of package strings, with the round trips and the
  injectivity facts that the request hash and the configuration parsers rest on.
\<close>

section \<open>Decimal integers\<close>

definition digit :: "nat \<Rightarrow> char" where
  "digit d = char_of (48 + d)"

definition is_digit :: "char \<Rightarrow> bool" where
  "is_digit c \<longleftrightarrow> 48 \<le> byte c \<and> byte c \<le> 57"

definition digit_value :: "char \<Rightarrow> nat" where
  "digit_value c = byte c - 48"

lemma byte_char_of [simp]: "n < 256 \<Longrightarrow> byte (char_of n) = n"
  by (simp add: byte_def)

lemma digit_value_digit [simp]: "d < 10 \<Longrightarrow> digit_value (digit d) = d"
  by (simp add: digit_value_def digit_def)

lemma is_digit_digit [simp]: "d < 10 \<Longrightarrow> is_digit (digit d)"
  by (simp add: is_digit_def digit_def)

fun format_nat :: "nat \<Rightarrow> string" where
  "format_nat n = (if n < 10 then [digit n] else format_nat (n div 10) @ [digit (n mod 10)])"

declare format_nat.simps [simp del]

text \<open>\<open>strconv.FormatInt(i, 10)\<close> and \<open>strconv.Itoa\<close>.\<close>

definition format_int :: "int \<Rightarrow> string" where
  "format_int i = (if i < 0 then CHR ''-'' # format_nat (nat (- i)) else format_nat (nat i))"

fun digits_value :: "nat \<Rightarrow> string \<Rightarrow> nat option" where
  "digits_value acc [] = Some acc"
| "digits_value acc (c # s) =
     (if is_digit c then digits_value (10 * acc + digit_value c) s else None)"

text \<open>
  \<open>strconv.ParseInt(s, 10, 64)\<close>: an optional sign, at least one digit, only digits, and a
  value in range.
\<close>

definition parse_nat :: "string \<Rightarrow> nat option" where
  "parse_nat s = (if s = [] then None else digits_value 0 s)"

definition in_i64 :: "int \<Rightarrow> bool" where
  "in_i64 n \<longleftrightarrow> - (2 ^ 63) \<le> n \<and> n < 2 ^ 63"

definition to_i64 :: "int \<Rightarrow> i64 option" where
  "to_i64 n = (if in_i64 n then Some (i64_of n) else None)"

definition parse_int64 :: "string \<Rightarrow> i64 option" where
  "parse_int64 s =
     (case s of
        [] \<Rightarrow> None
      | c # s' \<Rightarrow>
          if c = CHR ''-'' then (case parse_nat s' of None \<Rightarrow> None | Some n \<Rightarrow> to_i64 (- int n))
          else if c = CHR ''+'' then (case parse_nat s' of None \<Rightarrow> None | Some n \<Rightarrow> to_i64 (int n))
          else (case parse_nat s of None \<Rightarrow> None | Some n \<Rightarrow> to_i64 (int n)))"

lemma digits_value_append:
  "digits_value acc (s @ t) = (case digits_value acc s of None \<Rightarrow> None | Some n \<Rightarrow> digits_value n t)"
  by (induction s arbitrary: acc) auto

lemma format_nat_nonempty [simp]: "format_nat n \<noteq> []"
  by (subst format_nat.simps) simp

lemma format_nat_digits: "list_all is_digit (format_nat n)"
  by (induction n rule: format_nat.induct) (subst format_nat.simps, simp)

lemma digits_value_format: "digits_value 0 (format_nat n) = Some n"
proof (induction n rule: format_nat.induct)
  case (1 n)
  show ?case
  proof (cases "n < 10")
    case True
    then show ?thesis by (subst format_nat.simps) simp
  next
    case False
    with 1 show ?thesis by (subst format_nat.simps) (simp add: digits_value_append)
  qed
qed

lemma parse_nat_format [simp]: "parse_nat (format_nat n) = Some n"
  by (simp add: parse_nat_def digits_value_format)

lemma format_nat_head: "format_nat n = c # s \<Longrightarrow> c \<noteq> CHR ''-'' \<and> c \<noteq> CHR ''+''"
  using format_nat_digits [of n] by (auto simp: is_digit_def byte_def)

lemma parse_int64_format: "parse_int64 (format_int (sint w)) = Some (w :: i64)"
proof (cases "sint w < 0")
  case True
  with sint_i64_range [of w] show ?thesis
    by (simp add: parse_int64_def format_int_def to_i64_def in_i64_def)
next
  case False
  obtain c s where cs: "format_nat (nat (sint w)) = c # s"
    by (cases "format_nat (nat (sint w))") auto
  with False have "parse_int64 (format_int (sint w)) = to_i64 (int (nat (sint w)))"
    using format_nat_head [OF cs] parse_nat_format [of "nat (sint w)"]
    by (simp add: parse_int64_def format_int_def)
  with False sint_i64_range [of w] show ?thesis by (simp add: to_i64_def in_i64_def)
qed

lemma format_int_inj: "format_int (sint a) = format_int (sint b) \<Longrightarrow> a = (b :: i64)"
  by (metis option.inject parse_int64_format)

lemma format_nat_no_nul: "c \<in> set (format_nat n) \<Longrightarrow> c \<noteq> CHR 0x00"
  using format_nat_digits [of n] by (auto simp: list_all_iff is_digit_def byte_def)

lemma format_int_no_nul: "CHR 0x00 \<notin> set (format_int i)"
  by (auto simp: format_int_def dest: format_nat_no_nul)

text \<open>\<open>strconv.ParseBool\<close>.\<close>

definition parse_bool :: "string \<Rightarrow> bool option" where
  "parse_bool s =
     (if s \<in> set [''1'', ''t'', ''T'', ''true'', ''TRUE'', ''True''] then Some True
      else if s \<in> set [''0'', ''f'', ''F'', ''false'', ''FALSE'', ''False''] then Some False
      else None)"

section \<open>Hexadecimal\<close>

definition hex_digit :: "nat \<Rightarrow> char" where
  "hex_digit d = (if d < 10 then char_of (48 + d) else char_of (87 + d))"

definition hex_encode :: "string \<Rightarrow> string" where
  "hex_encode s = concat (map (\<lambda>c. [hex_digit (byte c div 16), hex_digit (byte c mod 16)]) s)"

lemma hex_digit_inj: "a < 16 \<Longrightarrow> b < 16 \<Longrightarrow> hex_digit a = hex_digit b \<Longrightarrow> a = b"
proof -
  assume ab: "a < 16" "b < 16" and eq: "hex_digit a = hex_digit b"
  have "byte (hex_digit n) = (if n < 10 then 48 + n else 87 + n)" if "n < 16" for n
    using that by (simp add: hex_digit_def)
  with ab have "(if a < 10 then 48 + a else 87 + a) = (if b < 10 then 48 + b else 87 + b)"
    using eq by metis
  then show ?thesis by (auto split: if_splits)
qed

lemma hex_encode_inj: "hex_encode s = hex_encode t \<Longrightarrow> s = t"
proof (induction s arbitrary: t)
  case Nil
  then show ?case by (cases t) (auto simp: hex_encode_def)
next
  case (Cons c s)
  then obtain d t' where t: "t = d # t'"
    by (cases t) (auto simp: hex_encode_def)
  with Cons.prems have eq: "hex_digit (byte c div 16) = hex_digit (byte d div 16)"
      "hex_digit (byte c mod 16) = hex_digit (byte d mod 16)"
    and rest: "hex_encode s = hex_encode t'"
    by (auto simp: hex_encode_def)
  have "byte c div 16 < 16" "byte d div 16 < 16"
    using byte_less [of c] byte_less [of d] by auto
  with eq have "byte c div 16 = byte d div 16" "byte c mod 16 = byte d mod 16"
    by (auto intro: hex_digit_inj)
  then have "byte c = byte d" by (metis div_mult_mod_eq)
  then have "c = d" by (metis char_of_byte)
  with Cons.IH [OF rest] t show ?case by simp
qed

section \<open>Quoting\<close>

text \<open>
  \<open>%q\<close>: the Go-quoted string. Runes outside ASCII are taken as printable.
\<close>

definition quote_char :: "char \<Rightarrow> string" where
  "quote_char c =
     (if c = CHR 0x22 then [CHR 0x5C, CHR 0x22]
      else if c = CHR 0x5C then [CHR 0x5C, CHR 0x5C]
      else if c = CHR 0x07 then [CHR 0x5C, CHR ''a'']
      else if c = CHR 0x08 then [CHR 0x5C, CHR ''b'']
      else if c = CHR 0x0C then [CHR 0x5C, CHR ''f'']
      else if c = CHR 0x0A then [CHR 0x5C, CHR ''n'']
      else if c = CHR 0x0D then [CHR 0x5C, CHR ''r'']
      else if c = CHR 0x09 then [CHR 0x5C, CHR ''t'']
      else if c = CHR 0x0B then [CHR 0x5C, CHR ''v'']
      else if byte c < 32 \<or> byte c = 127 then [CHR 0x5C, CHR ''x''] @ hex_encode [c]
      else [c])"

definition go_quote :: "string \<Rightarrow> string" where
  "go_quote s = [CHR 0x22] @ concat (map quote_char s) @ [CHR 0x22]"

section \<open>Joining and splitting\<close>

text \<open>\<open>strings.Join\<close>.\<close>

fun str_join :: "string \<Rightarrow> string list \<Rightarrow> string" where
  "str_join sep [] = []"
| "str_join sep [x] = x"
| "str_join sep (x # y # xs) = x @ sep @ str_join sep (y # xs)"

lemma append_sep_cancel:
  assumes "x @ c # u = y @ c # v" and "c \<notin> set x" and "c \<notin> set y"
  shows "x = y \<and> u = v"
  using assms
proof (induction x arbitrary: y)
  case Nil
  then show ?case by (cases y) auto
next
  case (Cons a x)
  then show ?case by (cases y) auto
qed

text \<open>
  Joining is injective on lists of the same length whose parts, the last one excepted, do not
  hold the separator.
\<close>

lemma str_join_inj:
  assumes "str_join [c] xs = str_join [c] ys" and "length xs = length ys"
    and "\<forall>x \<in> set (butlast xs) \<union> set (butlast ys). c \<notin> set x"
  shows "xs = ys"
  using assms
proof (induction "[c]" xs arbitrary: ys rule: str_join.induct)
  case 1
  then show ?case by simp
next
  case (2 x)
  then show ?case by (cases ys) auto
next
  case (3 x y xs)
  then obtain x' y' ys' where ys: "ys = x' # y' # ys'"
    by (metis length_Suc_conv list.size(4))
  with "3.prems" have "x = x' \<and> str_join [c] (y # xs) = str_join [c] (y' # ys')"
    by (intro append_sep_cancel) auto
  with "3.hyps" [of "y' # ys'"] "3.prems" ys show ?case by auto
qed

text \<open>\<open>strings.Split(s, sep)\<close> for a one-byte separator, and \<open>strings.SplitN(s, sep, 2)\<close>.\<close>

fun split_on :: "char \<Rightarrow> string \<Rightarrow> string list" where
  "split_on c [] = [[]]"
| "split_on c (x # s) =
     (if x = c then [] # split_on c s
      else (case split_on c s of [] \<Rightarrow> [[x]] | p # ps \<Rightarrow> (x # p) # ps))"

definition split2_on :: "char \<Rightarrow> string \<Rightarrow> string list" where
  "split2_on c s =
     (case dropWhile (\<lambda>x. x \<noteq> c) s of
        [] \<Rightarrow> [s]
      | _ # rest \<Rightarrow> [takeWhile (\<lambda>x. x \<noteq> c) s, rest])"

lemma split_on_nonempty [simp]: "split_on c s \<noteq> []"
  by (induction s) (auto split: list.split)

lemma str_join_split_on: "str_join [c] (split_on c s) = s"
proof (induction s)
  case Nil
  then show ?case by simp
next
  case (Cons x s)
  obtain p ps where p: "split_on c s = p # ps"
    by (cases "split_on c s") auto
  with Cons show ?case by (cases ps) auto
qed

definition has_prefix :: "string \<Rightarrow> string \<Rightarrow> bool" where
  "has_prefix s p \<longleftrightarrow> prefix p s"

definition has_suffix :: "string \<Rightarrow> string \<Rightarrow> bool" where
  "has_suffix s p \<longleftrightarrow> suffix p s"

definition trim_prefix :: "string \<Rightarrow> string \<Rightarrow> string" where
  "trim_prefix s p = (if prefix p s then drop (length p) s else s)"

definition trim_suffix :: "string \<Rightarrow> string \<Rightarrow> string" where
  "trim_suffix s p = (if suffix p s then take (length s - length p) s else s)"

text \<open>\<open>strings.TrimRight(s, "/")\<close>.\<close>

definition trim_right_slash :: "string \<Rightarrow> string" where
  "trim_right_slash s = rev (dropWhile (\<lambda>c. c = CHR ''/'') (rev s))"

lemmas [go_defs] = has_prefix_def has_suffix_def trim_prefix_def trim_suffix_def

end
