(* ===== verification/Go_Runtime.thy ===== *)
theory Go_Runtime
  imports Go_Strconv
begin

text \<open>
  What the services run on: Go error values and their chains, JSON values and the decoding of
  a struct from one, the packages that are not part of the repository (the record \<open>lib\<close>),
  and the environment of one call (the record \<open>ctx\<close>, in the place of Go's
  \<open>context.Context\<close>): the clock, the fresh identifiers, and for every database call whether
  it fails. A transaction runs its body on the tables and either installs or drops them.
\<close>

section \<open>Errors\<close>

text \<open>
  The sentinel errors of the services, plain error texts, \<open>fmt.Errorf\<close> with one \<open>%w\<close>
  (the text before it, the wrapped error, the text after it), and the consumer's
  \<open>permanentError\<close>.
\<close>

datatype err =
    ErrValidation
  | ErrIdempotencyConflict
  | ErrInvalidStatusTransition
  | ErrPaymentNotFound
  | ErrUnbalancedTransaction
  | ErrReplayAlreadyClaimed
  | ErrInvalidConfig
  | ErrCanceled
  | ErrDeadlineExceeded
  | ErrText string
  | ErrWrap string err string
  | ErrPermanent err

abbreviation wrap :: "string \<Rightarrow> err \<Rightarrow> err" where
  "wrap msg e \<equiv> ErrWrap (msg @ '': '') e []"

text \<open>
  \<open>errors.Is\<close> follows \<open>Unwrap\<close>. The struct \<open>permanentError\<close> embeds an \<open>error\<close>,
  whose only method is \<open>Error\<close>: it has no \<open>Unwrap\<close> and ends the chain.
\<close>

fun errors_is :: "err \<Rightarrow> err \<Rightarrow> bool" where
  "errors_is (ErrWrap a e b) t = (ErrWrap a e b = t \<or> errors_is e t)"
| "errors_is e t = (e = t)"

text \<open>\<open>err.Error()\<close>.\<close>

fun err_text :: "err \<Rightarrow> string" where
  "err_text ErrValidation = ''validation failed''"
| "err_text ErrIdempotencyConflict = ''idempotency key reused with different request''"
| "err_text ErrInvalidStatusTransition = ''invalid payment status transition''"
| "err_text ErrPaymentNotFound = ''payment not found''"
| "err_text ErrUnbalancedTransaction = ''ledger transaction is not balanced''"
| "err_text ErrReplayAlreadyClaimed = ''dead-letter event was already claimed for replay''"
| "err_text ErrInvalidConfig = ''invalid config''"
| "err_text ErrCanceled = ''context canceled''"
| "err_text ErrDeadlineExceeded = ''context deadline exceeded''"
| "err_text (ErrText s) = s"
| "err_text (ErrWrap a e b) = a @ err_text e @ b"
| "err_text (ErrPermanent e) = err_text e"

text \<open>What a driver call can fail with.\<close>

datatype fault = Fault string | FaultCanceled | FaultDeadline

fun fault_err :: "fault \<Rightarrow> err" where
  "fault_err (Fault s) = ErrText s"
| "fault_err FaultCanceled = ErrCanceled"
| "fault_err FaultDeadline = ErrDeadlineExceeded"

lemma fault_err_simps [simp]:
  "errors_is (fault_err f) ErrPaymentNotFound = False"
  "errors_is (fault_err f) ErrIdempotencyConflict = False"
  "errors_is (fault_err f) ErrInvalidStatusTransition = False"
  "errors_is (fault_err f) ErrValidation = False"
  "errors_is (fault_err f) ErrReplayAlreadyClaimed = False"
  "fault_err f \<noteq> ErrPaymentNotFound"
  "fault_err f \<noteq> ErrIdempotencyConflict"
  "fault_err f \<noteq> ErrValidation"
  by (cases f; simp)+

section \<open>JSON\<close>

text \<open>
  JSON values; a number is \<open>JInt\<close> when its literal is an integer and \<open>JNum\<close> otherwise.
\<close>

datatype json =
    JNull
  | JBool bool
  | JInt int
  | JNum string
  | JStr string
  | JArr "json list"
  | JObj "(string \<times> json) list"

text \<open>
  \<open>encoding/json\<close> matches object keys to struct fields up to case folding. The field names
  of the services are ASCII; the only other runes that fold to ASCII letters are U+017F
  (folds with s) and U+212A (folds with k).
\<close>

definition fold_rune :: "rune \<Rightarrow> rune" where
  "fold_rune r =
     (if 97 \<le> r \<and> r \<le> 122 then r - 32
      else if r = 0x17F then 83
      else if r = 0x212A then 75
      else r)"

definition fold_name :: "string \<Rightarrow> rune list" where
  "fold_name s = map fold_rune (runes s)"

text \<open>
  A struct is described by its fields' names and setters; a setter returns \<open>None\<close> on a type
  mismatch. A mismatch or, with \<open>DisallowUnknownFields\<close>, an unknown key makes the whole
  decoding fail; \<open>null\<close> leaves the target as it is.
\<close>

type_synonym 'r fields = "(string \<times> (json \<Rightarrow> 'r \<Rightarrow> 'r option)) list"

definition find_field :: "'r fields \<Rightarrow> string \<Rightarrow> (json \<Rightarrow> 'r \<Rightarrow> 'r option) option" where
  "find_field spec k = map_of (map (\<lambda>(n, f). (fold_name n, f)) spec) (fold_name k)"

fun decode_fields :: "bool \<Rightarrow> 'r fields \<Rightarrow> (string \<times> json) list \<Rightarrow> 'r \<Rightarrow> 'r option" where
  "decode_fields strict spec [] r = Some r"
| "decode_fields strict spec ((k, v) # kvs) r =
     (case find_field spec k of
        None \<Rightarrow> if strict then None else decode_fields strict spec kvs r
      | Some set_field \<Rightarrow>
          (case set_field v r of None \<Rightarrow> None | Some r' \<Rightarrow> decode_fields strict spec kvs r'))"

definition decode_struct :: "bool \<Rightarrow> 'r fields \<Rightarrow> 'r \<Rightarrow> json \<Rightarrow> 'r option" where
  "decode_struct strict spec zero j =
     (case j of JObj kvs \<Rightarrow> decode_fields strict spec kvs zero | JNull \<Rightarrow> Some zero | _ \<Rightarrow> None)"

definition set_i64 :: "(i64 \<Rightarrow> 'r \<Rightarrow> 'r) \<Rightarrow> json \<Rightarrow> 'r \<Rightarrow> 'r option" where
  "set_i64 upd j r =
     (case j of
        JInt n \<Rightarrow> (case to_i64 n of None \<Rightarrow> None | Some w \<Rightarrow> Some (upd w r))
      | JNull \<Rightarrow> Some r
      | _ \<Rightarrow> None)"

definition set_str :: "(string \<Rightarrow> 'r \<Rightarrow> 'r) \<Rightarrow> json \<Rightarrow> 'r \<Rightarrow> 'r option" where
  "set_str upd j r =
     (case j of JStr s \<Rightarrow> Some (upd s r) | JNull \<Rightarrow> Some r | _ \<Rightarrow> None)"

lemma decode_struct_obj:
  "decode_struct strict spec zero (JObj kvs) = decode_fields strict spec kvs zero"
  by (simp add: decode_struct_def)

lemma set_i64_simps [simp]:
  "set_i64 upd (JInt (sint w)) r = Some (upd (w :: i64) r)"
  "set_i64 upd JNull r = Some r"
  using sint_i64_range [of w] by (simp_all add: set_i64_def to_i64_def in_i64_def)

lemma set_str_simps [simp]:
  "set_str upd (JStr s) r = Some (upd s r)"
  "set_str upd JNull r = Some r"
  by (simp_all add: set_str_def)

text \<open>
  What the stream decoder sees in a prefix of a body: a complete first value, a syntax error,
  or neither yet.
\<close>

datatype json_scan = ScanValue json | ScanBad | ScanMore

section \<open>Packages outside the repository\<close>

text \<open>
  \<open>uuid_parse\<close> is google/uuid's \<open>Parse\<close> (whether it succeeds); \<open>pg_uuid\<close> the reading of
  a UUID parameter by pgx and PostgreSQL (its canonical text, or a failure); \<open>sha256\<close> the
  digest; \<open>json_text\<close>, \<open>json_parse\<close>, \<open>json_scan\<close> the text form of JSON values;
  \<open>pg_jsonb\<close> what a JSONB column gives back for a document; \<open>pg_before\<close> the order of
  its collation; \<open>time_json\<close> the JSON text of a
  \<open>time.Time\<close> (it fails outside the years 0 to 9999).
\<close>

record lib = unicode_tables +
  uuid_parse :: "string \<Rightarrow> bool"
  pg_uuid :: "string \<Rightarrow> string option"
  sha256 :: "string \<Rightarrow> string"
  json_text :: "json \<Rightarrow> string"
  json_parse :: "string \<Rightarrow> json option"
  json_scan :: "string \<Rightarrow> json_scan"
  json_error :: "string \<Rightarrow> string"
  pg_jsonb :: "string \<Rightarrow> string option"
  pg_before :: "string \<Rightarrow> string \<Rightarrow> bool"
  time_json :: "int \<Rightarrow> string option"

lemma lib_truncate_id [simp]: "lib.truncate (L :: lib) = L"
  by (cases L) (simp add: lib.truncate_def)

lemma lib_eq:
  assumes "lib.truncate cx = lib.truncate L"
  shows "pg_jsonb cx = pg_jsonb L" and "json_text cx = json_text L" and "json_parse cx = json_parse L"
    and "pg_uuid cx = pg_uuid L" and "json_error cx = json_error L" and "json_scan cx = json_scan L"
    and "uuid_parse cx = uuid_parse L" and "sha256 cx = sha256 L" and "time_json cx = time_json L"
  using assms by (simp_all add: lib.truncate_def)

text \<open>The server's text for a UUID is read back as itself.\<close>

definition uuid_canonical :: "lib \<Rightarrow> bool" where
  "uuid_canonical L \<longleftrightarrow> (\<forall>x u. pg_uuid L x = Some u \<longrightarrow> pg_uuid L u = Some u)"

section \<open>The environment of a call\<close>

text \<open>
  A commit succeeds, or fails with nothing written, or reports an error although the
  server has committed (the connection broke before the answer).
\<close>

datatype commit_outcome = CommitOk | CommitLost fault | CommitUnknown fault

record ctx = lib +
  cx_uuid :: "nat \<Rightarrow> string"
  cx_now :: int
  cx_begin :: "fault option"
  cx_stmt :: "nat \<Rightarrow> fault option"
  cx_commit :: commit_outcome
  cx_traceparent :: string
  cx_tracestate :: string
  cx_locked :: "string \<Rightarrow> bool"
  cx_returning :: "nat \<Rightarrow> nat list"

text \<open>
  One transaction: begin, the body, commit. The deferred rollback drops the body's writes
  when the body returns an error.
\<close>

definition in_tx ::
  "'x ctx_scheme \<Rightarrow> string \<Rightarrow> ('a \<Rightarrow> string) \<Rightarrow> ('db \<Rightarrow> (err + 'a) \<times> 'db) \<Rightarrow> 'db \<Rightarrow> (err + 'a) \<times> 'db"
where
  "in_tx cx begin_msg commit_msg body db =
     (case cx_begin cx of
        Some f \<Rightarrow> (Inl (wrap begin_msg (fault_err f)), db)
      | None \<Rightarrow>
          (case body db of
             (Inl e, _) \<Rightarrow> (Inl e, db)
           | (Inr a, db') \<Rightarrow>
               (case cx_commit cx of
                  CommitOk \<Rightarrow> (Inr a, db')
                | CommitLost f \<Rightarrow> (Inl (wrap (commit_msg a) (fault_err f)), db)
                | CommitUnknown f \<Rightarrow> (Inl (wrap (commit_msg a) (fault_err f)), db'))))"

lemma in_tx_Inr:
  assumes "in_tx cx b c body db = (Inr a, db')"
  shows "cx_begin cx = None \<and> body db = (Inr a, db') \<and> cx_commit cx = CommitOk"
  using assms
  by (auto simp: in_tx_def split: option.splits prod.splits sum.splits commit_outcome.splits)

text \<open>Every transaction either leaves the tables alone or installs what its body computed.\<close>

lemma in_tx_cases:
  assumes "in_tx cx b c body db = (r, db')"
  obtains (unchanged) e where "db' = db" and "r = Inl e"
    | (installed) a where "body db = (Inr a, db')" and "r = Inr a \<or> (\<exists>e. r = Inl e)"
  using assms
  by (auto simp: in_tx_def split: option.splits prod.splits sum.splits commit_outcome.splits)

lemma in_tx_preserves:
  assumes "\<And>a d. body db = (Inr a, d) \<Longrightarrow> P d" and "P db"
  shows "P (snd (in_tx cx b c body db))"
  using assms
  by (auto simp: in_tx_def split: option.splits prod.splits sum.splits commit_outcome.splits)

text \<open>The k-th statement of a call: it may fail before it does anything.\<close>

definition stmt :: "'x ctx_scheme \<Rightarrow> nat \<Rightarrow> (err + 'a) \<Rightarrow> err + 'a" where
  "stmt cx k r = (case cx_stmt cx k of Some f \<Rightarrow> Inl (fault_err f) | None \<Rightarrow> r)"

lemma stmt_Inr [simp]: "stmt cx k r = Inr a \<longleftrightarrow> cx_stmt cx k = None \<and> r = Inr a"
  by (auto simp: stmt_def split: option.splits)

text \<open>A single statement outside an explicit transaction is a transaction of its own.\<close>

definition auto_tx :: "'x ctx_scheme \<Rightarrow> (err + 'a \<times> 'db) \<Rightarrow> 'db \<Rightarrow> (err + 'a) \<times> 'db" where
  "auto_tx cx r db =
     (case stmt cx 0 r of
        Inl e \<Rightarrow> (Inl e, db)
      | Inr (a, db') \<Rightarrow>
          (case cx_commit cx of
             CommitOk \<Rightarrow> (Inr a, db')
           | CommitLost f \<Rightarrow> (Inl (fault_err f), db)
           | CommitUnknown f \<Rightarrow> (Inl (fault_err f), db')))"

lemma auto_tx_cases:
  assumes "auto_tx cx r db = (res, db')"
  obtains (unchanged) e where "db' = db" and "res = Inl e"
    | (installed) a where "r = Inr (a, db')" and "res = Inr a \<or> (\<exists>e. res = Inl e)"
  using assms by (auto simp: auto_tx_def split: sum.splits commit_outcome.splits)

text \<open>An environment in which no database call fails.\<close>

definition no_faults :: "'x ctx_scheme \<Rightarrow> bool" where
  "no_faults cx \<longleftrightarrow> cx_begin cx = None \<and> (\<forall>k. cx_stmt cx k = None) \<and> cx_commit cx = CommitOk"

lemma no_faults_stmt [simp]: "no_faults cx \<Longrightarrow> stmt cx k r = r"
  by (simp add: no_faults_def stmt_def)

lemma no_faults_tx [simp]:
  "no_faults cx \<Longrightarrow> in_tx cx b m body db = (case body db of (Inl e, _) \<Rightarrow> (Inl e, db) | r \<Rightarrow> r)"
  by (auto simp: no_faults_def in_tx_def split: prod.splits sum.splits)

lemma no_faults_auto [simp]:
  "no_faults cx \<Longrightarrow> auto_tx cx r db = (case r of Inl e \<Rightarrow> (Inl e, db) | Inr (a, db') \<Rightarrow> (Inr a, db'))"
  by (auto simp: no_faults_def auto_tx_def stmt_def split: sum.splits)

text \<open>
  PostgreSQL text: valid UTF-8 without NUL. A \<open>CHAR(3)\<close> value is padded with blanks;
  a longer one is an error unless the excess is blank.
\<close>

definition utf8_valid :: "string \<Rightarrow> bool" where
  "utf8_valid s \<longleftrightarrow> concat (map encode_rune (runes s)) = s"

definition pg_text_ok :: "string \<Rightarrow> bool" where
  "pg_text_ok s \<longleftrightarrow> utf8_valid s \<and> CHR 0x00 \<notin> set s"

definition pg_char3 :: "string \<Rightarrow> string option" where
  "pg_char3 s =
     (if \<not> pg_text_ok s then None
      else if length (runes s) \<le> 3 then Some (s @ replicate (3 - length (runes s)) CHR '' '')
      else if list_all (\<lambda>r. r = 0x20) (drop 3 (runes s))
           then Some (take (length s - (length (runes s) - 3)) s)
      else None)"

lemma utf8_valid_ascii: "is_ascii s \<Longrightarrow> utf8_valid s"
  by (induction s) (auto simp: utf8_valid_def runes_ascii encode_rune_ascii)

end
