(* ===== verification/Payment_Model.thy ===== *)
theory Payment_Model
  imports Go_Runtime
begin

text \<open>
  The payment service's data: \<open>model/payment.go\<close> and \<open>event/payment_event.go\<close>. A payment
  status is a string with three known values, as in the code. An outbox event carries its
  payload as the bytes that \<open>json.Marshal\<close> made of the payload struct.
\<close>

section \<open>Payments\<close>

type_synonym payment_status = string

definition PaymentStatusPending :: payment_status where
  "PaymentStatusPending = ''pending''"

definition PaymentStatusSucceeded :: payment_status where
  "PaymentStatusSucceeded = ''succeeded''"

definition PaymentStatusFailed :: payment_status where
  "PaymentStatusFailed = ''failed''"

lemmas status_defs = PaymentStatusPending_def PaymentStatusSucceeded_def PaymentStatusFailed_def

lemma status_distinct [simp]:
  "PaymentStatusPending \<noteq> PaymentStatusSucceeded" "PaymentStatusSucceeded \<noteq> PaymentStatusPending"
  "PaymentStatusPending \<noteq> PaymentStatusFailed" "PaymentStatusFailed \<noteq> PaymentStatusPending"
  "PaymentStatusSucceeded \<noteq> PaymentStatusFailed" "PaymentStatusFailed \<noteq> PaymentStatusSucceeded"
  by (simp_all add: status_defs)

record payment =
  p_ID :: string
  p_AmountCents :: i64
  p_Currency :: string
  p_Status :: payment_status
  p_Description :: string
  p_ExternalReference :: string
  p_IdempotencyKey :: string
  p_IdempotencyHash :: string
  p_CreatedAt :: int
  p_UpdatedAt :: int

record create_payment_request =
  cr_AmountCents :: i64
  cr_Currency :: string
  cr_Description :: string
  cr_ExternalReference :: string

record update_payment_status_request =
  ur_Status :: payment_status

section \<open>Events\<close>

definition AggregateTypePayment :: string where
  "AggregateTypePayment = ''payment''"

definition PaymentCreatedEvent :: string where
  "PaymentCreatedEvent = ''payment.created''"

definition PaymentStatusChangedEvent :: string where
  "PaymentStatusChangedEvent = ''payment.status_changed''"

definition OutboxStatusPending :: string where
  "OutboxStatusPending = ''pending''"

definition OutboxStatusPublishing :: string where
  "OutboxStatusPublishing = ''publishing''"

definition OutboxStatusPublished :: string where
  "OutboxStatusPublished = ''published''"

definition OutboxStatusFailed :: string where
  "OutboxStatusFailed = ''failed''"

lemmas outbox_status_defs = OutboxStatusPending_def OutboxStatusPublishing_def
  OutboxStatusPublished_def OutboxStatusFailed_def

lemma outbox_status_distinct [simp]:
  "OutboxStatusPending \<noteq> OutboxStatusPublishing" "OutboxStatusPublishing \<noteq> OutboxStatusPending"
  "OutboxStatusPending \<noteq> OutboxStatusPublished" "OutboxStatusPublished \<noteq> OutboxStatusPending"
  "OutboxStatusPending \<noteq> OutboxStatusFailed" "OutboxStatusFailed \<noteq> OutboxStatusPending"
  "OutboxStatusPublishing \<noteq> OutboxStatusPublished" "OutboxStatusPublished \<noteq> OutboxStatusPublishing"
  "OutboxStatusPublishing \<noteq> OutboxStatusFailed" "OutboxStatusFailed \<noteq> OutboxStatusPublishing"
  "OutboxStatusPublished \<noteq> OutboxStatusFailed" "OutboxStatusFailed \<noteq> OutboxStatusPublished"
  by (simp_all add: outbox_status_defs)

lemma event_types_distinct [simp]:
  "PaymentCreatedEvent \<noteq> PaymentStatusChangedEvent"
  "PaymentStatusChangedEvent \<noteq> PaymentCreatedEvent"
  by (simp_all add: PaymentCreatedEvent_def PaymentStatusChangedEvent_def)

definition PaymentEventSchemaVersion :: int where
  "PaymentEventSchemaVersion = 1"

record outbox_event =
  oe_ID :: string
  oe_AggregateType :: string
  oe_AggregateID :: string
  oe_EventType :: string
  oe_Payload :: string
  oe_TraceParent :: string
  oe_TraceState :: string
  oe_Status :: string
  oe_Attempts :: int
  oe_LastError :: string
  oe_CreatedAt :: int
  oe_PublishedAt :: "int option"

text \<open>
  The two payload structs as the JSON values that \<open>json.Marshal\<close> writes: fields in
  declaration order, \<open>omitempty\<close> dropping an empty external reference, a time as its text.
  Marshalling fails when the time has no JSON form.
\<close>

definition omitempty :: "string \<Rightarrow> string \<Rightarrow> (string \<times> json) list" where
  "omitempty k v = (if v = [] then [] else [(k, JStr v)])"

definition payment_created_payload :: "payment \<Rightarrow> string \<Rightarrow> json" where
  "payment_created_payload p created_at =
     JObj ([(''schema_version'', JInt PaymentEventSchemaVersion),
            (''payment_id'', JStr (p_ID p)),
            (''amount_cents'', JInt (sint (p_AmountCents p))),
            (''currency'', JStr (p_Currency p)),
            (''status'', JStr (p_Status p))]
           @ omitempty ''external_reference'' (p_ExternalReference p)
           @ [(''created_at'', JStr created_at)])"

definition payment_status_changed_payload :: "payment_status \<Rightarrow> payment \<Rightarrow> string \<Rightarrow> json" where
  "payment_status_changed_payload previous p changed_at =
     JObj [(''schema_version'', JInt PaymentEventSchemaVersion),
           (''payment_id'', JStr (p_ID p)),
           (''previous_status'', JStr previous),
           (''new_status'', JStr (p_Status p)),
           (''changed_at'', JStr changed_at)]"

text \<open>
  \<open>newPaymentEvent\<close>: the payload is \<open>None\<close> when \<open>json.Marshal\<close> fails. The identifier
  is the second that \<open>uuid.NewString\<close> returns in a call (the first is the payment's).
\<close>

definition newPaymentEvent ::
  "'x ctx_scheme \<Rightarrow> string \<Rightarrow> string \<Rightarrow> json option \<Rightarrow> err + outbox_event"
where
  "newPaymentEvent cx paymentID eventType payload =
     (case payload of
        None \<Rightarrow> Inl (wrap ''marshal payment event payload'' (ErrText ''json: error calling MarshalJSON''))
      | Some body \<Rightarrow>
          Inr \<lparr>oe_ID = cx_uuid cx 1,
               oe_AggregateType = AggregateTypePayment,
               oe_AggregateID = paymentID,
               oe_EventType = eventType,
               oe_Payload = json_text cx body,
               oe_TraceParent = [],
               oe_TraceState = [],
               oe_Status = OutboxStatusPending,
               oe_Attempts = 0,
               oe_LastError = [],
               oe_CreatedAt = 0,
               oe_PublishedAt = None\<rparr>)"

definition NewPaymentCreated :: "'x ctx_scheme \<Rightarrow> payment \<Rightarrow> err + outbox_event" where
  "NewPaymentCreated cx p =
     newPaymentEvent cx (p_ID p) PaymentCreatedEvent
       (map_option (payment_created_payload p) (time_json cx (p_CreatedAt p)))"

definition NewPaymentStatusChanged ::
  "'x ctx_scheme \<Rightarrow> payment_status \<Rightarrow> payment \<Rightarrow> err + outbox_event"
where
  "NewPaymentStatusChanged cx previous p =
     newPaymentEvent cx (p_ID p) PaymentStatusChangedEvent
       (map_option (payment_status_changed_payload previous p) (time_json cx (p_UpdatedAt p)))"

lemma newPaymentEvent_Inr:
  assumes "newPaymentEvent cx pid et payload = Inr e"
  shows "oe_ID e = cx_uuid cx 1 \<and> oe_AggregateType e = AggregateTypePayment
    \<and> oe_AggregateID e = pid \<and> oe_EventType e = et \<and> oe_Status e = OutboxStatusPending
    \<and> (\<exists>body. payload = Some body \<and> oe_Payload e = json_text cx body)"
  using assms by (auto simp: newPaymentEvent_def split: option.splits)

lemma NewPaymentCreated_Inr:
  assumes "NewPaymentCreated cx p = Inr e"
  shows "oe_ID e = cx_uuid cx 1 \<and> oe_AggregateID e = p_ID p
    \<and> oe_EventType e = PaymentCreatedEvent \<and> oe_Status e = OutboxStatusPending
    \<and> (\<exists>t. time_json cx (p_CreatedAt p) = Some t
           \<and> oe_Payload e = json_text cx (payment_created_payload p t))"
  using newPaymentEvent_Inr [OF assms [unfolded NewPaymentCreated_def]] by auto

lemma NewPaymentStatusChanged_Inr:
  assumes "NewPaymentStatusChanged cx prev p = Inr e"
  shows "oe_ID e = cx_uuid cx 1 \<and> oe_AggregateID e = p_ID p
    \<and> oe_EventType e = PaymentStatusChangedEvent \<and> oe_Status e = OutboxStatusPending
    \<and> (\<exists>t. time_json cx (p_UpdatedAt p) = Some t
           \<and> oe_Payload e = json_text cx (payment_status_changed_payload prev p t))"
  using newPaymentEvent_Inr [OF assms [unfolded NewPaymentStatusChanged_def]] by auto

end
