(* ===== verification/Payment_Repo.thy ===== *)
theory Payment_Repo
  imports Payment_Model
begin

text \<open>
  \<open>repository/payment_repository.go\<close> on the tables \<open>payments\<close> and \<open>outbox_events\<close> of the
  migrations. Every statement is a function on the tables with the constraints of the schema;
  every repository method is one transaction. The invariant \<open>pay_inv\<close> ties each payment to
  its events, and every method keeps it.
\<close>

section \<open>Tables\<close>

record payment_row =
  pr_id :: string
  pr_amount_cents :: i64
  pr_currency :: string
  pr_status :: string
  pr_description :: "string option"
  pr_external_reference :: "string option"
  pr_idempotency_key :: "string option"
  pr_idempotency_request_hash :: "string option"
  pr_created_at :: int
  pr_updated_at :: int

record outbox_row =
  ob_id :: string
  ob_aggregate_type :: string
  ob_aggregate_id :: string
  ob_event_type :: string
  ob_payload :: string
  ob_status :: string
  ob_attempts :: int
  ob_last_error :: "string option"
  ob_created_at :: int
  ob_published_at :: "int option"
  ob_trace_parent :: "string option"
  ob_trace_state :: "string option"

record pay_db =
  payments :: "payment_row list"
  outbox :: "outbox_row list"

section \<open>Statements\<close>

definition nullableString :: "string \<Rightarrow> string option" where
  "nullableString value = (if value = [] then None else Some value)"

definition derefString :: "string option \<Rightarrow> string" where
  "derefString value = (case value of None \<Rightarrow> [] | Some s \<Rightarrow> s)"

lemma derefString_nullableString [simp]: "derefString (nullableString s) = s"
  by (simp add: derefString_def nullableString_def)

text \<open>The row that \<open>INSERT INTO payments\<close> builds; reading a parameter can fail.\<close>

definition payment_values ::
  "'x ctx_scheme \<Rightarrow> payment \<Rightarrow> string option \<Rightarrow> string option \<Rightarrow> err + payment_row"
where
  "payment_values cx p key hash =
     (case pg_uuid cx (p_ID p) of
        None \<Rightarrow> Inl (ErrText ''cannot encode id as uuid'')
      | Some u \<Rightarrow>
          (case pg_char3 (p_Currency p) of
             None \<Rightarrow> Inl (ErrText ''value too long for type character(3)'')
           | Some c \<Rightarrow>
               if list_all pg_text_ok
                    [p_Status p, p_Description p, p_ExternalReference p,
                     derefString key, derefString hash]
               then Inr \<lparr>pr_id = u, pr_amount_cents = p_AmountCents p, pr_currency = c,
                         pr_status = p_Status p,
                         pr_description = nullableString (p_Description p),
                         pr_external_reference = nullableString (p_ExternalReference p),
                         pr_idempotency_key = key, pr_idempotency_request_hash = hash,
                         pr_created_at = cx_now cx, pr_updated_at = cx_now cx\<rparr>
               else Inl (ErrText ''invalid byte sequence for encoding UTF8'')))"

definition payment_checks :: "payment_row \<Rightarrow> bool" where
  "payment_checks r \<longleftrightarrow> 0 < sint (pr_amount_cents r)
     \<and> pr_status r \<in> set [PaymentStatusPending, PaymentStatusSucceeded, PaymentStatusFailed]"

text \<open>
  \<open>INSERT INTO payments\<close> with the primary key, the unique idempotency key and the checks.
  With \<open>ON CONFLICT (idempotency_key) DO NOTHING\<close> a taken key gives no row instead of an
  error.
\<close>

definition insert_payment ::
  "bool \<Rightarrow> err + payment_row \<Rightarrow> pay_db \<Rightarrow> err + payment_row option \<times> pay_db"
where
  "insert_payment on_conflict values db =
     (case values of
        Inl e \<Rightarrow> Inl e
      | Inr r \<Rightarrow>
          if \<not> payment_checks r then Inl (ErrText ''violates check constraint'')
          else if pr_idempotency_key r \<noteq> None
                  \<and> pr_idempotency_key r \<in> set (map pr_idempotency_key (payments db))
          then (if on_conflict then Inr (None, db) else Inl (ErrText ''duplicate key value''))
          else if pr_id r \<in> set (map pr_id (payments db))
          then Inl (ErrText ''duplicate key value'')
          else Inr (Some r, db\<lparr>payments := payments db @ [r]\<rparr>))"

definition row_payment :: "payment_row \<Rightarrow> payment" where
  "row_payment r =
     \<lparr>p_ID = pr_id r, p_AmountCents = pr_amount_cents r, p_Currency = pr_currency r,
      p_Status = pr_status r,
      p_Description = derefString (pr_description r),
      p_ExternalReference = derefString (pr_external_reference r),
      p_IdempotencyKey = derefString (pr_idempotency_key r),
      p_IdempotencyHash = derefString (pr_idempotency_request_hash r),
      p_CreatedAt = pr_created_at r, p_UpdatedAt = pr_updated_at r\<rparr>"

definition scanPayment :: "payment_row option \<Rightarrow> err + payment" where
  "scanPayment row = (case row of None \<Rightarrow> Inl ErrPaymentNotFound | Some r \<Rightarrow> Inr (row_payment r))"

lemma scanPayment_simps [simp]:
  "scanPayment None = Inl ErrPaymentNotFound"
  "scanPayment (Some r) = Inr (row_payment r)"
  by (simp_all add: scanPayment_def)

lemma row_payment_simps [simp]:
  "p_ID (row_payment r) = pr_id r"
  "p_AmountCents (row_payment r) = pr_amount_cents r"
  "p_Currency (row_payment r) = pr_currency r"
  "p_Status (row_payment r) = pr_status r"
  "p_IdempotencyHash (row_payment r) = derefString (pr_idempotency_request_hash r)"
  "p_CreatedAt (row_payment r) = pr_created_at r"
  "p_UpdatedAt (row_payment r) = pr_updated_at r"
  by (simp_all add: row_payment_def)

text \<open>\<open>INSERT INTO outbox_events\<close> as the k-th statement of the call.\<close>

definition outbox_values :: "'x ctx_scheme \<Rightarrow> outbox_event \<Rightarrow> err + outbox_row" where
  "outbox_values cx e =
     (case pg_uuid cx (oe_ID e) of
        None \<Rightarrow> Inl (ErrText ''cannot encode id as uuid'')
      | Some u \<Rightarrow>
          (case pg_jsonb cx (oe_Payload e) of
             None \<Rightarrow> Inl (ErrText ''invalid input syntax for type json'')
           | Some doc \<Rightarrow>
               if list_all pg_text_ok [oe_AggregateID e, cx_traceparent cx, cx_tracestate cx]
               then Inr \<lparr>ob_id = u, ob_aggregate_type = oe_AggregateType e,
                         ob_aggregate_id = oe_AggregateID e, ob_event_type = oe_EventType e,
                         ob_payload = doc, ob_status = oe_Status e, ob_attempts = 0,
                         ob_last_error = None, ob_created_at = cx_now cx, ob_published_at = None,
                         ob_trace_parent = Some (cx_traceparent cx),
                         ob_trace_state = Some (cx_tracestate cx)\<rparr>
               else Inl (ErrText ''invalid byte sequence for encoding UTF8'')))"

definition insertOutboxEvent ::
  "'x ctx_scheme \<Rightarrow> nat \<Rightarrow> outbox_event \<Rightarrow> pay_db \<Rightarrow> err + pay_db"
where
  "insertOutboxEvent cx k e db =
     (case stmt cx k
             (case outbox_values cx e of
                Inl er \<Rightarrow> Inl er
              | Inr r \<Rightarrow>
                  if ob_id r \<in> set (map ob_id (outbox db))
                  then Inl (ErrText ''duplicate key value'')
                  else Inr (db\<lparr>outbox := outbox db @ [r]\<rparr>)) of
        Inl er \<Rightarrow> Inl (wrap ''insert outbox event'' er)
      | Inr db' \<Rightarrow> Inr db')"

section \<open>Methods\<close>

text \<open>What both ways of creating do once the row is in: the event joins the transaction.\<close>

definition with_created_event ::
  "'x ctx_scheme \<Rightarrow> payment \<Rightarrow> pay_db \<Rightarrow> (err + payment \<times> bool) \<times> pay_db"
where
  "with_created_event cx created db =
     (case NewPaymentCreated cx created of
        Inl e \<Rightarrow> (Inl e, db)
      | Inr ev \<Rightarrow>
          (case insertOutboxEvent cx 1 ev db of
             Inl e \<Rightarrow> (Inl e, db)
           | Inr db' \<Rightarrow> (Inr (created, True), db')))"

definition insertWithOutbox ::
  "'x ctx_scheme \<Rightarrow> payment \<Rightarrow> pay_db \<Rightarrow> (err + payment \<times> bool) \<times> pay_db"
where
  "insertWithOutbox cx p db =
     in_tx cx ''begin create transaction'' (\<lambda>_. ''commit create transaction'')
       (\<lambda>db. case stmt cx 0 (insert_payment False (payment_values cx p None None) db) of
                Inl e \<Rightarrow> (Inl (wrap ''insert payment'' e), db)
              | Inr (row, db1) \<Rightarrow>
                  (case scanPayment row of
                     Inl e \<Rightarrow> (Inl (wrap ''insert payment'' e), db)
                   | Inr created \<Rightarrow> with_created_event cx created db1))
       db"

text \<open>The lookup of the earlier payment when the insertion gave no row.\<close>

definition replay_existing ::
  "'x ctx_scheme \<Rightarrow> payment \<Rightarrow> pay_db \<Rightarrow> (err + payment \<times> bool) \<times> pay_db"
where
  "replay_existing cx p db =
     (case stmt cx 2 (Inr (sql_find pr_idempotency_key (Some (p_IdempotencyKey p)) (payments db))) of
        Inl e \<Rightarrow> (Inl (wrap ''find idempotent payment'' e), db)
      | Inr row \<Rightarrow>
          (case scanPayment row of
             Inl e \<Rightarrow> (Inl (wrap ''find idempotent payment'' e), db)
           | Inr existing \<Rightarrow>
               if p_IdempotencyHash existing \<noteq> p_IdempotencyHash p
               then (Inl ErrIdempotencyConflict, db)
               else (Inr (existing, False), db)))"

definition Create ::
  "'x ctx_scheme \<Rightarrow> payment \<Rightarrow> pay_db \<Rightarrow> (err + payment \<times> bool) \<times> pay_db"
where
  "Create cx p db =
     (if p_IdempotencyKey p = [] then insertWithOutbox cx p db
      else in_tx cx ''begin idempotent create transaction''
        (\<lambda>(_, created). if created then ''commit idempotent create transaction''
                         else ''commit idempotent replay transaction'')
        (\<lambda>db. case stmt cx 0
                     (insert_payment True
                        (payment_values cx p (Some (p_IdempotencyKey p)) (Some (p_IdempotencyHash p)))
                        db) of
                 Inl e \<Rightarrow> (Inl (wrap ''create payment'' e), db)
               | Inr (row, db1) \<Rightarrow>
                   (case scanPayment row of
                      Inr created \<Rightarrow> with_created_event cx created db1
                    | Inl e \<Rightarrow>
                        if \<not> errors_is e ErrPaymentNotFound
                        then (Inl (wrap ''create payment'' e), db)
                        else replay_existing cx p db))
        db)"

definition GetByID :: "'x ctx_scheme \<Rightarrow> string \<Rightarrow> pay_db \<Rightarrow> err + payment" where
  "GetByID cx pid db =
     (case stmt cx 0
             (case pg_uuid cx pid of
                None \<Rightarrow> Inl (ErrText ''cannot encode id as uuid'')
              | Some u \<Rightarrow> Inr (sql_find pr_id u (payments db))) of
        Inl e \<Rightarrow> Inl (wrap ''get payment by id'' e)
      | Inr row \<Rightarrow>
          (case scanPayment row of
             Inl e \<Rightarrow> Inl (wrap ''get payment by id'' e)
           | Inr p \<Rightarrow> Inr p))"

text \<open>
  \<open>UPDATE payments SET status = $2, updated_at = now() WHERE id = $1 AND status = $3\<close>:
  a compare-and-set on the status.
\<close>

definition update_payment_status ::
  "'x ctx_scheme \<Rightarrow> string \<Rightarrow> payment_status \<Rightarrow> payment_status \<Rightarrow> pay_db
     \<Rightarrow> err + payment_row option \<times> pay_db"
where
  "update_payment_status cx pid new prev db =
     (case pg_uuid cx pid of
        None \<Rightarrow> Inl (ErrText ''cannot encode id as uuid'')
      | Some u \<Rightarrow>
          (let hit = (\<lambda>r. pr_id r = u \<and> pr_status r = prev);
               write = (\<lambda>r. r\<lparr>pr_status := new, pr_updated_at := cx_now cx\<rparr>)
           in case find hit (payments db) of
                None \<Rightarrow> Inr (None, db)
              | Some r \<Rightarrow>
                  if \<not> payment_checks (write r) then Inl (ErrText ''violates check constraint'')
                  else Inr (Some (write r), db\<lparr>payments := sql_update hit write (payments db)\<rparr>)))"

definition UpdateStatus ::
  "'x ctx_scheme \<Rightarrow> string \<Rightarrow> payment_status \<Rightarrow> payment_status \<Rightarrow> pay_db \<Rightarrow> (err + payment) \<times> pay_db"
where
  "UpdateStatus cx pid previousStatus status db =
     in_tx cx ''begin status update transaction'' (\<lambda>_. ''commit status update transaction'')
       (\<lambda>db. case stmt cx 0 (update_payment_status cx pid status previousStatus db) of
                Inl e \<Rightarrow> (Inl (wrap ''update payment status'' e), db)
              | Inr (row, db1) \<Rightarrow>
                  (case scanPayment row of
                     Inl e \<Rightarrow> (Inl (wrap ''update payment status'' e), db)
                   | Inr p \<Rightarrow>
                       (case NewPaymentStatusChanged cx previousStatus p of
                          Inl e \<Rightarrow> (Inl e, db)
                        | Inr ev \<Rightarrow>
                            (case insertOutboxEvent cx 1 ev db1 of
                               Inl e \<Rightarrow> (Inl e, db)
                             | Inr db2 \<Rightarrow> (Inr p, db2)))))
       db"

section \<open>What the methods do\<close>

definition key_of :: "payment \<Rightarrow> string option" where
  "key_of p = nullableString (p_IdempotencyKey p)"

definition hash_of :: "payment \<Rightarrow> string option" where
  "hash_of p = (if p_IdempotencyKey p = [] then None else Some (p_IdempotencyHash p))"

text \<open>The one effect of a creation: one new payment row and its \<open>payment.created\<close> row.\<close>

definition created_row_event ::
  "'x lib_scheme \<Rightarrow> payment_row \<Rightarrow> outbox_row \<Rightarrow> bool"
where
  "created_row_event L r e \<longleftrightarrow>
     ob_event_type e = PaymentCreatedEvent \<and> ob_aggregate_id e = pr_id r
     \<and> (\<exists>p t. p_ID p = pr_id r \<and> p_AmountCents p = pr_amount_cents r
          \<and> p_Currency p = pr_currency r
          \<and> pg_jsonb L (json_text L (payment_created_payload p t)) = Some (ob_payload e))"

definition appends ::
  "'x ctx_scheme \<Rightarrow> payment \<Rightarrow> payment_row \<Rightarrow> outbox_row \<Rightarrow> pay_db \<Rightarrow> pay_db \<Rightarrow> bool"
where
  "appends cx p r e db db' \<longleftrightarrow>
     db' = db\<lparr>payments := payments db @ [r], outbox := outbox db @ [e]\<rparr>
     \<and> payment_values cx p (key_of p) (hash_of p) = Inr r
     \<and> payment_checks r
     \<and> pr_id r \<notin> set (map pr_id (payments db))
     \<and> (pr_idempotency_key r \<noteq> None \<longrightarrow>
          pr_idempotency_key r \<notin> set (map pr_idempotency_key (payments db)))
     \<and> ob_id e \<notin> set (map ob_id (outbox db))
     \<and> ob_status e = OutboxStatusPending
     \<and> pg_uuid cx (cx_uuid cx 1) = Some (ob_id e)
     \<and> created_row_event cx r e"

lemma insertOutboxEvent_Inr:
  assumes "insertOutboxEvent cx k e db = Inr db'"
  obtains r where "outbox_values cx e = Inr r" and "ob_id r \<notin> set (map ob_id (outbox db))"
    and "db' = db\<lparr>outbox := outbox db @ [r]\<rparr>"
  using assms
  by (auto simp: insertOutboxEvent_def stmt_def split: sum.splits if_splits option.splits)

lemma outbox_values_Inr:
  assumes "outbox_values cx e = Inr r"
  shows "ob_aggregate_id r = oe_AggregateID e \<and> ob_event_type r = oe_EventType e
    \<and> ob_status r = oe_Status e \<and> pg_jsonb cx (oe_Payload e) = Some (ob_payload r)
    \<and> pg_uuid cx (oe_ID e) = Some (ob_id r) \<and> ob_attempts r = 0 \<and> ob_published_at r = None"
  using assms by (auto simp: outbox_values_def split: option.splits if_splits)

lemma payment_values_Inr:
  assumes "payment_values cx p key hash = Inr r"
  shows "pg_uuid cx (p_ID p) = Some (pr_id r) \<and> pr_amount_cents r = p_AmountCents p
    \<and> pg_char3 (p_Currency p) = Some (pr_currency r) \<and> pr_status r = p_Status p
    \<and> pr_description r = nullableString (p_Description p)
    \<and> pr_external_reference r = nullableString (p_ExternalReference p)
    \<and> pr_idempotency_key r = key \<and> pr_idempotency_request_hash r = hash"
  using assms by (auto simp: payment_values_def split: option.splits if_splits)

lemma insert_payment_Some:
  assumes "insert_payment oc values db = Inr (Some r, db1)"
  shows "values = Inr r \<and> payment_checks r \<and> pr_id r \<notin> set (map pr_id (payments db))
    \<and> (pr_idempotency_key r \<noteq> None \<longrightarrow>
         pr_idempotency_key r \<notin> set (map pr_idempotency_key (payments db)))
    \<and> db1 = db\<lparr>payments := payments db @ [r]\<rparr>"
  using assms by (auto simp: insert_payment_def split: sum.splits if_splits)

lemma with_created_event_Inr:
  assumes "with_created_event cx (row_payment r) db = (Inr (q, c), db')"
  obtains e where "q = row_payment r" and "c"
    and "db' = db\<lparr>outbox := outbox db @ [e]\<rparr>" and "ob_id e \<notin> set (map ob_id (outbox db))"
    and "ob_status e = OutboxStatusPending" and "pg_uuid cx (cx_uuid cx 1) = Some (ob_id e)"
    and "created_row_event cx r e"
proof -
  from assms obtain ev where ev: "NewPaymentCreated cx (row_payment r) = Inr ev"
    and ins: "insertOutboxEvent cx 1 ev db = Inr db'" and q: "q = row_payment r" "c"
    by (auto simp: with_created_event_def split: sum.splits)
  from ins obtain e where e: "outbox_values cx ev = Inr e"
    and fresh: "ob_id e \<notin> set (map ob_id (outbox db))"
    and db': "db' = db\<lparr>outbox := outbox db @ [e]\<rparr>"
    by (rule insertOutboxEvent_Inr)
  from NewPaymentCreated_Inr [OF ev] outbox_values_Inr [OF e]
  have "ob_status e = OutboxStatusPending" "pg_uuid cx (cx_uuid cx 1) = Some (ob_id e)"
    "created_row_event cx r e"
    by (auto simp: created_row_event_def intro!: exI [of _ "row_payment r"])
  with q fresh db' show ?thesis by (intro that)
qed

lemma key_of_simps [simp]:
  "p_IdempotencyKey p = [] \<Longrightarrow> key_of p = None" "p_IdempotencyKey p = [] \<Longrightarrow> hash_of p = None"
  "p_IdempotencyKey p \<noteq> [] \<Longrightarrow> key_of p = Some (p_IdempotencyKey p)"
  "p_IdempotencyKey p \<noteq> [] \<Longrightarrow> hash_of p = Some (p_IdempotencyHash p)"
  by (simp_all add: key_of_def hash_of_def nullableString_def)

lemma created_body:
  assumes ins: "insert_payment oc (payment_values cx p (key_of p) (hash_of p)) db = Inr (Some r, db1)"
    and event: "with_created_event cx (row_payment r) db1 = (Inr (q, c), db')"
  shows "c \<and> q = row_payment r \<and> (\<exists>e. appends cx p r e db db')"
proof -
  note row = insert_payment_Some [OF ins]
  from event obtain e where "q = row_payment r" "c"
    "db' = db1\<lparr>outbox := outbox db1 @ [e]\<rparr>" "ob_id e \<notin> set (map ob_id (outbox db1))"
    "ob_status e = OutboxStatusPending" "pg_uuid cx (cx_uuid cx 1) = Some (ob_id e)"
    "created_row_event cx r e"
    by (rule with_created_event_Inr)
  with row show ?thesis
    by (auto simp: appends_def intro!: exI [of _ e])
qed

lemma replay_existing_Inr:
  assumes "replay_existing cx p db = (Inr (q, c), db')"
  shows "\<not> c \<and> db' = db \<and> p_IdempotencyHash q = p_IdempotencyHash p
    \<and> (\<exists>r. sql_find pr_idempotency_key (Some (p_IdempotencyKey p)) (payments db) = Some r
           \<and> q = row_payment r)"
  using assms
  by (auto simp: replay_existing_def stmt_def scanPayment_def
      split: sum.splits option.splits if_splits)

text \<open>The bodies of the two paths of \<open>Create\<close>, and what they compute.\<close>

definition create_result ::
  "'x ctx_scheme \<Rightarrow> payment \<Rightarrow> pay_db \<Rightarrow> payment \<Rightarrow> bool \<Rightarrow> pay_db \<Rightarrow> bool"
where
  "create_result cx p db q c db' \<longleftrightarrow>
     (if c then (\<exists>r e. q = row_payment r \<and> appends cx p r e db db')
      else db' = db \<and> p_IdempotencyKey p \<noteq> [] \<and> p_IdempotencyHash q = p_IdempotencyHash p
        \<and> (\<exists>r. sql_find pr_idempotency_key (Some (p_IdempotencyKey p)) (payments db) = Some r
               \<and> q = row_payment r))"

lemma create_result_created:
  assumes "insert_payment oc (payment_values cx p (key_of p) (hash_of p)) db = Inr (Some r, db1)"
    and "with_created_event cx (row_payment r) db1 = (Inr (q, c), db')"
  shows "create_result cx p db q c db'"
  using created_body [OF assms] by (auto simp: create_result_def)

lemma create_result_replay:
  assumes "replay_existing cx p db = (Inr (q, c), db')" and "p_IdempotencyKey p \<noteq> []"
  shows "create_result cx p db q c db'"
  using replay_existing_Inr [OF assms(1)] assms(2) by (auto simp: create_result_def)

lemma Create_tx:
  obtains (tx) b m body where "Create cx p db = in_tx cx b m body db"
    and "\<And>q c db'. body db = (Inr (q, c), db') \<Longrightarrow> create_result cx p db q c db'"
proof (cases "p_IdempotencyKey p = []")
  case True
  note path = Create_def insertWithOutbox_def if_P [OF True]
  show ?thesis
  proof (rule tx)
    show "Create cx p db = in_tx cx ''begin create transaction'' (\<lambda>_. ''commit create transaction'')
       (\<lambda>db. case stmt cx 0 (insert_payment False (payment_values cx p (key_of p) (hash_of p)) db) of
                Inl e \<Rightarrow> (Inl (wrap ''insert payment'' e), db)
              | Inr (row, db1) \<Rightarrow>
                  (case scanPayment row of
                     Inl e \<Rightarrow> (Inl (wrap ''insert payment'' e), db)
                   | Inr created \<Rightarrow> with_created_event cx created db1))
       db"
      using True by (simp add: path)
  qed (auto simp: scanPayment_def split: sum.splits option.splits intro: create_result_created)
next
  case False
  show ?thesis
  proof (rule tx)
    show "Create cx p db = in_tx cx ''begin idempotent create transaction''
        (\<lambda>(_, created). if created then ''commit idempotent create transaction''
                         else ''commit idempotent replay transaction'')
        (\<lambda>db. case stmt cx 0 (insert_payment True (payment_values cx p (key_of p) (hash_of p)) db) of
                 Inl e \<Rightarrow> (Inl (wrap ''create payment'' e), db)
               | Inr (row, db1) \<Rightarrow>
                   (case scanPayment row of
                      Inr created \<Rightarrow> with_created_event cx created db1
                    | Inl e \<Rightarrow>
                        if \<not> errors_is e ErrPaymentNotFound
                        then (Inl (wrap ''create payment'' e), db)
                        else replay_existing cx p db))
        db"
      using False by (simp add: Create_def)
  qed (use False in \<open>auto simp: scanPayment_def simp del: key_of_simps
         split: sum.splits option.splits if_splits
         dest: create_result_created create_result_replay\<close>)
qed

lemma Create_success: "Create cx p db = (Inr (q, c), db') \<Longrightarrow> create_result cx p db q c db'"
  by (rule Create_tx [of cx p db]) (auto dest: in_tx_Inr)

text \<open>Whatever happens, the tables are either untouched or hold exactly one new payment.\<close>

lemma Create_effect:
  assumes "Create cx p db = (res, db')"
  shows "db' = db \<or> (\<exists>r e. appends cx p r e db db')"
proof (rule Create_tx [of cx p db])
  fix b m body
  assume tx: "Create cx p db = in_tx cx b m body db"
    and body: "\<And>q c db'. body db = (Inr (q, c), db') \<Longrightarrow> create_result cx p db q c db'"
  from assms tx have "in_tx cx b m body db = (res, db')" by simp
  then show ?thesis
    by (cases rule: in_tx_cases) (auto simp: create_result_def dest!: body split: if_splits)
qed

text \<open>The one effect of a status update: the row moves, and its event row is appended.\<close>

definition moves ::
  "'x ctx_scheme \<Rightarrow> string \<Rightarrow> payment_status \<Rightarrow> payment_status \<Rightarrow> payment_row \<Rightarrow> outbox_row
     \<Rightarrow> pay_db \<Rightarrow> pay_db \<Rightarrow> bool"
where
  "moves cx pid prev new r e db db' \<longleftrightarrow>
     pg_uuid cx pid = Some (pr_id r) \<and> r \<in> set (payments db) \<and> pr_status r = prev
     \<and> db' = db\<lparr>payments := sql_update (\<lambda>r'. pr_id r' = pr_id r \<and> pr_status r' = prev)
                  (\<lambda>r'. r'\<lparr>pr_status := new, pr_updated_at := cx_now cx\<rparr>) (payments db),
               outbox := outbox db @ [e]\<rparr>
     \<and> payment_checks (r\<lparr>pr_status := new, pr_updated_at := cx_now cx\<rparr>)
     \<and> ob_id e \<notin> set (map ob_id (outbox db))
     \<and> ob_event_type e = PaymentStatusChangedEvent \<and> ob_aggregate_id e = pr_id r
     \<and> ob_status e = OutboxStatusPending
     \<and> pg_uuid cx (cx_uuid cx 1) = Some (ob_id e)
     \<and> (\<exists>t. pg_jsonb cx (json_text cx (payment_status_changed_payload prev
              (row_payment (r\<lparr>pr_status := new, pr_updated_at := cx_now cx\<rparr>)) t)) = Some (ob_payload e))"

lemma update_payment_status_Some:
  assumes "update_payment_status cx pid new prev db = Inr (Some w, db1)"
  obtains r where "pg_uuid cx pid = Some (pr_id r)" and "r \<in> set (payments db)"
    and "pr_status r = prev" and "w = r\<lparr>pr_status := new, pr_updated_at := cx_now cx\<rparr>"
    and "payment_checks w"
    and "db1 = db\<lparr>payments := sql_update (\<lambda>r'. pr_id r' = pr_id r \<and> pr_status r' = prev)
                  (\<lambda>r'. r'\<lparr>pr_status := new, pr_updated_at := cx_now cx\<rparr>) (payments db)\<rparr>"
proof -
  from assms obtain r u where u: "pg_uuid cx pid = Some u"
    and f: "find (\<lambda>r. pr_id r = u \<and> pr_status r = prev) (payments db) = Some r"
    and rest: "w = r\<lparr>pr_status := new, pr_updated_at := cx_now cx\<rparr>" "payment_checks w"
      "db1 = db\<lparr>payments := sql_update (\<lambda>r'. pr_id r' = u \<and> pr_status r' = prev)
                  (\<lambda>r'. r'\<lparr>pr_status := new, pr_updated_at := cx_now cx\<rparr>) (payments db)\<rparr>"
    by (auto simp: update_payment_status_def Let_def split: option.splits if_splits)
  from f have "r \<in> set (payments db)" "pr_id r = u" "pr_status r = prev"
    by (auto simp: find_Some_iff)
  with u rest show ?thesis by (intro that) auto
qed

lemma UpdateStatus_tx:
  obtains (tx) b m body where "UpdateStatus cx pid prev new db = in_tx cx b m body db"
    and "\<And>q db'. body db = (Inr q, db') \<Longrightarrow>
      \<exists>r e. moves cx pid prev new r e db db'
        \<and> q = row_payment (r\<lparr>pr_status := new, pr_updated_at := cx_now cx\<rparr>)"
proof (rule tx)
  show "UpdateStatus cx pid prev new db = in_tx cx ''begin status update transaction''
      (\<lambda>_. ''commit status update transaction'')
       (\<lambda>db. case stmt cx 0 (update_payment_status cx pid new prev db) of
                Inl e \<Rightarrow> (Inl (wrap ''update payment status'' e), db)
              | Inr (row, db1) \<Rightarrow>
                  (case scanPayment row of
                     Inl e \<Rightarrow> (Inl (wrap ''update payment status'' e), db)
                   | Inr p \<Rightarrow>
                       (case NewPaymentStatusChanged cx prev p of
                          Inl e \<Rightarrow> (Inl e, db)
                        | Inr ev \<Rightarrow>
                            (case insertOutboxEvent cx 1 ev db1 of
                               Inl e \<Rightarrow> (Inl e, db)
                             | Inr db2 \<Rightarrow> (Inr p, db2))))) db"
    by (simp add: UpdateStatus_def)
next
  fix q db'
  assume "(case stmt cx 0 (update_payment_status cx pid new prev db) of
                Inl e \<Rightarrow> (Inl (wrap ''update payment status'' e), db)
              | Inr (row, db1) \<Rightarrow>
                  (case scanPayment row of
                     Inl e \<Rightarrow> (Inl (wrap ''update payment status'' e), db)
                   | Inr p \<Rightarrow>
                       (case NewPaymentStatusChanged cx prev p of
                          Inl e \<Rightarrow> (Inl e, db)
                        | Inr ev \<Rightarrow>
                            (case insertOutboxEvent cx 1 ev db1 of
                               Inl e \<Rightarrow> (Inl e, db)
                             | Inr db2 \<Rightarrow> (Inr p, db2))))) = (Inr q, db')"
  then obtain w db1 ev where upd: "update_payment_status cx pid new prev db = Inr (Some w, db1)"
    and q: "q = row_payment w" and ev: "NewPaymentStatusChanged cx prev (row_payment w) = Inr ev"
    and ins: "insertOutboxEvent cx 1 ev db1 = Inr db'"
    by (auto simp: scanPayment_def split: sum.splits option.splits)
  from ins obtain e where e: "outbox_values cx ev = Inr e"
    and fresh: "ob_id e \<notin> set (map ob_id (outbox db1))"
    and db': "db' = db1\<lparr>outbox := outbox db1 @ [e]\<rparr>"
    by (rule insertOutboxEvent_Inr)
  from upd show "\<exists>r e. moves cx pid prev new r e db db'
        \<and> q = row_payment (r\<lparr>pr_status := new, pr_updated_at := cx_now cx\<rparr>)"
    by (rule update_payment_status_Some)
      (use NewPaymentStatusChanged_Inr [OF ev] outbox_values_Inr [OF e] fresh db' q
       in \<open>force simp: moves_def\<close>)
qed

lemma UpdateStatus_success:
  assumes "UpdateStatus cx pid prev new db = (Inr q, db')"
  obtains r e where "moves cx pid prev new r e db db'"
    and "q = row_payment (r\<lparr>pr_status := new, pr_updated_at := cx_now cx\<rparr>)"
proof (rule UpdateStatus_tx [of cx pid prev new db])
  fix b m body
  assume tx: "UpdateStatus cx pid prev new db = in_tx cx b m body db"
    and body: "\<And>q db'. body db = (Inr q, db') \<Longrightarrow> \<exists>r e. moves cx pid prev new r e db db'
        \<and> q = row_payment (r\<lparr>pr_status := new, pr_updated_at := cx_now cx\<rparr>)"
  from assms tx have "in_tx cx b m body db = (Inr q, db')" by simp
  then have "body db = (Inr q, db')" by (auto dest: in_tx_Inr)
  from body [OF this] show ?thesis using that by blast
qed

lemma UpdateStatus_effect:
  assumes "UpdateStatus cx pid prev new db = (res, db')"
  shows "db' = db \<or> (\<exists>r e. moves cx pid prev new r e db db')"
proof (rule UpdateStatus_tx [of cx pid prev new db])
  fix b m body
  assume tx: "UpdateStatus cx pid prev new db = in_tx cx b m body db"
    and body: "\<And>q db'. body db = (Inr q, db') \<Longrightarrow> \<exists>r e. moves cx pid prev new r e db db'
        \<and> q = row_payment (r\<lparr>pr_status := new, pr_updated_at := cx_now cx\<rparr>)"
  from assms tx have "in_tx cx b m body db = (res, db')" by simp
  then show ?thesis by (cases rule: in_tx_cases) (auto dest!: body)
qed

lemma GetByID_Inr:
  assumes "GetByID cx pid db = Inr p"
  obtains r where "pg_uuid cx pid = Some (pr_id r)" and "r \<in> set (payments db)"
    and "sql_find pr_id (pr_id r) (payments db) = Some r" and "p = row_payment r"
  using assms
  by (auto simp: GetByID_def stmt_def scanPayment_def split: option.splits sum.splits
      dest: sql_find_Some)

section \<open>The invariant of the tables\<close>

definition events_of :: "string \<Rightarrow> string \<Rightarrow> pay_db \<Rightarrow> outbox_row list" where
  "events_of et pid db = filter (\<lambda>e. ob_event_type e = et \<and> ob_aggregate_id e = pid) (outbox db)"

definition idempotency_keys :: "pay_db \<Rightarrow> string option list" where
  "idempotency_keys db = filter (\<lambda>k. k \<noteq> None) (map pr_idempotency_key (payments db))"

text \<open>
  A payment satisfies the checks, has exactly one \<open>payment.created\<close> row, which carries its
  identifier, amount and currency, and has a \<open>payment.status_changed\<close> row exactly when its
  status is no longer pending, and then one.
\<close>

definition row_inv :: "'x lib_scheme \<Rightarrow> pay_db \<Rightarrow> payment_row \<Rightarrow> bool" where
  "row_inv L db r \<longleftrightarrow>
     payment_checks r
     \<and> length (events_of PaymentCreatedEvent (pr_id r) db) = 1
     \<and> (\<forall>e \<in> set (events_of PaymentCreatedEvent (pr_id r) db). created_row_event L r e)
     \<and> length (events_of PaymentStatusChangedEvent (pr_id r) db)
         = (if pr_status r = PaymentStatusPending then 0 else 1)"

definition pay_inv :: "'x lib_scheme \<Rightarrow> pay_db \<Rightarrow> bool" where
  "pay_inv L db \<longleftrightarrow>
     distinct (map pr_id (payments db))
     \<and> distinct (idempotency_keys db)
     \<and> distinct (map ob_id (outbox db))
     \<and> (\<forall>r \<in> set (payments db). row_inv L db r)
     \<and> (\<forall>e \<in> set (outbox db). ob_aggregate_id e \<in> pr_id ` set (payments db)
          \<and> ob_event_type e \<in> {PaymentCreatedEvent, PaymentStatusChangedEvent})"

definition empty_pay_db :: pay_db where
  "empty_pay_db = \<lparr>payments = [], outbox = []\<rparr>"

lemma pay_inv_empty [simp]: "pay_inv L empty_pay_db"
  by (simp add: pay_inv_def empty_pay_db_def idempotency_keys_def)

lemma events_of_append:
  "events_of et pid (db\<lparr>payments := ps, outbox := outbox db @ [e]\<rparr>) =
     events_of et pid db @ (if ob_event_type e = et \<and> ob_aggregate_id e = pid then [e] else [])"
  by (simp add: events_of_def)

lemma events_of_foreign:
  assumes "pay_inv L db" and "pid \<notin> set (map pr_id (payments db))"
  shows "events_of et pid db = []"
  using assms by (auto simp: events_of_def pay_inv_def filter_empty_conv)

lemma created_row_event_lib:
  assumes "lib.truncate cx = lib.truncate L"
  shows "created_row_event cx r e = created_row_event L r e"
  by (simp add: created_row_event_def lib_eq [OF assms])

lemma appends_inv:
  assumes app: "appends cx p r e db db'" and inv: "pay_inv L db"
    and lib: "lib.truncate cx = lib.truncate L" and pending: "p_Status p = PaymentStatusPending"
  shows "pay_inv L db'"
proof -
  have db': "db' = db\<lparr>payments := payments db @ [r], outbox := outbox db @ [e]\<rparr>"
    and fresh: "pr_id r \<notin> set (map pr_id (payments db))" "ob_id e \<notin> set (map ob_id (outbox db))"
    and checks: "payment_checks r" and ev: "created_row_event L r e"
    and key: "pr_idempotency_key r \<noteq> None \<longrightarrow>
      pr_idempotency_key r \<notin> set (map pr_idempotency_key (payments db))"
    and st: "pr_status r = PaymentStatusPending"
    using app pending by (auto simp: appends_def created_row_event_lib [OF lib] dest: payment_values_Inr)
  have evs: "ob_event_type e = PaymentCreatedEvent" "ob_aggregate_id e = pr_id r"
    using ev by (auto simp: created_row_event_def)
  have old: "row_inv L db' r'" if "r' \<in> set (payments db)" for r'
  proof -
    from that fresh(1) have "pr_id r' \<noteq> pr_id r" by (metis image_eqI list.set_map)
    with that inv evs show ?thesis
      by (auto simp: row_inv_def pay_inv_def db' events_of_append)
  qed
  have new: "row_inv L db' r"
    using checks ev evs st events_of_foreign [OF inv fresh(1)]
    by (simp add: row_inv_def db' events_of_append)
  show ?thesis
    using inv fresh key old new evs unfolding pay_inv_def
    by (auto simp: db' idempotency_keys_def)
qed

lemma moves_inv:
  assumes mv: "moves cx pid prev new r e db db'" and inv: "pay_inv L db"
    and prev: "prev = PaymentStatusPending" and new: "new \<noteq> PaymentStatusPending"
  shows "pay_inv L db'"
proof -
  let ?hit = "\<lambda>r'. pr_id r' = pr_id r \<and> pr_status r' = prev"
  let ?wr = "\<lambda>r'. r'\<lparr>pr_status := new, pr_updated_at := cx_now cx\<rparr>"
  have db': "db' = db\<lparr>payments := sql_update ?hit ?wr (payments db), outbox := outbox db @ [e]\<rparr>"
    and r: "r \<in> set (payments db)" "pr_status r = prev" "payment_checks (?wr r)"
    and fresh: "ob_id e \<notin> set (map ob_id (outbox db))"
    and ev: "ob_event_type e = PaymentStatusChangedEvent" "ob_aggregate_id e = pr_id r"
    using mv by (auto simp: moves_def)
  have only: "r' = r" if "r' \<in> set (payments db)" "pr_id r' = pr_id r" for r'
    using that r inv by (auto simp: pay_inv_def distinct_map inj_on_def)
  have ids: "map pr_id (payments db') = map pr_id (payments db)"
    and keys: "idempotency_keys db' = idempotency_keys db"
    by (simp_all add: db' idempotency_keys_def map_sql_update)
  have rows: "row_inv L db' r''" if "r'' \<in> set (payments db')" for r''
  proof -
    from that obtain r' where r': "r' \<in> set (payments db)" "r'' = (if ?hit r' then ?wr r' else r')"
      by (auto simp: db' set_sql_update)
    from r' inv have "row_inv L db r'" by (auto simp: pay_inv_def)
    then show ?thesis
    proof (cases "pr_id r' = pr_id r")
      case True
      with only r' have "r' = r" by blast
      with r r' \<open>row_inv L db r'\<close> prev new ev show ?thesis
        by (auto simp: row_inv_def db' events_of_append created_row_event_def)
    next
      case False
      with \<open>row_inv L db r'\<close> r' ev show ?thesis
        by (auto simp: row_inv_def db' events_of_append)
    qed
  qed
  have "set (outbox db') = insert e (set (outbox db))" by (simp add: db')
  moreover have "pr_id ` set (payments db') = pr_id ` set (payments db)"
    using ids by (metis list.set_map)
  moreover have "distinct (map ob_id (outbox db'))" using inv fresh by (simp add: db' pay_inv_def)
  ultimately show ?thesis
    using inv ids keys rows ev r(1) unfolding pay_inv_def by auto
qed

end
