(* ===== verification/Payment_Service.thy ===== *)
theory Payment_Service
  imports Payment_Repo
begin

text \<open>
  \<open>service/payment_service.go\<close>: normalisation and validation of requests, the request hash,
  the status rules, and the three service operations over the \<open>PaymentRepository\<close>
  interface. The interface is a record of functions, as the Go interface is a method table;
  the laws that the service relies on are the locale \<open>payment_store\<close>, proved for the
  PostgreSQL repository.
\<close>

section \<open>Validation\<close>

definition validateCreatePayment ::
  "'x unicode_tables_scheme \<Rightarrow> create_payment_request \<Rightarrow> string \<Rightarrow> err option"
where
  "validateCreatePayment ut req key =
     (if sint (cr_AmountCents req) \<le> 0 then Some ErrValidation
      else if length (cr_Currency req) \<noteq> 3 then Some ErrValidation
      else if \<not> list_all (\<lambda>r. rune_is_letter ut r \<and> rune_is_upper ut r) (runes (cr_Currency req))
      then Some ErrValidation
      else if length (cr_Description req) > 500 then Some ErrValidation
      else if length (cr_ExternalReference req) > 120 then Some ErrValidation
      else if length key > 120 then Some ErrValidation
      else None)"

definition isKnownStatus :: "payment_status \<Rightarrow> bool" where
  "isKnownStatus status \<longleftrightarrow>
     status \<in> set [PaymentStatusPending, PaymentStatusSucceeded, PaymentStatusFailed]"

definition canTransition :: "payment_status \<Rightarrow> payment_status \<Rightarrow> bool" where
  "canTransition source target \<longleftrightarrow>
     source = PaymentStatusPending \<and> (target = PaymentStatusSucceeded \<or> target = PaymentStatusFailed)"

definition request_parts :: "create_payment_request \<Rightarrow> string list" where
  "request_parts req =
     [format_int (sint (cr_AmountCents req)), cr_Currency req, cr_Description req,
      cr_ExternalReference req]"

definition createPaymentRequestHash :: "'x lib_scheme \<Rightarrow> create_payment_request \<Rightarrow> string" where
  "createPaymentRequestHash L req =
     hex_encode (sha256 L (str_join [CHR 0x00] (request_parts req)))"

text \<open>The first lines of \<open>Create\<close>: what is validated, hashed and stored.\<close>

definition normalize_create ::
  "'x unicode_tables_scheme \<Rightarrow> create_payment_request \<Rightarrow> create_payment_request"
where
  "normalize_create ut req =
     req\<lparr>cr_Currency := to_upper ut (trim_space (cr_Currency req)),
         cr_Description := trim_space (cr_Description req),
         cr_ExternalReference := trim_space (cr_ExternalReference req)\<rparr>"

section \<open>The repository interface\<close>

record ('c, 's) payment_repository =
  repo_Create :: "'c \<Rightarrow> payment \<Rightarrow> 's \<Rightarrow> (err + payment \<times> bool) \<times> 's"
  repo_GetByID :: "'c \<Rightarrow> string \<Rightarrow> 's \<Rightarrow> err + payment"
  repo_UpdateStatus ::
    "'c \<Rightarrow> string \<Rightarrow> payment_status \<Rightarrow> payment_status \<Rightarrow> 's \<Rightarrow> (err + payment) \<times> 's"

definition PostgresPaymentRepository :: "('x ctx_scheme, pay_db) payment_repository" where
  "PostgresPaymentRepository =
     \<lparr>repo_Create = Create, repo_GetByID = GetByID, repo_UpdateStatus = UpdateStatus\<rparr>"

lemma PostgresPaymentRepository_simps [simp]:
  "repo_Create PostgresPaymentRepository = Create"
  "repo_GetByID PostgresPaymentRepository = GetByID"
  "repo_UpdateStatus PostgresPaymentRepository = UpdateStatus"
  by (simp_all add: PostgresPaymentRepository_def)

section \<open>Operations\<close>

text \<open>The payment that \<open>Create\<close> hands to the repository.\<close>

definition new_payment :: "'x ctx_scheme \<Rightarrow> create_payment_request \<Rightarrow> string \<Rightarrow> payment" where
  "new_payment cx req key =
     \<lparr>p_ID = cx_uuid cx 0, p_AmountCents = cr_AmountCents req, p_Currency = cr_Currency req,
      p_Status = PaymentStatusPending, p_Description = cr_Description req,
      p_ExternalReference = cr_ExternalReference req, p_IdempotencyKey = key,
      p_IdempotencyHash = (if key \<noteq> [] then createPaymentRequestHash cx req else []),
      p_CreatedAt = 0, p_UpdatedAt = 0\<rparr>"

definition PaymentService_Create ::
  "('x ctx_scheme, 's) payment_repository \<Rightarrow> 'x ctx_scheme \<Rightarrow> create_payment_request \<Rightarrow> string
     \<Rightarrow> 's \<Rightarrow> (err + payment \<times> bool) \<times> 's"
where
  "PaymentService_Create R cx request idempotencyKey s =
     (let req = normalize_create cx request; key = trim_space idempotencyKey
      in case validateCreatePayment cx req key of
           Some e \<Rightarrow> (Inl e, s)
         | None \<Rightarrow>
             (case repo_Create R cx (new_payment cx req key) s of
                (Inl e, s') \<Rightarrow>
                  if errors_is e ErrIdempotencyConflict then (Inl ErrIdempotencyConflict, s')
                  else (Inl e, s')
              | (Inr (p, created), s') \<Rightarrow> (Inr (p, created), s')))"

definition PaymentService_GetByID ::
  "('x ctx_scheme, 's) payment_repository \<Rightarrow> 'x ctx_scheme \<Rightarrow> string \<Rightarrow> 's \<Rightarrow> err + payment"
where
  "PaymentService_GetByID R cx ident s =
     (let pid = trim_space ident
      in if \<not> uuid_parse cx pid then Inl ErrValidation
         else (case repo_GetByID R cx pid s of
                 Inl e \<Rightarrow> if errors_is e ErrPaymentNotFound then Inl ErrPaymentNotFound else Inl e
               | Inr p \<Rightarrow> Inr p))"

text \<open>
  \<open>UpdateStatus\<close> makes two repository calls, between which other transactions commit. The
  first part reads the payment and decides; the second is the compare-and-set. The second
  call has an environment of its own.
\<close>

datatype update_decision =
    Finished "err + payment"
  | Write string payment_status payment_status

definition update_read ::
  "('x ctx_scheme, 's) payment_repository \<Rightarrow> 'x ctx_scheme \<Rightarrow> string \<Rightarrow> update_payment_status_request
     \<Rightarrow> 's \<Rightarrow> update_decision"
where
  "update_read R cx ident request s =
     (let pid = trim_space ident
      in if \<not> uuid_parse cx pid then Finished (Inl ErrValidation)
         else let status = to_lower cx (trim_space (ur_Status request))
         in if \<not> isKnownStatus status then Finished (Inl ErrValidation)
            else (case repo_GetByID R cx pid s of
                    Inl e \<Rightarrow>
                      if errors_is e ErrPaymentNotFound then Finished (Inl ErrPaymentNotFound)
                      else Finished (Inl e)
                  | Inr current \<Rightarrow>
                      if p_Status current = status then Finished (Inr current)
                      else if \<not> canTransition (p_Status current) status
                      then Finished (Inl ErrInvalidStatusTransition)
                      else Write pid (p_Status current) status))"

definition update_write ::
  "('x ctx_scheme, 's) payment_repository \<Rightarrow> 'x ctx_scheme \<Rightarrow> string \<Rightarrow> payment_status
     \<Rightarrow> payment_status \<Rightarrow> 's \<Rightarrow> (err + payment) \<times> 's"
where
  "update_write R cx pid previous status s =
     (case repo_UpdateStatus R cx pid previous status s of
        (Inl e, s') \<Rightarrow>
          if errors_is e ErrPaymentNotFound then (Inl ErrPaymentNotFound, s') else (Inl e, s')
      | (Inr p, s') \<Rightarrow> (Inr p, s'))"

definition PaymentService_UpdateStatus ::
  "('x ctx_scheme, 's) payment_repository \<Rightarrow> 'x ctx_scheme \<Rightarrow> 'x ctx_scheme \<Rightarrow> ('s \<Rightarrow> 's)
     \<Rightarrow> string \<Rightarrow> update_payment_status_request \<Rightarrow> 's \<Rightarrow> (err + payment) \<times> 's"
where
  "PaymentService_UpdateStatus R cx cx' others ident request s =
     (case update_read R cx ident request s of
        Finished res \<Rightarrow> (res, s)
      | Write pid previous status \<Rightarrow> update_write R cx' pid previous status (others s))"

section \<open>Facts about validation\<close>

lemma validateCreatePayment_None:
  "validateCreatePayment ut req key = None \<longleftrightarrow>
     0 < sint (cr_AmountCents req) \<and> length (cr_Currency req) = 3
     \<and> list_all (\<lambda>r. rune_is_letter ut r \<and> rune_is_upper ut r) (runes (cr_Currency req))
     \<and> length (cr_Description req) \<le> 500 \<and> length (cr_ExternalReference req) \<le> 120
     \<and> length key \<le> 120"
  by (auto simp: validateCreatePayment_def)

lemma canTransition_target: "canTransition a b \<Longrightarrow> a = PaymentStatusPending \<and> b \<noteq> PaymentStatusPending"
  by (auto simp: canTransition_def)

lemma new_payment_simps [simp]:
  "p_ID (new_payment cx req key) = cx_uuid cx 0"
  "p_AmountCents (new_payment cx req key) = cr_AmountCents req"
  "p_Currency (new_payment cx req key) = cr_Currency req"
  "p_Status (new_payment cx req key) = PaymentStatusPending"
  "p_Description (new_payment cx req key) = cr_Description req"
  "p_ExternalReference (new_payment cx req key) = cr_ExternalReference req"
  "p_IdempotencyKey (new_payment cx req key) = key"
  "key \<noteq> [] \<Longrightarrow> p_IdempotencyHash (new_payment cx req key) = createPaymentRequestHash cx req"
  by (simp_all add: new_payment_def)

lemma request_parts_inj: "request_parts a = request_parts b \<Longrightarrow> a = b"
  by (auto simp: request_parts_def dest: format_int_inj)

text \<open>
  The request hash separates requests: on parts without the separator byte and as long as the
  digest does not collide on the two preimages.
\<close>

lemma createPaymentRequestHash_inj:
  assumes eq: "createPaymentRequestHash L a = createPaymentRequestHash L b"
    and no_collision: "sha256 L (str_join [CHR 0x00] (request_parts a))
        = sha256 L (str_join [CHR 0x00] (request_parts b)) \<Longrightarrow>
      str_join [CHR 0x00] (request_parts a) = str_join [CHR 0x00] (request_parts b)"
    and nul: "CHR 0x00 \<notin> set (cr_Currency a)" "CHR 0x00 \<notin> set (cr_Description a)"
      "CHR 0x00 \<notin> set (cr_Currency b)" "CHR 0x00 \<notin> set (cr_Description b)"
  shows "a = b"
proof -
  from eq have "sha256 L (str_join [CHR 0x00] (request_parts a))
      = sha256 L (str_join [CHR 0x00] (request_parts b))"
    unfolding createPaymentRequestHash_def by (rule hex_encode_inj)
  then have "str_join [CHR 0x00] (request_parts a) = str_join [CHR 0x00] (request_parts b)"
    by (rule no_collision)
  then have "request_parts a = request_parts b"
    by (rule str_join_inj) (use nul format_int_no_nul in \<open>auto simp: request_parts_def\<close>)
  then show ?thesis by (rule request_parts_inj)
qed

section \<open>What the service needs of a repository\<close>

definition same_request :: "payment \<Rightarrow> payment \<Rightarrow> bool" where
  "same_request q p \<longleftrightarrow>
     p_AmountCents q = p_AmountCents p \<and> p_Status q = p_Status p
     \<and> p_Description q = p_Description p \<and> p_ExternalReference q = p_ExternalReference p
     \<and> p_IdempotencyKey q = p_IdempotencyKey p
     \<and> (p_IdempotencyKey p \<noteq> [] \<longrightarrow> p_IdempotencyHash q = p_IdempotencyHash p)"

definition added :: "payment \<Rightarrow> payment \<Rightarrow> payment list \<Rightarrow> payment list \<Rightarrow> bool" where
  "added p q xs ys \<longleftrightarrow>
     ys = xs @ [q] \<and> same_request q p \<and> p_ID q \<notin> p_ID ` set xs
     \<and> (p_IdempotencyKey p \<noteq> [] \<longrightarrow> p_IdempotencyKey p \<notin> p_IdempotencyKey ` set xs)"

definition moved :: "payment_status \<Rightarrow> payment_status \<Rightarrow> payment \<Rightarrow> payment list \<Rightarrow> payment list \<Rightarrow> bool" where
  "moved prev new q xs ys \<longleftrightarrow>
     (\<exists>as p bs. xs = as @ p # bs \<and> ys = as @ q # bs \<and> p_Status p = prev
        \<and> q = p\<lparr>p_Status := new, p_UpdatedAt := p_UpdatedAt q\<rparr>)"

locale payment_store =
  fixes R :: "('x ctx_scheme, 's) payment_repository"
    and stored :: "'s \<Rightarrow> payment list"
    and invar :: "'s \<Rightarrow> bool"
  assumes unique_ids: "invar s \<Longrightarrow> distinct (map p_ID (stored s))"
    and unique_keys: "\<lbrakk>invar s; q \<in> set (stored s); q' \<in> set (stored s);
          p_IdempotencyKey q = p_IdempotencyKey q'; p_IdempotencyKey q \<noteq> []\<rbrakk> \<Longrightarrow> q = q'"
    and create_new: "\<lbrakk>invar s; repo_Create R cx p s = (Inr (q, True), s')\<rbrakk>
          \<Longrightarrow> added p q (stored s) (stored s')"
    and create_replay: "\<lbrakk>invar s; repo_Create R cx p s = (Inr (q, False), s')\<rbrakk>
          \<Longrightarrow> s' = s \<and> q \<in> set (stored s) \<and> p_IdempotencyKey p \<noteq> []
            \<and> p_IdempotencyKey q = p_IdempotencyKey p \<and> p_IdempotencyHash q = p_IdempotencyHash p"
    and create_error: "\<lbrakk>invar s; repo_Create R cx p s = (Inl e, s')\<rbrakk>
          \<Longrightarrow> s' = s \<or> (\<exists>q. added p q (stored s) (stored s'))"
    and get: "\<lbrakk>invar s; repo_GetByID R cx pid s = Inr q\<rbrakk> \<Longrightarrow> q \<in> set (stored s)"
    and update_ok: "\<lbrakk>invar s; repo_UpdateStatus R cx pid prev new s = (Inr q, s')\<rbrakk>
          \<Longrightarrow> moved prev new q (stored s) (stored s')"
    and update_error: "\<lbrakk>invar s; repo_UpdateStatus R cx pid prev new s = (Inl e, s')\<rbrakk>
          \<Longrightarrow> s' = s \<or> (\<exists>q. moved prev new q (stored s) (stored s'))"
    and invar_create: "invar s \<Longrightarrow> invar (snd (repo_Create R cx p s))"
    and invar_update: "invar s \<Longrightarrow> invar (snd (repo_UpdateStatus R cx pid prev new s))"
begin

lemma create_cases:
  assumes "PaymentService_Create R cx request ikey s = (res, s')"
  obtains (rejected) e where "validateCreatePayment cx (normalize_create cx request) (trim_space ikey) = Some e"
      "res = Inl e" "s' = s"
    | (accepted) "validateCreatePayment cx (normalize_create cx request) (trim_space ikey) = None"
      "snd (repo_Create R cx (new_payment cx (normalize_create cx request) (trim_space ikey)) s) = s'"
      "\<And>q c. res = Inr (q, c) \<Longrightarrow>
         repo_Create R cx (new_payment cx (normalize_create cx request) (trim_space ikey)) s = (Inr (q, c), s')"
      "\<And>e. res = Inl e \<Longrightarrow>
         \<exists>e'. repo_Create R cx (new_payment cx (normalize_create cx request) (trim_space ikey)) s = (Inl e', s')"
  using assms
  by (cases "validateCreatePayment cx (normalize_create cx request) (trim_space ikey)")
    (auto simp: PaymentService_Create_def Let_def split: prod.splits sum.splits if_splits)

lemma create_invar:
  assumes "invar s" and "PaymentService_Create R cx request ikey s = (res, s')"
  shows "invar s'"
  using assms(2) by (cases rule: create_cases) (use assms(1) invar_create in auto)

text \<open>Any success is a new pending payment or the payment stored under the key.\<close>

lemma create_success:
  assumes inv: "invar s" and run: "PaymentService_Create R cx request ikey s = (Inr (q, c), s')"
  shows "(c \<and> added (new_payment cx (normalize_create cx request) (trim_space ikey)) q (stored s) (stored s'))
    \<or> (\<not> c \<and> s' = s \<and> q \<in> set (stored s) \<and> trim_space ikey \<noteq> []
        \<and> p_IdempotencyKey q = trim_space ikey
        \<and> p_IdempotencyHash q = createPaymentRequestHash cx (normalize_create cx request))"
  using run
proof (cases rule: create_cases)
  case accepted
  note repo = accepted(3) [OF refl]
  show ?thesis
  proof (cases c)
    case True
    with repo show ?thesis using create_new [OF inv] by simp
  next
    case False
    with repo create_replay [OF inv, of cx _ q s'] have
      "s' = s \<and> q \<in> set (stored s) \<and> trim_space ikey \<noteq> [] \<and> p_IdempotencyKey q = trim_space ikey
        \<and> p_IdempotencyHash q = p_IdempotencyHash
            (new_payment cx (normalize_create cx request) (trim_space ikey))"
      by fastforce
    with False show ?thesis by simp
  qed
qed simp

text \<open>Once a payment holds a key, every success under that key is that payment.\<close>

lemma create_keyed_once:
  assumes inv: "invar s" and held: "q \<in> set (stored s)" "p_IdempotencyKey q = trim_space ikey"
    and key: "trim_space ikey \<noteq> []"
    and run: "PaymentService_Create R cx request ikey s = (Inr (q', c), s')"
  shows "\<not> c \<and> q' = q \<and> s' = s"
  using create_success [OF inv run]
proof
  assume "c \<and> added (new_payment cx (normalize_create cx request) (trim_space ikey)) q' (stored s) (stored s')"
  with held key show ?thesis by (auto simp: added_def image_iff)
next
  assume "\<not> c \<and> s' = s \<and> q' \<in> set (stored s) \<and> trim_space ikey \<noteq> []
        \<and> p_IdempotencyKey q' = trim_space ikey
        \<and> p_IdempotencyHash q' = createPaymentRequestHash cx (normalize_create cx request)"
  with held key unique_keys [OF inv] show ?thesis by metis
qed

text \<open>A different request under the key never succeeds and changes nothing.\<close>

lemma create_conflict:
  assumes inv: "invar s" and held: "q \<in> set (stored s)" "p_IdempotencyKey q = trim_space ikey"
    and key: "trim_space ikey \<noteq> []"
    and other: "p_IdempotencyHash q \<noteq> createPaymentRequestHash cx (normalize_create cx request)"
    and run: "PaymentService_Create R cx request ikey s = (res, s')"
  shows "(\<exists>e. res = Inl e) \<and> s' = s"
proof (cases res)
  case (Inr qc)
  obtain q' c where qc: "qc = (q', c)" by (cases qc)
  from create_keyed_once [OF inv held key run [unfolded Inr qc]]
    create_success [OF inv run [unfolded Inr qc]] other
  show ?thesis by auto
next
  case (Inl e)
  from run show ?thesis
  proof (cases rule: create_cases)
    case accepted
    from accepted(4) [OF Inl] obtain e' where
      "repo_Create R cx (new_payment cx (normalize_create cx request) (trim_space ikey)) s = (Inl e', s')"
      by blast
    from create_error [OF inv this] held key Inl show ?thesis
      by (auto simp: added_def image_iff)
  qed (simp add: Inl)
qed

lemma update_write_effect:
  assumes inv: "invar s" and run: "update_write R cx pid prev new s = (res, s')"
  shows "(\<exists>q. res = Inr q \<and> moved prev new q (stored s) (stored s'))
    \<or> (\<exists>e. res = Inl e \<and> (s' = s \<or> (\<exists>q. moved prev new q (stored s) (stored s'))))"
proof -
  obtain r where r: "repo_UpdateStatus R cx pid prev new s = (r, s')"
    using run by (auto simp: update_write_def split: prod.splits sum.splits if_splits)
  show ?thesis
  proof (cases r)
    case (Inl e)
    with r run have "\<exists>e'. res = Inl e'" by (auto simp: update_write_def split: if_splits)
    with update_error [OF inv r [unfolded Inl]] show ?thesis by blast
  next
    case (Inr q)
    with r run have "res = Inr q" by (simp add: update_write_def)
    with update_ok [OF inv r [unfolded Inr]] show ?thesis by blast
  qed
qed

lemma update_write_invar: "invar s \<Longrightarrow> invar (snd (update_write R cx pid prev new s))"
  using invar_update [of s cx pid prev new]
  by (auto simp: update_write_def split: prod.splits sum.splits)

text \<open>What is written was decided from a legal transition of a payment read before.\<close>

lemma update_read_Write:
  assumes "invar s" and "update_read R cx ident request s = Write pid prev new"
  shows "canTransition prev new \<and> (\<exists>p \<in> set (stored s). p_Status p = prev)"
  using assms get
  by (auto simp: update_read_def Let_def split: if_splits sum.splits)

text \<open>
  The operation as a whole: every change it makes moves one payment from pending to a
  terminal status, whatever the other transactions did in between.
\<close>

lemma update_status_effect:
  assumes inv: "invar s" and others: "invar (others s)"
    and run: "PaymentService_UpdateStatus R cx cx' others ident request s = (res, s')"
  shows "s' = s \<or> s' = others s
    \<or> (\<exists>q new. new \<noteq> PaymentStatusPending
         \<and> moved PaymentStatusPending new q (stored (others s)) (stored s')
         \<and> (\<forall>q'. res = Inr q' \<longrightarrow> q' = q))"
proof (cases "update_read R cx ident request s")
  case (Finished r)
  with run show ?thesis by (simp add: PaymentService_UpdateStatus_def)
next
  case (Write pid prev new)
  from update_read_Write [OF inv Write] have t: "prev = PaymentStatusPending" "new \<noteq> PaymentStatusPending"
    by (auto dest: canTransition_target)
  from run Write have w: "update_write R cx' pid prev new (others s) = (res, s')"
    by (simp add: PaymentService_UpdateStatus_def)
  from update_write_effect [OF others w] show ?thesis
    using t by auto
qed

end

section \<open>PostgreSQL as the repository\<close>

definition stored_payments :: "pay_db \<Rightarrow> payment list" where
  "stored_payments db = map row_payment (payments db)"

text \<open>The part of the tables' invariant that the primary key and the unique key enforce.\<close>

definition store_inv :: "pay_db \<Rightarrow> bool" where
  "store_inv db \<longleftrightarrow> distinct (map pr_id (payments db)) \<and> distinct (idempotency_keys db)"

lemma pay_inv_store_inv: "pay_inv L db \<Longrightarrow> store_inv db"
  by (simp add: pay_inv_def store_inv_def)

lemma row_payment_key [simp]: "p_IdempotencyKey (row_payment r) = derefString (pr_idempotency_key r)"
  by (simp add: row_payment_def)

lemma derefString_nonempty: "derefString k = s \<Longrightarrow> s \<noteq> [] \<Longrightarrow> k = Some s"
  by (cases k) (auto simp: derefString_def)

lemma derefString_simps [simp]: "derefString (Some s) = s" "derefString None = []"
  by (simp_all add: derefString_def)

lemma distinct_keys_inj:
  assumes "distinct (filter (\<lambda>k. k \<noteq> None) (map f rows))" and "r \<in> set rows" "r' \<in> set rows"
    and "f r = f r'" and "f r \<noteq> None"
  shows "r = r'"
  using assms by (induction rows) (auto split: if_splits simp: image_iff)

lemma key_unique:
  assumes "store_inv db" and "r \<in> set (payments db)" "r' \<in> set (payments db)"
    and "derefString (pr_idempotency_key r) = derefString (pr_idempotency_key r')"
    and "derefString (pr_idempotency_key r) \<noteq> []"
  shows "r = r'"
proof (rule distinct_keys_inj)
  show "distinct (filter (\<lambda>k. k \<noteq> None) (map pr_idempotency_key (payments db)))"
    using assms(1) by (simp add: store_inv_def idempotency_keys_def)
  show "pr_idempotency_key r = pr_idempotency_key r'"
    using derefString_nonempty [OF refl] assms(4,5) by metis
  show "pr_idempotency_key r \<noteq> None" using derefString_nonempty [OF refl assms(5)] by (rule ssubst) simp
qed (use assms in auto)

lemma appends_added:
  "appends cx p r e db db' \<Longrightarrow> added p (row_payment r) (stored_payments db) (stored_payments db')"
proof -
  assume app: "appends cx p r e db db'"
  then have row: "payment_values cx p (key_of p) (hash_of p) = Inr r"
    and db': "stored_payments db' = stored_payments db @ [row_payment r]"
    and ids: "p_ID (row_payment r) \<notin> p_ID ` set (stored_payments db)"
    and keys: "pr_idempotency_key r \<noteq> None \<longrightarrow>
      pr_idempotency_key r \<notin> set (map pr_idempotency_key (payments db))"
    by (auto simp: appends_def stored_payments_def image_iff)
  note vals = payment_values_Inr [OF row]
  have same: "same_request (row_payment r) p"
    using vals by (cases "p_IdempotencyKey p = []") (auto simp: same_request_def row_payment_def)
  have "p_IdempotencyKey p \<noteq> p_IdempotencyKey q" if "p_IdempotencyKey p \<noteq> []" "q \<in> set (stored_payments db)" for q
  proof
    assume eq: "p_IdempotencyKey p = p_IdempotencyKey q"
    from that(2) obtain r' where r': "r' \<in> set (payments db)" "q = row_payment r'"
      by (auto simp: stored_payments_def)
    with that(1) eq have "pr_idempotency_key r' = Some (p_IdempotencyKey p)"
      by (auto intro: derefString_nonempty)
    with that(1) keys vals r'(1) show False by (metis image_eqI key_of_simps(3) list.set_map option.discI)
  qed
  with db' same ids show ?thesis by (auto simp: added_def)
qed

lemma appends_store_inv: "appends cx p r e db db' \<Longrightarrow> store_inv db \<Longrightarrow> store_inv db'"
  by (auto simp: appends_def store_inv_def idempotency_keys_def)

lemma sql_update_one:
  assumes "distinct (map pr_id rows)" and "r \<in> set rows" and "pr_status r = prev"
  obtains as bs where "rows = as @ r # bs"
    and "sql_update (\<lambda>r'. pr_id r' = pr_id r \<and> pr_status r' = prev) f rows = as @ f r # bs"
proof -
  from assms(2) obtain as bs where split: "rows = as @ r # bs" by (meson split_list)
  with assms(1) have "sql_update (\<lambda>r'. pr_id r' = pr_id r \<and> pr_status r' = prev) f as = as"
    "sql_update (\<lambda>r'. pr_id r' = pr_id r \<and> pr_status r' = prev) f bs = bs"
    by (auto intro!: sql_update_none simp: image_iff)
  with split assms(3) show ?thesis
    by (intro that [OF split]) (simp add: sql_update_def)
qed

lemma moves_moved:
  assumes mv: "moves cx pid prev new r e db db'" and inv: "store_inv db"
  shows "moved prev new (row_payment (r\<lparr>pr_status := new, pr_updated_at := cx_now cx\<rparr>))
    (stored_payments db) (stored_payments db')"
proof -
  from inv mv obtain as bs where "payments db = as @ r # bs"
    and "payments db' = as @ r\<lparr>pr_status := new, pr_updated_at := cx_now cx\<rparr> # bs"
    by (auto simp: moves_def store_inv_def
        elim!: sql_update_one [where f = "\<lambda>r. r\<lparr>pr_status := new, pr_updated_at := cx_now cx\<rparr>"])
  with mv show ?thesis
    unfolding moved_def stored_payments_def
    by (intro exI [of _ "map row_payment as"] exI [of _ "row_payment r"] exI [of _ "map row_payment bs"])
      (simp add: moves_def row_payment_def)
qed

lemma moves_store_inv: "moves cx pid prev new r e db db' \<Longrightarrow> store_inv db \<Longrightarrow> store_inv db'"
  by (auto simp: moves_def store_inv_def idempotency_keys_def map_sql_update)

interpretation pg: payment_store PostgresPaymentRepository stored_payments store_inv
proof unfold_locales
  fix s :: pay_db and cx :: "'x ctx_scheme"
  assume inv: "store_inv s"
  show "distinct (map p_ID (stored_payments s))"
    using inv by (simp add: store_inv_def stored_payments_def comp_def)
  show "q = q'" if "q \<in> set (stored_payments s)" "q' \<in> set (stored_payments s)"
    "p_IdempotencyKey q = p_IdempotencyKey q'" "p_IdempotencyKey q \<noteq> []" for q q'
    using that by (auto simp: stored_payments_def dest: key_unique [OF inv])
  show "added p q (stored_payments s) (stored_payments s')"
    if "repo_Create PostgresPaymentRepository cx p s = (Inr (q, True), s')" for p q s'
    using that by (auto dest!: Create_success simp: create_result_def intro: appends_added)
  show "s' = s \<and> q \<in> set (stored_payments s) \<and> p_IdempotencyKey p \<noteq> []
      \<and> p_IdempotencyKey q = p_IdempotencyKey p \<and> p_IdempotencyHash q = p_IdempotencyHash p"
    if "repo_Create PostgresPaymentRepository cx p s = (Inr (q, False), s')" for p q s'
    using that by (auto dest!: Create_success sql_find_Some simp: create_result_def stored_payments_def)
  show "s' = s \<or> (\<exists>q. added p q (stored_payments s) (stored_payments s'))"
    if "repo_Create PostgresPaymentRepository cx p s = (Inl e, s')" for p e s'
    using that by (auto dest!: Create_effect intro: appends_added)
  show "q \<in> set (stored_payments s)" if "repo_GetByID PostgresPaymentRepository cx pid s = Inr q" for pid q
    using that by (auto simp: stored_payments_def elim: GetByID_Inr)
  show "moved prev new q (stored_payments s) (stored_payments s')"
    if "repo_UpdateStatus PostgresPaymentRepository cx pid prev new s = (Inr q, s')" for pid prev new q s'
    using that by (auto elim!: UpdateStatus_success intro: moves_moved [OF _ inv])
  show "s' = s \<or> (\<exists>q. moved prev new q (stored_payments s) (stored_payments s'))"
    if "repo_UpdateStatus PostgresPaymentRepository cx pid prev new s = (Inl e, s')" for pid prev new e s'
    using that by (auto dest!: UpdateStatus_effect intro: moves_moved [OF _ inv])
  show "store_inv (snd (repo_Create PostgresPaymentRepository cx p s))" for p
    using Create_effect [of cx p s] inv
    by (cases "Create cx p s") (auto dest: appends_store_inv)
  show "store_inv (snd (repo_UpdateStatus PostgresPaymentRepository cx pid prev new s))" for pid prev new
    using UpdateStatus_effect [of cx pid prev new s] inv
    by (cases "UpdateStatus cx pid prev new s") (auto dest: moves_store_inv)
qed

end
