(* ===== verification/Kafka.thy ===== *)
theory Kafka
  imports Go_Runtime
begin

text \<open>
  Kafka as the services see it: messages with headers, a topic as the sequence of the messages
  it has accepted, a write that is accepted, refused, or accepted without the client learning
  it, and the labels of the Prometheus counters that publishing and consuming increment.
\<close>

type_synonym header = "string \<times> string"

record kafka_message =
  km_Topic :: string
  km_Partition :: i64
  km_Offset :: i64
  km_HighWaterMark :: i64
  km_Key :: string
  km_Value :: string
  km_Headers :: "header list"

text \<open>What the \<open>Hash\<close> balancer and the broker fill in is 0 until the message is fetched.\<close>

definition outgoing :: "string \<Rightarrow> string \<Rightarrow> string \<Rightarrow> header list \<Rightarrow> kafka_message" where
  "outgoing topic key v headers =
     \<lparr>km_Topic = topic, km_Partition = 0, km_Offset = 0, km_HighWaterMark = 0,
      km_Key = key, km_Value = v, km_Headers = headers\<rparr>"

lemma outgoing_simps [simp]:
  "km_Topic (outgoing t k v hs) = t" "km_Key (outgoing t k v hs) = k"
  "km_Value (outgoing t k v hs) = v" "km_Headers (outgoing t k v hs) = hs"
  by (simp_all add: outgoing_def)

text \<open>\<open>headerValue\<close> of the consumer: the first header with the key.\<close>

fun headerValue :: "header list \<Rightarrow> string \<Rightarrow> string" where
  "headerValue [] key = []"
| "headerValue ((k, v) # headers) key = (if k = key then v else headerValue headers key)"

lemma headerValue_append:
  "headerValue (hs @ hs') key = (if key \<in> set (map fst hs) then headerValue hs key else headerValue hs' key)"
  by (induction hs) (force split: prod.splits)+

datatype write_outcome = WriteOk | WriteLost fault | WriteUnknown fault

definition write_message ::
  "write_outcome \<Rightarrow> kafka_message \<Rightarrow> kafka_message list \<Rightarrow> err option \<times> kafka_message list"
where
  "write_message w m log =
     (case w of
        WriteOk \<Rightarrow> (None, log @ [m])
      | WriteLost f \<Rightarrow> (Some (fault_err f), log)
      | WriteUnknown f \<Rightarrow> (Some (fault_err f), log @ [m]))"

lemma write_message_log: "set log \<subseteq> set (snd (write_message w m log))"
  by (auto simp: write_message_def split: write_outcome.splits)

lemma write_message_None:
  "fst (write_message w m log) = None \<Longrightarrow> snd (write_message w m log) = log @ [m]"
  by (auto simp: write_message_def split: write_outcome.splits)

text \<open>One increment of a counter, with its labels (\<open>observability/metrics.go\<close>).\<close>

datatype metric =
    OutboxClaimed nat
  | KafkaPublished string string
  | KafkaConsumed string string
  | KafkaLag string i64 i64
  | KafkaRetry string
  | DeadLetter string string

definition event_label :: "string \<Rightarrow> string" where
  "event_label eventType = (if eventType = [] then ''unknown'' else eventType)"

definition result_label :: "err option \<Rightarrow> string" where
  "result_label e = (case e of None \<Rightarrow> ''success'' | Some _ \<Rightarrow> ''error'')"

definition AddOutboxClaimed :: "nat \<Rightarrow> metric list" where
  "AddOutboxClaimed n = [OutboxClaimed n]"

definition RecordKafkaPublish :: "string \<Rightarrow> err option \<Rightarrow> metric list" where
  "RecordKafkaPublish eventType e = [KafkaPublished eventType (result_label e)]"

definition RecordKafkaRetry :: "string \<Rightarrow> metric list" where
  "RecordKafkaRetry eventType = [KafkaRetry (event_label eventType)]"

definition RecordDeadLetter :: "string \<Rightarrow> err option \<Rightarrow> metric list" where
  "RecordDeadLetter eventType e = [DeadLetter (event_label eventType) (result_label e)]"

text \<open>A negative lag is recorded as 0.\<close>

definition RecordKafkaConsume :: "string \<Rightarrow> string \<Rightarrow> i64 \<Rightarrow> i64 \<Rightarrow> err option \<Rightarrow> metric list" where
  "RecordKafkaConsume eventType topic part lag e =
     [KafkaConsumed (event_label eventType) (result_label e),
      KafkaLag topic part (if sint lag < 0 then 0 else lag)]"

end
