(* ===== verification/Outbox_Publisher.thy ===== *)
theory Outbox_Publisher
  imports Payment_Repo Kafka
begin

text \<open>
  \<open>repository/outbox_repository.go\<close> and \<open>publisher/outbox_publisher.go\<close>: claiming pending
  rows, marking them, and one batch of the publisher over the \<open>OutboxRepository\<close> interface.
  The locale \<open>outbox_store\<close> holds what the publisher relies on.
\<close>

section \<open>The repository\<close>

definition claimable :: "outbox_row \<Rightarrow> bool" where
  "claimable e \<longleftrightarrow> ob_status e \<in> set [OutboxStatusPending, OutboxStatusFailed]"

definition claim_row :: "outbox_row \<Rightarrow> outbox_row" where
  "claim_row e = e\<lparr>ob_status := OutboxStatusPublishing, ob_attempts := ob_attempts e + 1,
                   ob_last_error := None\<rparr>"

definition row_event :: "outbox_row \<Rightarrow> outbox_event" where
  "row_event e =
     \<lparr>oe_ID = ob_id e, oe_AggregateType = ob_aggregate_type e, oe_AggregateID = ob_aggregate_id e,
      oe_EventType = ob_event_type e, oe_Payload = ob_payload e,
      oe_TraceParent = derefString (ob_trace_parent e),
      oe_TraceState = derefString (ob_trace_state e),
      oe_Status = ob_status e, oe_Attempts = ob_attempts e,
      oe_LastError = derefString (ob_last_error e),
      oe_CreatedAt = ob_created_at e, oe_PublishedAt = ob_published_at e\<rparr>"

text \<open>The rows of the common table expression: unlocked, oldest first, at most \<open>limit\<close>.\<close>

definition claimed_rows :: "'x ctx_scheme \<Rightarrow> int \<Rightarrow> pay_db \<Rightarrow> outbox_row list" where
  "claimed_rows cx limit db =
     take (nat limit)
       (filter (\<lambda>e. \<not> cx_locked cx (ob_id e))
         (sort_key ob_created_at (filter claimable (outbox db))))"

definition claim_update :: "outbox_row list \<Rightarrow> pay_db \<Rightarrow> pay_db" where
  "claim_update claimed db =
     db\<lparr>outbox := sql_update (\<lambda>e. ob_id e \<in> set (map ob_id claimed)) claim_row (outbox db)\<rparr>"

text \<open>The transaction's body: the query, scanning its rows, \<open>rows.Err\<close>.\<close>

definition claim_body ::
  "'x ctx_scheme \<Rightarrow> int \<Rightarrow> pay_db \<Rightarrow> (err + outbox_event list) \<times> pay_db"
where
  "claim_body cx limit db =
     (let claimed = claimed_rows cx limit db
      in case cx_stmt cx 0 of
           Some f \<Rightarrow> (Inl (wrap ''claim outbox events'' (fault_err f)), db)
         | None \<Rightarrow>
             (case (if claimed = [] then None else cx_stmt cx 1) of
                Some f \<Rightarrow> (Inl (wrap ''scan outbox event'' (fault_err f)), db)
              | None \<Rightarrow>
                  (case cx_stmt cx 2 of
                     Some f \<Rightarrow> (Inl (wrap ''iterate outbox events'' (fault_err f)), db)
                   | None \<Rightarrow>
                       (Inr (map (\<lambda>e. row_event (claim_row e))
                               (reorder (cx_returning cx (length claimed)) claimed)),
                        claim_update claimed db))))"

definition ClaimPending ::
  "'x ctx_scheme \<Rightarrow> int \<Rightarrow> pay_db \<Rightarrow> (err + outbox_event list) \<times> pay_db"
where
  "ClaimPending cx limit0 db =
     (let limit = (if limit0 \<le> 0 then 25 else limit0)
      in in_tx cx ''begin claim outbox events transaction''
           (\<lambda>_. ''commit claim outbox events transaction'') (claim_body cx limit) db)"

text \<open>One \<open>UPDATE\<close> outside an explicit transaction.\<close>

definition exec_update ::
  "'x ctx_scheme \<Rightarrow> string \<Rightarrow> string \<Rightarrow> string list \<Rightarrow> (string \<Rightarrow> pay_db \<Rightarrow> pay_db) \<Rightarrow> pay_db \<Rightarrow> (err + unit) \<times> pay_db"
where
  "exec_update cx msg ident texts write db =
     (case stmt cx 0 (case pg_uuid cx ident of
                        None \<Rightarrow> Inl (ErrText ''cannot encode id as uuid'')
                      | Some u \<Rightarrow>
                          if list_all pg_text_ok texts then Inr u
                          else Inl (ErrText ''invalid byte sequence for encoding UTF8'')) of
        Inl e \<Rightarrow> (Inl (wrap msg e), db)
      | Inr u \<Rightarrow>
          (case cx_commit cx of
             CommitOk \<Rightarrow> (Inr (), write u db)
           | CommitLost f \<Rightarrow> (Inl (wrap msg (fault_err f)), db)
           | CommitUnknown f \<Rightarrow> (Inl (wrap msg (fault_err f)), write u db)))"

definition set_published :: "int \<Rightarrow> string \<Rightarrow> pay_db \<Rightarrow> pay_db" where
  "set_published at u db =
     db\<lparr>outbox := sql_update (\<lambda>e. ob_id e = u)
          (\<lambda>e. e\<lparr>ob_status := OutboxStatusPublished, ob_published_at := Some at,
                 ob_last_error := None\<rparr>) (outbox db)\<rparr>"

definition set_failed :: "string \<Rightarrow> string \<Rightarrow> pay_db \<Rightarrow> pay_db" where
  "set_failed reason u db =
     db\<lparr>outbox := sql_update (\<lambda>e. ob_id e = u)
          (\<lambda>e. e\<lparr>ob_status := OutboxStatusFailed, ob_last_error := Some reason\<rparr>) (outbox db)\<rparr>"

definition MarkPublished :: "'x ctx_scheme \<Rightarrow> string \<Rightarrow> int \<Rightarrow> pay_db \<Rightarrow> (err + unit) \<times> pay_db" where
  "MarkPublished cx ident publishedAt db =
     exec_update cx ''mark outbox event published'' ident [] (set_published publishedAt) db"

definition MarkFailed :: "'x ctx_scheme \<Rightarrow> string \<Rightarrow> string \<Rightarrow> pay_db \<Rightarrow> (err + unit) \<times> pay_db" where
  "MarkFailed cx ident reason db =
     exec_update cx ''mark outbox event failed'' ident [reason] (set_failed reason) db"

section \<open>The publisher\<close>

record ('c, 's) outbox_repository =
  store_ClaimPending :: "'c \<Rightarrow> int \<Rightarrow> 's \<Rightarrow> (err + outbox_event list) \<times> 's"
  store_MarkPublished :: "'c \<Rightarrow> string \<Rightarrow> int \<Rightarrow> 's \<Rightarrow> (err + unit) \<times> 's"
  store_MarkFailed :: "'c \<Rightarrow> string \<Rightarrow> string \<Rightarrow> 's \<Rightarrow> (err + unit) \<times> 's"

definition PostgresOutboxRepository :: "('x ctx_scheme, pay_db) outbox_repository" where
  "PostgresOutboxRepository =
     \<lparr>store_ClaimPending = ClaimPending, store_MarkPublished = MarkPublished,
      store_MarkFailed = MarkFailed\<rparr>"

lemma PostgresOutboxRepository_simps [simp]:
  "store_ClaimPending PostgresOutboxRepository = ClaimPending"
  "store_MarkPublished PostgresOutboxRepository = MarkPublished"
  "store_MarkFailed PostgresOutboxRepository = MarkFailed"
  by (simp_all add: PostgresOutboxRepository_def)

text \<open>
  What happens around one event of a batch: the fate of the Kafka write, the trace headers
  the propagator injects, the time, and the environment of the marking call.
\<close>

record 'c publish_env =
  pe_write :: "kafka_message \<Rightarrow> write_outcome"
  pe_carrier :: "header list"
  pe_now :: int
  pe_mark :: 'c

record 's publisher_state =
  pub_store :: 's
  pub_log :: "kafka_message list"
  pub_metrics :: "metric list"

definition event_message :: "string \<Rightarrow> header list \<Rightarrow> outbox_event \<Rightarrow> kafka_message" where
  "event_message topic carrier e =
     outgoing topic (oe_AggregateID e) (oe_Payload e)
       ([(''event_id'', oe_ID e), (''event_type'', oe_EventType e),
         (''aggregate_type'', oe_AggregateType e)] @ carrier)"

definition publishOne ::
  "string \<Rightarrow> 'c publish_env \<Rightarrow> outbox_event \<Rightarrow> 's publisher_state \<Rightarrow> err option \<times> 's publisher_state"
where
  "publishOne topic env e st =
     (let m = event_message topic (pe_carrier env) e
      in case write_message (pe_write env m) m (pub_log st) of
        (er, log) \<Rightarrow>
          (er, st\<lparr>pub_log := log,
                  pub_metrics := pub_metrics st @ RecordKafkaPublish (oe_EventType e) er\<rparr>))"

text \<open>The body of the loop over the claimed events; a failed marking is only logged.\<close>

definition publish_step ::
  "('c, 's) outbox_repository \<Rightarrow> string \<Rightarrow> 'c publish_env \<Rightarrow> outbox_event
     \<Rightarrow> 's publisher_state \<Rightarrow> 's publisher_state"
where
  "publish_step S topic env e st =
     (case publishOne topic env e st of
        (Some er, st1) \<Rightarrow>
          st1\<lparr>pub_store := snd (store_MarkFailed S (pe_mark env) (oe_ID e) (err_text er) (pub_store st1))\<rparr>
      | (None, st1) \<Rightarrow>
          st1\<lparr>pub_store := snd (store_MarkPublished S (pe_mark env) (oe_ID e) (pe_now env) (pub_store st1))\<rparr>)"

fun publish_events ::
  "('c, 's) outbox_repository \<Rightarrow> string \<Rightarrow> (nat \<Rightarrow> 'c publish_env) \<Rightarrow> nat \<Rightarrow> outbox_event list
     \<Rightarrow> 's publisher_state \<Rightarrow> 's publisher_state"
where
  "publish_events S topic env k [] st = st"
| "publish_events S topic env k (e # es) st =
     publish_events S topic env (Suc k) es (publish_step S topic (env k) e st)"

definition PublishBatch ::
  "('c, 's) outbox_repository \<Rightarrow> string \<Rightarrow> 'c \<Rightarrow> (nat \<Rightarrow> 'c publish_env) \<Rightarrow> int
     \<Rightarrow> 's publisher_state \<Rightarrow> err option \<times> 's publisher_state"
where
  "PublishBatch S topic cx env batchSize st =
     (case store_ClaimPending S cx batchSize (pub_store st) of
        (Inl e, s) \<Rightarrow> (Some e, st\<lparr>pub_store := s\<rparr>)
      | (Inr events, s) \<Rightarrow>
          (None, publish_events S topic env 0 events
             (st\<lparr>pub_store := s,
                 pub_metrics := pub_metrics st @ AddOutboxClaimed (length events)\<rparr>)))"

text \<open>
  \<open>Run\<close> publishes a batch per tick until its context is done: the ticks are the list of
  batch environments, and a failed batch does not stop it.
\<close>

fun Run ::
  "('c, 's) outbox_repository \<Rightarrow> string \<Rightarrow> int \<Rightarrow> ('c \<times> (nat \<Rightarrow> 'c publish_env)) list
     \<Rightarrow> 's publisher_state \<Rightarrow> 's publisher_state"
where
  "Run S topic batchSize [] st = st"
| "Run S topic batchSize ((cx, env) # ticks) st =
     Run S topic batchSize ticks (snd (PublishBatch S topic cx env batchSize st))"

section \<open>What the publisher needs of the store\<close>

definition claim_event :: "outbox_event \<Rightarrow> outbox_event" where
  "claim_event e = e\<lparr>oe_Status := OutboxStatusPublishing, oe_Attempts := oe_Attempts e + 1,
                     oe_LastError := []\<rparr>"

definition published_event :: "int \<Rightarrow> outbox_event \<Rightarrow> outbox_event" where
  "published_event at e = e\<lparr>oe_Status := OutboxStatusPublished, oe_PublishedAt := Some at,
                            oe_LastError := []\<rparr>"

definition failed_event :: "string \<Rightarrow> outbox_event \<Rightarrow> outbox_event" where
  "failed_event reason e = e\<lparr>oe_Status := OutboxStatusFailed, oe_LastError := reason\<rparr>"

lemmas event_update_defs = claim_event_def published_event_def failed_event_def

text \<open>What a message of an event carries; marking an event does not change it.\<close>

definition content :: "outbox_event \<Rightarrow> string \<times> string \<times> string \<times> string \<times> string" where
  "content e = (oe_ID e, oe_AggregateType e, oe_AggregateID e, oe_EventType e, oe_Payload e)"

lemma content_simps [simp]:
  "content (claim_event e) = content e" "content (published_event at e) = content e"
  "content (failed_event reason e) = content e"
  by (simp_all add: content_def event_update_defs)

lemma oe_ID_simps [simp]:
  "oe_ID (claim_event e) = oe_ID e" "oe_ID (published_event at e) = oe_ID e"
  "oe_ID (failed_event reason e) = oe_ID e"
  by (simp_all add: event_update_defs)

lemma oe_Status_simps [simp]:
  "oe_Status (claim_event e) = OutboxStatusPublishing"
  "oe_Status (published_event at e) = OutboxStatusPublished"
  "oe_Status (failed_event reason e) = OutboxStatusFailed"
  by (simp_all add: event_update_defs)

lemma ids_of_content: "map content xs = map content ys \<Longrightarrow> map oe_ID xs = map oe_ID ys"
proof -
  assume "map content xs = map content ys"
  then have "map fst (map content xs) = map fst (map content ys)" by (rule arg_cong)
  then show ?thesis by (simp add: content_def comp_def)
qed

definition carries :: "string \<Rightarrow> outbox_event \<Rightarrow> kafka_message \<Rightarrow> bool" where
  "carries topic e m \<longleftrightarrow> km_Topic m = topic \<and> km_Key m = oe_AggregateID e \<and> km_Value m = oe_Payload e
     \<and> headerValue (km_Headers m) ''event_id'' = oe_ID e
     \<and> headerValue (km_Headers m) ''event_type'' = oe_EventType e
     \<and> headerValue (km_Headers m) ''aggregate_type'' = oe_AggregateType e"

lemma carries_event_message [simp]: "carries topic e (event_message topic carrier e)"
  by (simp add: carries_def event_message_def)

lemma carries_content: "content e = content e' \<Longrightarrow> carries topic e m = carries topic e' m"
  by (simp add: carries_def content_def)

text \<open>Every event marked published has a message in the topic.\<close>

definition published_in :: "string \<Rightarrow> outbox_event list \<Rightarrow> kafka_message list \<Rightarrow> bool" where
  "published_in topic es log \<longleftrightarrow>
     (\<forall>e \<in> set es. oe_Status e = OutboxStatusPublished \<longrightarrow> (\<exists>m \<in> set log. carries topic e m))"

definition event_claimable :: "outbox_event \<Rightarrow> bool" where
  "event_claimable e \<longleftrightarrow> oe_Status e \<in> {OutboxStatusPending, OutboxStatusFailed}"

lemma published_in_mono: "published_in topic es log \<Longrightarrow> set log \<subseteq> set log' \<Longrightarrow> published_in topic es log'"
  by (force simp: published_in_def)

lemma published_in_update:
  assumes "published_in topic es log"
    and "\<And>e. e \<in> set es \<Longrightarrow> P e \<Longrightarrow> oe_Status (f e) = OutboxStatusPublished \<Longrightarrow> \<exists>m \<in> set log. carries topic (f e) m"
  shows "published_in topic (sql_update P f es) log"
  using assms by (auto simp: published_in_def set_sql_update)

abbreviation env_message :: "string \<Rightarrow> 'c publish_env \<Rightarrow> outbox_event \<Rightarrow> kafka_message" where
  "env_message topic env e \<equiv> event_message topic (pe_carrier env) e"

abbreviation env_write :: "string \<Rightarrow> 'c publish_env \<Rightarrow> outbox_event \<Rightarrow> kafka_message list \<Rightarrow> err option \<times> kafka_message list"
where
  "env_write topic env e log \<equiv> write_message (pe_write env (env_message topic env e)) (env_message topic env e) log"

lemma publish_step_log [simp]:
  "pub_log (publish_step S topic env e st) = snd (env_write topic env e (pub_log st))"
  by (auto simp: publish_step_def publishOne_def Let_def split: prod.splits option.splits)

lemma publish_step_store:
  "pub_store (publish_step S topic env e st) =
     (case fst (env_write topic env e (pub_log st)) of
        None \<Rightarrow> snd (store_MarkPublished S (pe_mark env) (oe_ID e) (pe_now env) (pub_store st))
      | Some er \<Rightarrow> snd (store_MarkFailed S (pe_mark env) (oe_ID e) (err_text er) (pub_store st)))"
  by (auto simp: publish_step_def publishOne_def Let_def split: prod.splits option.splits)

text \<open>
  \<open>view\<close> reads the store's events; \<open>knows cx i\<close> says that the server reads \<open>i\<close> as
  the identifier it is.
\<close>

locale outbox_store =
  fixes S :: "('c, 's) outbox_repository"
    and view :: "'s \<Rightarrow> outbox_event list"
    and knows :: "'c \<Rightarrow> string \<Rightarrow> bool"
  assumes claim_ok: "\<lbrakk>distinct (map oe_ID (view s)); store_ClaimPending S cx n s = (Inr es, s')\<rbrakk>
      \<Longrightarrow> distinct (map oe_ID es)
        \<and> (\<forall>e \<in> set es. \<exists>e0 \<in> set (view s). event_claimable e0 \<and> e = claim_event e0)
        \<and> view s' = sql_update (\<lambda>e. oe_ID e \<in> oe_ID ` set es) claim_event (view s)"
    and claim_error: "\<lbrakk>distinct (map oe_ID (view s)); store_ClaimPending S cx n s = (Inl er, s')\<rbrakk>
      \<Longrightarrow> \<exists>I. (\<forall>e \<in> set (view s). oe_ID e \<in> I \<longrightarrow> event_claimable e)
            \<and> view s' = sql_update (\<lambda>e. oe_ID e \<in> I) claim_event (view s)"
    and mark_published: "\<lbrakk>knows cx i; store_MarkPublished S cx i at s = (res, s')\<rbrakk>
      \<Longrightarrow> (res \<noteq> Inr () \<and> view s' = view s)
        \<or> view s' = sql_update (\<lambda>e. oe_ID e = i) (published_event at) (view s)"
    and mark_failed: "\<lbrakk>knows cx i; store_MarkFailed S cx i reason s = (res, s')\<rbrakk>
      \<Longrightarrow> (res \<noteq> Inr () \<and> view s' = view s)
        \<or> view s' = sql_update (\<lambda>e. oe_ID e = i) (failed_event reason) (view s)"
begin

lemma claim_view:
  assumes "distinct (map oe_ID (view s))" and "store_ClaimPending S cx n s = (res, s')"
  obtains I where "\<forall>e \<in> set (view s). oe_ID e \<in> I \<longrightarrow> event_claimable e"
    and "view s' = sql_update (\<lambda>e. oe_ID e \<in> I) claim_event (view s)"
    and "\<And>es. res = Inr es \<Longrightarrow> I = oe_ID ` set es"
proof (cases res)
  case (Inl er)
  from claim_error [OF assms(1) assms(2) [unfolded Inl]] that Inl show ?thesis by blast
next
  case (Inr es)
  note ok = claim_ok [OF assms(1) assms(2) [unfolded Inr]]
  have "event_claimable e" if e: "e \<in> set (view s)" "oe_ID e \<in> oe_ID ` set es" for e
  proof -
    from e(2) obtain x where "x \<in> set es" "oe_ID x = oe_ID e" by auto
    with ok obtain e0 where "e0 \<in> set (view s)" "event_claimable e0" "oe_ID e0 = oe_ID e" by fastforce
    with e(1) assms(1) show ?thesis by (auto simp: distinct_map inj_on_def)
  qed
  with ok Inr show ?thesis by (intro that [of "oe_ID ` set es"]) auto
qed

text \<open>One step: contents stay, and nothing is marked published without its message.\<close>

lemma publish_step_view:
  assumes "knows (pe_mark env) (oe_ID e)"
  obtains (unmarked) "view (pub_store (publish_step S topic env e st)) = view (pub_store st)"
  | (published) "fst (env_write topic env e (pub_log st)) = None"
      "view (pub_store (publish_step S topic env e st))
        = sql_update (\<lambda>x. oe_ID x = oe_ID e) (published_event (pe_now env)) (view (pub_store st))"
  | (failed) reason where "view (pub_store (publish_step S topic env e st))
        = sql_update (\<lambda>x. oe_ID x = oe_ID e) (failed_event reason) (view (pub_store st))"
  using mark_published [OF assms surjective_pairing, of "pe_now env" "pub_store st"]
    mark_failed [OF assms surjective_pairing, of "err_text er" "pub_store st" for er]
  by (cases "fst (env_write topic env e (pub_log st))") (auto simp: publish_step_store)

lemma publish_step_content:
  assumes "knows (pe_mark env) (oe_ID e)"
  shows "map content (view (pub_store (publish_step S topic env e st))) = map content (view (pub_store st))"
  using assms by (cases rule: publish_step_view [of env e topic st]) (auto simp: map_sql_update)

lemma publish_step_published:
  assumes ids: "distinct (map oe_ID (view (pub_store st)))"
    and known: "knows (pe_mark env) (oe_ID e)"
    and here: "content e \<in> content ` set (view (pub_store st))"
    and pub: "published_in topic (view (pub_store st)) (pub_log st)"
  shows "published_in topic (view (pub_store (publish_step S topic env e st)))
           (pub_log (publish_step S topic env e st))"
proof -
  have old: "published_in topic (view (pub_store st)) (pub_log (publish_step S topic env e st))"
    using pub write_message_log by (simp add: published_in_mono)
  show ?thesis
    using known
  proof (cases rule: publish_step_view [of env e topic st])
    case published
    have "carries topic (published_event at x) (env_message topic env e)"
      if x: "x \<in> set (view (pub_store st))" "oe_ID x = oe_ID e" for x at
    proof -
      from here obtain x0 where x0: "x0 \<in> set (view (pub_store st))" "content x0 = content e" by auto
      then have "oe_ID x0 = oe_ID x" using x by (simp add: content_def)
      with x0 x ids have "x0 = x" by (auto simp: distinct_map inj_on_def)
      with x0 show ?thesis using carries_content [of "published_event at x" e] by simp
    qed
    with old published write_message_None [OF published(1)] show ?thesis
      by (auto intro!: published_in_update)
  qed (use old in \<open>auto intro!: published_in_update\<close>)
qed

lemma publish_events_inv:
  assumes "distinct (map oe_ID (view (pub_store st)))"
    and "\<forall>i. \<forall>e \<in> set es. knows (pe_mark (env i)) (oe_ID e)"
    and "content ` set es \<subseteq> content ` set (view (pub_store st))"
    and "published_in topic (view (pub_store st)) (pub_log st)"
  shows "map content (view (pub_store (publish_events S topic env k es st))) = map content (view (pub_store st))
    \<and> published_in topic (view (pub_store (publish_events S topic env k es st)))
         (pub_log (publish_events S topic env k es st))"
  using assms
proof (induction es arbitrary: k st)
  case (Cons e es)
  let ?st = "publish_step S topic (env k) e st"
  from Cons.prems have known: "knows (pe_mark (env k)) (oe_ID e)" by simp
  note c = publish_step_content [OF known, of topic st]
  have "distinct (map oe_ID (view (pub_store ?st)))" using Cons.prems(1) ids_of_content [OF c] by simp
  moreover have "content ` set es \<subseteq> content ` set (view (pub_store ?st))"
    using Cons.prems(3) c by (metis dual_order.trans image_mono list.set_map set_subset_Cons)
  moreover have "published_in topic (view (pub_store ?st)) (pub_log ?st)"
    by (rule publish_step_published) (use Cons.prems known in auto)
  ultimately show ?case using Cons.IH [of ?st "Suc k"] Cons.prems(2) c by simp
qed simp

lemma publish_batch_inv:
  assumes ids: "distinct (map oe_ID (view (pub_store st)))"
    and known: "\<forall>i. \<forall>x \<in> set (view (pub_store st)). knows (pe_mark (env i)) (oe_ID x)"
    and pub: "published_in topic (view (pub_store st)) (pub_log st)"
    and run: "PublishBatch S topic cx env n st = (res, st')"
  shows "map content (view (pub_store st')) = map content (view (pub_store st))
    \<and> published_in topic (view (pub_store st')) (pub_log st')"
proof -
  obtain r s where claim: "store_ClaimPending S cx n (pub_store st) = (r, s)" by force
  from ids claim obtain I where v: "view s = sql_update (\<lambda>e. oe_ID e \<in> I) claim_event (view (pub_store st))"
    by (rule claim_view)
  have c: "map content (view s) = map content (view (pub_store st))" by (simp add: v map_sql_update)
  have p: "published_in topic (view s) (pub_log st)" unfolding v by (rule published_in_update [OF pub]) simp
  show ?thesis
  proof (cases r)
    case (Inl e)
    with run claim c p show ?thesis by (auto simp: PublishBatch_def)
  next
    case (Inr es)
    note ok = claim_ok [OF ids claim [unfolded Inr]]
    have "content ` set es \<subseteq> content ` set (view (pub_store st))"
      using ok by fastforce
    moreover have "\<forall>i. \<forall>e \<in> set es. knows (pe_mark (env i)) (oe_ID e)"
      using ok known by fastforce
    ultimately show ?thesis
      using run claim Inr c p ids ids_of_content [OF c]
        publish_events_inv [of "st\<lparr>pub_store := s, pub_metrics := pub_metrics st @ AddOutboxClaimed (length es)\<rparr>" es env topic 0]
      by (auto simp: PublishBatch_def) (metis list.set_map)+
  qed
qed

lemma run_inv:
  assumes "distinct (map oe_ID (view (pub_store st)))"
    and "\<forall>(cx, env) \<in> set ticks. \<forall>i. \<forall>x \<in> set (view (pub_store st)). knows (pe_mark (env i)) (oe_ID x)"
    and "published_in topic (view (pub_store st)) (pub_log st)"
  shows "map content (view (pub_store (Run S topic n ticks st))) = map content (view (pub_store st))
    \<and> published_in topic (view (pub_store (Run S topic n ticks st))) (pub_log (Run S topic n ticks st))"
  using assms
proof (induction ticks arbitrary: st)
  case (Cons t ticks)
  obtain cx env where t: "t = (cx, env)" by force
  let ?st = "snd (PublishBatch S topic cx env n st)"
  have step: "map content (view (pub_store ?st)) = map content (view (pub_store st))
    \<and> published_in topic (view (pub_store ?st)) (pub_log ?st)"
    by (rule publish_batch_inv [OF Cons.prems(1) _ Cons.prems(3) surjective_pairing])
      (use Cons.prems(2) t in auto)
  then have ids: "map oe_ID (view (pub_store ?st)) = map oe_ID (view (pub_store st))"
    by (blast dest: ids_of_content)
  then have idset: "oe_ID ` set (view (pub_store ?st)) = oe_ID ` set (view (pub_store st))"
    by (metis list.set_map)
  have "\<forall>(cx, env) \<in> set ticks. \<forall>i. \<forall>x \<in> set (view (pub_store ?st)). knows (pe_mark (env i)) (oe_ID x)"
  proof (clarify)
    fix cx env i x
    assume tick: "(cx, env) \<in> set ticks" and x: "x \<in> set (view (pub_store ?st))"
    from x idset obtain x0 where "x0 \<in> set (view (pub_store st))" "oe_ID x0 = oe_ID x" by (metis imageE imageI)
    with Cons.prems(2) tick show "knows (pe_mark (env i)) (oe_ID x)"
      by (metis (no_types, lifting) case_prodD list.set_intros(2))
  qed
  with Cons.IH [of ?st] Cons.prems(1) step ids show ?case by (simp add: t)
qed simp

end

section \<open>PostgreSQL as the store\<close>

definition outbox_view :: "pay_db \<Rightarrow> outbox_event list" where
  "outbox_view db = map row_event (outbox db)"

definition pg_knows :: "'x ctx_scheme \<Rightarrow> string \<Rightarrow> bool" where
  "pg_knows cx i \<longleftrightarrow> pg_uuid cx i = Some i"

lemma row_event_simps [simp]:
  "row_event (claim_row e) = claim_event (row_event e)"
  "oe_ID (row_event e) = ob_id e" "oe_Status (row_event e) = ob_status e"
  by (simp_all add: row_event_def claim_row_def claim_event_def derefString_def)

lemma outbox_view_update:
  assumes "\<And>e. row_event (f e) = g (row_event e)" and "\<And>e. P e = Q (row_event e)"
  shows "map row_event (sql_update P f rows) = sql_update Q g (map row_event rows)"
  using assms by (simp add: sql_update_def)

lemma claim_update_view:
  "outbox_view (claim_update claimed db)
     = sql_update (\<lambda>e. oe_ID e \<in> set (map ob_id claimed)) claim_event (outbox_view db)"
  by (simp add: claim_update_def outbox_view_def outbox_view_update)

lemma claimed_rows_set:
  "e \<in> set (claimed_rows cx n db) \<Longrightarrow> e \<in> set (outbox db) \<and> claimable e \<and> \<not> cx_locked cx (ob_id e)"
  by (auto simp: claimed_rows_def dest: in_set_takeD)

text \<open>What the limit leaves behind is not older than what was taken.\<close>

lemma claimed_rows_left:
  assumes "x \<in> set (outbox db)" "claimable x" "\<not> cx_locked cx (ob_id x)"
    and left: "x \<notin> set (claimed_rows cx n db)"
  shows "length (claimed_rows cx n db) = nat n
    \<and> (\<forall>y \<in> set (claimed_rows cx n db). ob_created_at y \<le> ob_created_at x)"
proof -
  let ?ys = "filter (\<lambda>e. \<not> cx_locked cx (ob_id e)) (sort_key ob_created_at (filter claimable (outbox db)))"
  have rows: "claimed_rows cx n db = take (nat n) ?ys" by (simp add: claimed_rows_def)
  have "x \<in> set ?ys" using assms by simp
  then have "x \<in> set (take (nat n) ?ys @ drop (nat n) ?ys)" by simp
  with left rows have drop: "x \<in> set (drop (nat n) ?ys)" by (metis Un_iff set_append)
  then have "nat n < length ?ys" by (cases "nat n < length ?ys") auto
  moreover have "sorted (map ob_created_at ?ys)"
    by (intro sorted_filter sorted_sort_key)
  then have "sorted (map ob_created_at (take (nat n) ?ys) @ map ob_created_at (drop (nat n) ?ys))"
    by (metis append_take_drop_id map_append)
  with drop have "\<forall>y \<in> set (take (nat n) ?ys). ob_created_at y \<le> ob_created_at x"
    by (auto simp: sorted_append)
  ultimately show ?thesis by (simp add: rows)
qed

lemma claimed_rows_distinct:
  assumes "distinct (map ob_id (outbox db))"
  shows "distinct (map ob_id (claimed_rows cx n db))"
proof -
  have "distinct (map ob_id (sort_key ob_created_at (filter claimable (outbox db))))"
    using distinct_map_filter [OF assms, of claimable]
    by (metis mset_eq_imp_distinct_iff mset_map mset_sort)
  then show ?thesis
    unfolding claimed_rows_def by (metis distinct_map_filter distinct_take take_map)
qed

abbreviation batch_limit :: "int \<Rightarrow> int" where
  "batch_limit n \<equiv> (if n \<le> 0 then 25 else n)"

lemma claim_body_Inr:
  assumes "claim_body cx n db = (Inr es, db')"
  shows "db' = claim_update (claimed_rows cx n db) db"
    and "mset es = image_mset (\<lambda>e. claim_event (row_event e)) (mset (claimed_rows cx n db))"
  using assms by (auto simp: claim_body_def Let_def split: option.splits if_splits)

lemma ClaimPending_Inr:
  assumes "ClaimPending cx n db = (Inr es, db')"
  shows "db' = claim_update (claimed_rows cx (batch_limit n) db) db"
    and "mset es = image_mset (\<lambda>e. claim_event (row_event e)) (mset (claimed_rows cx (batch_limit n) db))"
proof -
  from assms have "claim_body cx (batch_limit n) db = (Inr es, db')"
    unfolding ClaimPending_def Let_def by (blast dest: in_tx_Inr)
  from claim_body_Inr [OF this]
  show "db' = claim_update (claimed_rows cx (batch_limit n) db) db"
    "mset es = image_mset (\<lambda>e. claim_event (row_event e)) (mset (claimed_rows cx (batch_limit n) db))"
    by blast+
qed

lemma ClaimPending_effect:
  assumes "ClaimPending cx n db = (res, db')"
  shows "db' = db \<or> db' = claim_update (claimed_rows cx (batch_limit n) db) db"
proof -
  have "in_tx cx ''begin claim outbox events transaction''
      (\<lambda>_. ''commit claim outbox events transaction'') (claim_body cx (batch_limit n)) db = (res, db')"
    using assms by (simp add: ClaimPending_def)
  then show ?thesis by (cases rule: in_tx_cases) (auto dest: claim_body_Inr)
qed

lemma exec_update_effect:
  assumes "exec_update cx msg i texts write db = (res, db')" and "pg_knows cx i"
  shows "(res \<noteq> Inr () \<and> db' = db) \<or> db' = write i db"
  using assms
  by (auto simp: exec_update_def pg_knows_def stmt_def
      split: sum.splits option.splits commit_outcome.splits if_splits)

lemma set_published_view:
  "outbox_view (set_published at i db) = sql_update (\<lambda>e. oe_ID e = i) (published_event at) (outbox_view db)"
  unfolding outbox_view_def set_published_def
  by (simp, rule outbox_view_update) (simp_all add: row_event_def published_event_def derefString_def)

lemma set_failed_view:
  "outbox_view (set_failed r i db) = sql_update (\<lambda>e. oe_ID e = i) (failed_event r) (outbox_view db)"
  unfolding outbox_view_def set_failed_def
  by (simp, rule outbox_view_update) (simp_all add: row_event_def failed_event_def derefString_def)

lemma claimed_ids:
  assumes "mset es = image_mset (\<lambda>e. claim_event (row_event e)) (mset rows)"
  shows "oe_ID ` set es = set (map ob_id rows)" and "distinct (map oe_ID es) = distinct (map ob_id rows)"
    and "set es = (\<lambda>e. claim_event (row_event e)) ` set rows"
proof -
  have m: "mset (map oe_ID es) = mset (map ob_id rows)"
    using assms by (simp add: mset_map multiset.map_comp comp_def)
  then show "distinct (map oe_ID es) = distinct (map ob_id rows)" by (rule mset_eq_imp_distinct_iff)
  from m show "oe_ID ` set es = set (map ob_id rows)" by (metis list.set_map set_mset_mset)
  from assms show "set es = (\<lambda>e. claim_event (row_event e)) ` set rows"
    by (metis set_image_mset set_mset_mset)
qed

lemma view_ids: "map oe_ID (outbox_view db) = map ob_id (outbox db)"
  by (simp add: outbox_view_def comp_def)

lemma claimable_event: "event_claimable (row_event e) = claimable e"
  by (simp add: event_claimable_def claimable_def)

interpretation pg_outbox: outbox_store PostgresOutboxRepository outbox_view pg_knows
proof unfold_locales
  fix cx :: "'x ctx_scheme" and n and db db' :: pay_db and es
  assume ids: "distinct (map oe_ID (outbox_view db))"
    and run: "store_ClaimPending PostgresOutboxRepository cx n db = (Inr es, db')"
  let ?rows = "claimed_rows cx (batch_limit n) db"
  from run have claim: "ClaimPending cx n db = (Inr es, db')" by simp
  note set_es = claimed_ids [OF ClaimPending_Inr(2) [OF claim]]
  have "distinct (map ob_id ?rows)" using ids unfolding view_ids by (rule claimed_rows_distinct)
  with set_es have "distinct (map oe_ID es)" by simp
  moreover have "\<exists>e0 \<in> set (outbox_view db). event_claimable e0 \<and> e = claim_event e0" if "e \<in> set es" for e
    using that claimed_rows_set by (fastforce simp: set_es outbox_view_def claimable_event)
  moreover have "outbox_view db' = sql_update (\<lambda>e. oe_ID e \<in> oe_ID ` set es) claim_event (outbox_view db)"
    unfolding ClaimPending_Inr(1) [OF claim] claim_update_view set_es(1) by (rule refl)
  ultimately show "distinct (map oe_ID es)
      \<and> (\<forall>e \<in> set es. \<exists>e0 \<in> set (outbox_view db). event_claimable e0 \<and> e = claim_event e0)
      \<and> outbox_view db' = sql_update (\<lambda>e. oe_ID e \<in> oe_ID ` set es) claim_event (outbox_view db)"
    by blast
next
  fix cx :: "'x ctx_scheme" and n and db db' :: pay_db and er
  assume ids: "distinct (map oe_ID (outbox_view db))"
    and run: "store_ClaimPending PostgresOutboxRepository cx n db = (Inl er, db')"
  let ?rows = "claimed_rows cx (batch_limit n) db"
  from run have "db' = db \<or> db' = claim_update ?rows db"
    by (auto dest: ClaimPending_effect)
  then show "\<exists>I. (\<forall>e \<in> set (outbox_view db). oe_ID e \<in> I \<longrightarrow> event_claimable e)
      \<and> outbox_view db' = sql_update (\<lambda>e. oe_ID e \<in> I) claim_event (outbox_view db)"
  proof
    assume "db' = db"
    then show ?thesis by (intro exI [of _ "{}"]) (simp add: sql_update_none)
  next
    assume db': "db' = claim_update ?rows db"
    have "event_claimable (row_event e)" if e: "e \<in> set (outbox db)" "ob_id e \<in> set (map ob_id ?rows)" for e
    proof -
      from e(2) obtain x where x: "x \<in> set ?rows" "ob_id x = ob_id e" by auto
      with e(1) ids claimed_rows_set [OF x(1)] have "x = e"
        by (auto simp: view_ids distinct_map inj_on_def)
      with claimed_rows_set [OF x(1)] show ?thesis by (simp add: claimable_event)
    qed
    then show ?thesis
      unfolding db' claim_update_view
      by (intro exI [of _ "set (map ob_id ?rows)"] conjI) (auto simp: outbox_view_def)
  qed
next
  fix cx :: "'x ctx_scheme" and i at res and db db' :: pay_db
  assume "pg_knows cx i" and "store_MarkPublished PostgresOutboxRepository cx i at db = (res, db')"
  then show "(res \<noteq> Inr () \<and> outbox_view db' = outbox_view db)
      \<or> outbox_view db' = sql_update (\<lambda>e. oe_ID e = i) (published_event at) (outbox_view db)"
    using exec_update_effect set_published_view by (fastforce simp: MarkPublished_def)
next
  fix cx :: "'x ctx_scheme" and i reason res and db db' :: pay_db
  assume "pg_knows cx i" and "store_MarkFailed PostgresOutboxRepository cx i reason db = (res, db')"
  then show "(res \<noteq> Inr () \<and> outbox_view db' = outbox_view db)
      \<or> outbox_view db' = sql_update (\<lambda>e. oe_ID e = i) (failed_event reason) (outbox_view db)"
    using exec_update_effect set_failed_view by (fastforce simp: MarkFailed_def)
qed

end
