(* ===== verification/Payment_System.thy ===== *)
theory Payment_System
  imports Payment_Service Outbox_Publisher
begin

text \<open>
  The payment service as a whole: API calls, the two halves of a status update, and the
  publisher's claims and deliveries interleave on one database and one topic, in any order,
  with any faults. The invariant holds in every reachable state.
\<close>

section \<open>The system\<close>

record pay_system =
  ps_db :: pay_db
  ps_log :: "kafka_message list"
  ps_updates :: "(string \<times> payment_status \<times> payment_status) list"
  ps_claimed :: "outbox_event list"

definition initial_system :: pay_system where
  "initial_system = \<lparr>ps_db = empty_pay_db, ps_log = [], ps_updates = [], ps_claimed = []\<rparr>"

text \<open>
  \<open>lib.truncate cx = L\<close>: the libraries and the server stay the same from call to call. A
  crash drops what a process holds in memory.
\<close>

inductive pay_step :: "lib \<Rightarrow> string \<Rightarrow> pay_system \<Rightarrow> pay_system \<Rightarrow> bool" for L topic where
  create: "\<lbrakk>lib.truncate (cx :: ctx) = L;
      PaymentService_Create PostgresPaymentRepository cx request ikey (ps_db s) = (res, db)\<rbrakk>
    \<Longrightarrow> pay_step L topic s (s\<lparr>ps_db := db\<rparr>)"
| read: "\<lbrakk>lib.truncate (cx :: ctx) = L;
      update_read PostgresPaymentRepository cx ident upd (ps_db s) = Write pid prev new\<rbrakk>
    \<Longrightarrow> pay_step L topic s (s\<lparr>ps_updates := (pid, prev, new) # ps_updates s\<rparr>)"
| update: "\<lbrakk>lib.truncate (cx :: ctx) = L; (pid, prev, new) \<in> set (ps_updates s);
      update_write PostgresPaymentRepository cx pid prev new (ps_db s) = (res, db)\<rbrakk>
    \<Longrightarrow> pay_step L topic s (s\<lparr>ps_db := db, ps_updates := remove1 (pid, prev, new) (ps_updates s)\<rparr>)"
| claim: "\<lbrakk>lib.truncate (cx :: ctx) = L; ClaimPending cx n (ps_db s) = (res, db)\<rbrakk>
    \<Longrightarrow> pay_step L topic s
          (s\<lparr>ps_db := db, ps_claimed := ps_claimed s @ (case res of Inl _ \<Rightarrow> [] | Inr es \<Rightarrow> es)\<rparr>)"
| publish: "\<lbrakk>lib.truncate (pe_mark (env :: ctx publish_env)) = L; e \<in> set (ps_claimed s);
      publish_step PostgresOutboxRepository topic env e
        \<lparr>pub_store = ps_db s, pub_log = ps_log s, pub_metrics = []\<rparr>
      = \<lparr>pub_store = db, pub_log = log, pub_metrics = ms\<rparr>\<rbrakk>
    \<Longrightarrow> pay_step L topic s (s\<lparr>ps_db := db, ps_log := log, ps_claimed := remove1 e (ps_claimed s)\<rparr>)"
| crash: "\<lbrakk>set us \<subseteq> set (ps_updates s); set cs \<subseteq> set (ps_claimed s)\<rbrakk>
    \<Longrightarrow> pay_step L topic s (s\<lparr>ps_updates := us, ps_claimed := cs\<rparr>)"

abbreviation pay_steps :: "lib \<Rightarrow> string \<Rightarrow> pay_system \<Rightarrow> pay_system \<Rightarrow> bool" where
  "pay_steps L topic \<equiv> (pay_step L topic)\<^sup>*\<^sup>*"

inductive_cases pay_stepE: "pay_step L topic s s'"

section \<open>What marking an event leaves alone\<close>

definition row_content :: "outbox_row \<Rightarrow> string \<times> string \<times> string \<times> string \<times> string" where
  "row_content e = (ob_id e, ob_aggregate_type e, ob_aggregate_id e, ob_event_type e, ob_payload e)"

lemma content_row_event [simp]: "content (row_event e) = row_content e"
  by (simp add: content_def row_event_def row_content_def)

lemma outbox_view_content: "map content (outbox_view db) = map row_content (outbox db)"
  by (simp add: outbox_view_def comp_def)

lemma ids_of_row_content: "map row_content xs = map row_content ys \<Longrightarrow> map ob_id xs = map ob_id ys"
proof -
  assume "map row_content xs = map row_content ys"
  then have "map fst (map row_content xs) = map fst (map row_content ys)" by (rule arg_cong)
  then show ?thesis by (simp add: row_content_def comp_def)
qed

text \<open>The event rows of a payment, by content.\<close>

definition contents_of :: "string \<Rightarrow> string \<Rightarrow> pay_db \<Rightarrow> (string \<times> string \<times> string \<times> string \<times> string) list" where
  "contents_of et pid db = filter (\<lambda>(_, _, a, t, _). t = et \<and> a = pid) (map row_content (outbox db))"

lemma contents_of_events: "contents_of et pid db = map row_content (events_of et pid db)"
  by (simp add: contents_of_def events_of_def filter_map comp_def row_content_def)

lemma created_row_event_content:
  "row_content e = row_content e' \<Longrightarrow> created_row_event L r e = created_row_event L r e'"
  by (simp add: created_row_event_def row_content_def)

lemma row_inv_content:
  assumes "map row_content (outbox db') = map row_content (outbox db)" and "row_inv L db r"
  shows "row_inv L db' r"
proof -
  have ev: "map row_content (events_of et pid db') = map row_content (events_of et pid db)" for et pid
    using assms(1) contents_of_events [of et pid db] contents_of_events [of et pid db']
    by (simp add: contents_of_def)
  then have len: "length (events_of et pid db') = length (events_of et pid db)" for et pid
    by (metis length_map)
  let ?c = "events_of PaymentCreatedEvent (pr_id r)"
  have img: "row_content ` set (?c db') = row_content ` set (?c db)"
    using ev [of PaymentCreatedEvent "pr_id r"] by (metis list.set_map)
  have "created_row_event L r e'" if "e' \<in> set (?c db')" for e'
  proof -
    from that have "row_content e' \<in> row_content ` set (?c db)" unfolding img [symmetric] by (rule imageI)
    then obtain e where "e \<in> set (?c db)" "row_content e' = row_content e" by (rule imageE)
    with assms(2) created_row_event_content [of e' e L r] show ?thesis by (simp add: row_inv_def)
  qed
  with assms(2) len show ?thesis by (simp add: row_inv_def)
qed

lemma pay_inv_content:
  assumes "payments db' = payments db" and "map row_content (outbox db') = map row_content (outbox db)"
    and "pay_inv L db"
  shows "pay_inv L db'"
proof -
  note ids = ids_of_row_content [OF assms(2)]
  have img: "row_content ` set (outbox db') = row_content ` set (outbox db)"
    using assms(2) by (metis list.set_map)
  have rows: "ob_aggregate_id e' \<in> pr_id ` set (payments db)
      \<and> ob_event_type e' \<in> {PaymentCreatedEvent, PaymentStatusChangedEvent}" if "e' \<in> set (outbox db')" for e'
  proof -
    from that have "row_content e' \<in> row_content ` set (outbox db)" unfolding img [symmetric] by (rule imageI)
    then obtain e where "e \<in> set (outbox db)" "row_content e' = row_content e" by (rule imageE)
    with assms(3) show ?thesis by (simp add: pay_inv_def row_content_def)
  qed
  with assms row_inv_content [OF assms(2)] ids show ?thesis
    unfolding pay_inv_def idempotency_keys_def by (metis (no_types, lifting))
qed

section \<open>The effect of each operation on the tables\<close>

lemma Create_outcome:
  assumes "Create cx p db = (res, db')"
  shows "(db' = db \<and> (\<forall>q. res \<noteq> Inr (q, True)))
    \<or> (\<exists>r e. appends cx p r e db db' \<and> ((\<exists>er. res = Inl er) \<or> res = Inr (row_payment r, True)))"
proof (rule Create_tx [of cx p db])
  fix b m body
  assume tx: "Create cx p db = in_tx cx b m body db"
    and body: "\<And>q c db'. body db = (Inr (q, c), db') \<Longrightarrow> create_result cx p db q c db'"
  from assms tx have "in_tx cx b m body db = (res, db')" by simp
  then show ?thesis
  proof (cases rule: in_tx_cases)
    case (installed a)
    obtain q c where a: "a = (q, c)" by force
    from body installed(1) a have "create_result cx p db q c db'" by simp
    with installed(2) a show ?thesis by (auto simp: create_result_def split: if_splits)
  qed auto
qed

lemma service_create_effect:
  fixes cx :: "'x ctx_scheme"
  assumes "PaymentService_Create PostgresPaymentRepository cx request ikey db = (res, db')"
  obtains (unchanged) "db' = db" "\<forall>q. res \<noteq> Inr (q, True)"
    | (created) p r e where "p = new_payment cx (normalize_create cx request) (trim_space ikey)"
        "appends cx p r e db db'" "(\<exists>er. res = Inl er) \<or> res = Inr (row_payment r, True)"
  using assms
proof (cases rule: pg.create_cases)
  case accepted
  let ?p = "new_payment cx (normalize_create cx request) (trim_space ikey)"
  obtain res' where run: "Create cx ?p db = (res', db')"
    using accepted(2) by (metis PostgresPaymentRepository_simps(1) prod.collapse)
  have res: "res = res'" if "res = Inr qc" for qc
    using accepted(3) [of "fst qc" "snd qc"] that run by simp
  have err: "\<exists>er. res = Inl er" if "res' = Inl er" for er
    using res that by (cases res) auto
  from Create_outcome [OF run] show ?thesis
  proof
    assume "db' = db \<and> (\<forall>q. res' \<noteq> Inr (q, True))"
    with res show ?thesis by (intro unchanged) auto
  next
    assume "\<exists>r e. appends cx ?p r e db db' \<and> ((\<exists>er. res' = Inl er) \<or> res' = Inr (row_payment r, True))"
    then obtain r e where a: "appends cx ?p r e db db'"
      and "(\<exists>er. res' = Inl er) \<or> res' = Inr (row_payment r, True)" by blast
    with res err have "(\<exists>er. res = Inl er) \<or> res = Inr (row_payment r, True)" by (cases res) auto
    with a show ?thesis by (intro created [OF refl])
  qed
qed (use that in simp)

lemma service_update_effect:
  assumes "update_write PostgresPaymentRepository cx pid prev new db = (res, db')"
  obtains (unchanged) "db' = db" | (moved) r e where "moves cx pid prev new r e db db'"
  using assms UpdateStatus_effect [OF surjective_pairing, of cx pid prev new db] that
  by (auto simp: update_write_def split: prod.splits sum.splits if_splits)

text \<open>Claiming and marking change only the state of the outbox rows.\<close>

lemma view_content_rows:
  "map content (outbox_view db') = map content (outbox_view db)
     \<Longrightarrow> map row_content (outbox db') = map row_content (outbox db)"
  by (simp add: outbox_view_content)

lemma claim_effect:
  assumes "ClaimPending cx n db = (res, db')"
  shows "payments db' = payments db" and "map row_content (outbox db') = map row_content (outbox db)"
  using ClaimPending_effect [OF assms]
  by (auto simp: claim_update_def map_sql_update row_content_def claim_row_def)

lemma exec_update_cases: "exec_update cx msg i texts write db = (res, db') \<Longrightarrow> db' = db \<or> (\<exists>u. db' = write u db)"
  by (auto simp: exec_update_def split: sum.splits commit_outcome.splits)

lemma mark_effect:
  assumes "exec_update cx msg i texts write db = (res, db')"
    and "write = set_published at \<or> write = set_failed reason"
  shows "payments db' = payments db" and "map row_content (outbox db') = map row_content (outbox db)"
  using exec_update_cases [OF assms(1)] assms(2)
  by (auto simp: set_published_def set_failed_def map_sql_update row_content_def)

lemma publish_step_effect:
  "payments (pub_store (publish_step PostgresOutboxRepository topic env e st)) = payments (pub_store st)"
  "map row_content (outbox (pub_store (publish_step PostgresOutboxRepository topic env e st)))
     = map row_content (outbox (pub_store st))"
  unfolding publish_step_store
  by (auto split: option.splits simp: MarkPublished_def MarkFailed_def
      intro!: mark_effect [OF surjective_pairing])

section \<open>The invariant\<close>

definition outbox_canonical :: "lib \<Rightarrow> pay_db \<Rightarrow> bool" where
  "outbox_canonical L db \<longleftrightarrow> (\<forall>e \<in> set (outbox db). pg_uuid L (ob_id e) = Some (ob_id e))"

definition sys_inv :: "lib \<Rightarrow> string \<Rightarrow> pay_system \<Rightarrow> bool" where
  "sys_inv L topic s \<longleftrightarrow>
     pay_inv L (ps_db s)
     \<and> outbox_canonical L (ps_db s)
     \<and> published_in topic (outbox_view (ps_db s)) (ps_log s)
     \<and> (\<forall>(pid, prev, new) \<in> set (ps_updates s). prev = PaymentStatusPending \<and> new \<noteq> PaymentStatusPending)
     \<and> content ` set (ps_claimed s) \<subseteq> row_content ` set (outbox (ps_db s))"

lemma sys_inv_initial: "sys_inv L topic initial_system"
  by (simp add: sys_inv_def initial_system_def outbox_canonical_def published_in_def
      outbox_view_def empty_pay_db_def pay_inv_empty [unfolded empty_pay_db_def])

lemma canonical_content:
  assumes "map row_content (outbox db') = map row_content (outbox db)" and "outbox_canonical L db"
  shows "outbox_canonical L db'"
proof -
  from ids_of_row_content [OF assms(1)] have "ob_id ` set (outbox db') = ob_id ` set (outbox db)"
    by (metis list.set_map)
  then have "ob_id e \<in> ob_id ` set (outbox db)" if "e \<in> set (outbox db')" for e
    using that by (metis imageI)
  with assms(2) show ?thesis unfolding outbox_canonical_def by (fastforce elim!: imageE)
qed

lemma published_in_append_pending:
  "published_in topic es log \<Longrightarrow> oe_Status e \<noteq> OutboxStatusPublished \<Longrightarrow> published_in topic (es @ [e]) log"
  by (auto simp: published_in_def)

text \<open>A new pending outbox row keeps the parts of the invariant that speak of the outbox.\<close>

lemma outbox_append_inv:
  assumes "outbox_canonical L db" and "published_in topic (outbox_view db) log"
    and "content ` set cs \<subseteq> row_content ` set (outbox db)"
    and "outbox db' = outbox db @ [e]" and "ob_status e = OutboxStatusPending"
    and "uuid_canonical L" and "pg_uuid L u = Some (ob_id e)"
  shows "outbox_canonical L db'" and "published_in topic (outbox_view db') log"
    and "content ` set cs \<subseteq> row_content ` set (outbox db')"
  using assms
  by (auto simp: outbox_canonical_def uuid_canonical_def outbox_view_def
      intro!: published_in_append_pending)

lemma sys_inv_step:
  assumes step: "pay_step L topic s s'" and inv: "sys_inv L topic s" and canon: "uuid_canonical L"
  shows "sys_inv L topic s'"
  using step
proof cases
  case (create cx request ikey res db)
  from create(3) show ?thesis
  proof (cases rule: service_create_effect)
    case unchanged
    with create inv show ?thesis by (simp add: sys_inv_def)
  next
    case (created p r e)
    have "pg_uuid L (cx_uuid cx 1) = Some (ob_id e)" "ob_status e = OutboxStatusPending"
      "outbox db = outbox (ps_db s) @ [e]"
      using created(2) lib_eq(4) [of cx L] create(2) by (simp_all add: appends_def)
    with outbox_append_inv [of L "ps_db s" topic "ps_log s" "ps_claimed s" db e] inv canon
      appends_inv [OF created(2), of L] create created(1)
    show ?thesis by (simp add: sys_inv_def)
  qed
next
  case (read cx ident upd pid prev new)
  have "store_inv (ps_db s)" using inv pay_inv_store_inv unfolding sys_inv_def by blast
  from pg.update_read_Write [OF this read(3)] have "prev = PaymentStatusPending \<and> new \<noteq> PaymentStatusPending"
    by (blast dest: canTransition_target)
  with read inv show ?thesis by (auto simp: sys_inv_def)
next
  case (update cx pid prev new res db)
  have upd: "prev = PaymentStatusPending" "new \<noteq> PaymentStatusPending"
    using inv update(3) by (auto simp: sys_inv_def)
  have rest: "\<forall>(pid, prev, new) \<in> set (remove1 (pid, prev, new) (ps_updates s)).
      prev = PaymentStatusPending \<and> new \<noteq> PaymentStatusPending"
    using inv by (auto simp: sys_inv_def dest: notin_set_remove1 in_mono [OF set_remove1_subset, THEN mp])
  from update(4) show ?thesis
  proof (cases rule: service_update_effect)
    case unchanged
    with update inv rest show ?thesis by (simp add: sys_inv_def)
  next
    case (moved r e)
    have "pg_uuid L (cx_uuid cx 1) = Some (ob_id e)" "ob_status e = OutboxStatusPending"
      "outbox db = outbox (ps_db s) @ [e]"
      using moved lib_eq(4) [of cx L] update(2) by (simp_all add: moves_def)
    with outbox_append_inv [of L "ps_db s" topic "ps_log s" "ps_claimed s" db e] inv canon
      moves_inv [OF moved _ upd, of L] update rest
    show ?thesis by (simp add: sys_inv_def)
  qed
next
  case (claim cx n res db)
  have ids: "distinct (map oe_ID (outbox_view (ps_db s)))"
    using inv by (simp add: sys_inv_def pay_inv_def view_ids)
  note eff = claim_effect [OF claim(3)]
  from claim(3) have c: "store_ClaimPending PostgresOutboxRepository cx n (ps_db s) = (res, db)" by simp
  have pub: "published_in topic (outbox_view db) (ps_log s)"
    using ids c
  proof (rule pg_outbox.claim_view)
    fix I
    assume v: "outbox_view db = sql_update (\<lambda>e. oe_ID e \<in> I) claim_event (outbox_view (ps_db s))"
    show ?thesis unfolding v using inv by (intro published_in_update) (simp_all add: sys_inv_def)
  qed
  have img: "row_content ` set (outbox db) = row_content ` set (outbox (ps_db s))"
    using eff(2) by (metis list.set_map)
  have new: "content ` set es \<subseteq> row_content ` set (outbox db)" if "res = Inr es" for es
    using pg_outbox.claim_ok [OF ids c [unfolded that]] unfolding img
    by (fastforce simp: outbox_view_def)
  show ?thesis
    using claim inv pub new pay_inv_content [OF eff, of L] canonical_content [OF eff(2)] img
    by (cases res) (simp_all add: sys_inv_def image_Un)
next
  case (publish env e db log ms)
  let ?st = "\<lparr>pub_store = ps_db s, pub_log = ps_log s, pub_metrics = []\<rparr>"
  note eff = publish_step_effect [of topic env e ?st, unfolded publish(4), simplified]
  have ids: "distinct (map oe_ID (outbox_view (ps_db s)))"
    using inv by (simp add: sys_inv_def pay_inv_def view_ids)
  have img: "row_content ` set (outbox db) = row_content ` set (outbox (ps_db s))"
    using eff(2) by (metis list.set_map)
  have here: "content e \<in> content ` set (outbox_view (ps_db s))"
    using publish(3) inv by (auto simp: sys_inv_def outbox_view_def image_iff)
  then obtain x where x: "x \<in> set (outbox (ps_db s))" "content e = row_content x"
    by (auto simp: outbox_view_def)
  then have "oe_ID e = ob_id x" by (simp add: content_def row_content_def)
  with x(1) inv have known: "pg_knows (pe_mark env) (oe_ID e)"
    by (simp add: pg_knows_def lib_eq(4) [of "pe_mark env" L] publish(2) sys_inv_def outbox_canonical_def)
  have pub: "published_in topic (outbox_view db) log"
    using pg_outbox.publish_step_published [of ?st env e topic] ids known here inv publish(4)
    by (simp add: sys_inv_def)
  have "content ` set (remove1 e (ps_claimed s)) \<subseteq> content ` set (ps_claimed s)"
    by (intro image_mono set_remove1_subset)
  with inv have "content ` set (remove1 e (ps_claimed s)) \<subseteq> row_content ` set (outbox (ps_db s))"
    unfolding sys_inv_def by (meson order_trans)
  then show ?thesis
    using publish(1) inv pub pay_inv_content [OF eff, of L] canonical_content [OF eff(2)] img
    by (simp add: sys_inv_def)
next
  case (crash us cs)
  have "content ` set cs \<subseteq> row_content ` set (outbox (ps_db s))"
    using inv image_mono [OF crash(3), of content] unfolding sys_inv_def by (meson order_trans)
  moreover have "\<forall>(pid, prev, new) \<in> set us. prev = PaymentStatusPending \<and> new \<noteq> PaymentStatusPending"
    using inv crash(2) unfolding sys_inv_def by blast
  ultimately show ?thesis using inv crash(1) by (simp add: sys_inv_def)
qed

lemma sys_inv_steps:
  "pay_steps L topic s s' \<Longrightarrow> sys_inv L topic s \<Longrightarrow> uuid_canonical L \<Longrightarrow> sys_inv L topic s'"
  by (induction rule: rtranclp_induct) (auto intro: sys_inv_step)

section \<open>What happens to a payment\<close>

definition kept :: "payment_row \<Rightarrow> payment_row \<Rightarrow> bool" where
  "kept r r' \<longleftrightarrow>
     r' = r\<lparr>pr_status := pr_status r', pr_updated_at := pr_updated_at r'\<rparr>
     \<and> (pr_status r \<noteq> PaymentStatusPending \<longrightarrow> r' = r)"

lemma kept_refl [simp]: "kept r r"
  by (simp add: kept_def)

lemma kept_trans: "kept r r' \<Longrightarrow> kept r' r'' \<Longrightarrow> kept r r''"
  by (cases r; cases r'; cases r'') (auto simp: kept_def)

lemma kept_simps:
  assumes "kept r r'"
  shows "pr_id r' = pr_id r" "pr_amount_cents r' = pr_amount_cents r" "pr_currency r' = pr_currency r"
    "pr_idempotency_key r' = pr_idempotency_key r"
    "pr_idempotency_request_hash r' = pr_idempotency_request_hash r"
    "pr_created_at r' = pr_created_at r"
proof -
  from assms have eq: "r' = r\<lparr>pr_status := pr_status r', pr_updated_at := pr_updated_at r'\<rparr>"
    by (simp add: kept_def)
  show "pr_id r' = pr_id r" "pr_amount_cents r' = pr_amount_cents r" "pr_currency r' = pr_currency r"
    "pr_idempotency_key r' = pr_idempotency_key r"
    "pr_idempotency_request_hash r' = pr_idempotency_request_hash r"
    "pr_created_at r' = pr_created_at r"
    by (subst eq, simp)+
qed

definition all_kept :: "pay_db \<Rightarrow> pay_db \<Rightarrow> bool" where
  "all_kept db db' \<longleftrightarrow> (\<forall>r \<in> set (payments db). \<exists>r' \<in> set (payments db'). kept r r')"

lemma all_kept_same: "payments db' = payments db \<Longrightarrow> all_kept db db'"
  by (auto simp: all_kept_def intro: kept_refl)

lemma appends_kept: "appends cx p r e db db' \<Longrightarrow> all_kept db db'"
  by (auto simp: all_kept_def appends_def intro: kept_refl)

lemma moves_kept: "moves cx pid PaymentStatusPending new r e db db' \<Longrightarrow> all_kept db db'"
proof -
  let ?hit = "\<lambda>r'. pr_id r' = pr_id r \<and> pr_status r' = PaymentStatusPending"
  let ?wr = "\<lambda>r'. r'\<lparr>pr_status := new, pr_updated_at := cx_now cx\<rparr>"
  assume "moves cx pid PaymentStatusPending new r e db db'"
  then have upd: "payments db' = sql_update ?hit ?wr (payments db)" by (simp add: moves_def)
  show ?thesis unfolding all_kept_def
  proof
    fix x
    assume "x \<in> set (payments db)"
    then have "(if ?hit x then ?wr x else x) \<in> set (payments db')"
      unfolding upd set_sql_update by (rule imageI)
    moreover have "kept x (if ?hit x then ?wr x else x)" by (simp add: kept_def)
    ultimately show "\<exists>r' \<in> set (payments db'). kept x r'" by (rule bexI [rotated])
  qed
qed

lemma pay_step_kept:
  assumes step: "pay_step L topic s s'" and inv: "sys_inv L topic s"
  shows "all_kept (ps_db s) (ps_db s')"
  using step
proof cases
  case (create cx request ikey res db)
  from create(3) show ?thesis
  proof (cases rule: service_create_effect)
    case (created p r e)
    from appends_kept [OF created(2)] create(1) show ?thesis by simp
  qed (simp add: create(1) all_kept_same)
next
  case (update cx pid prev new res db)
  have prev: "prev = PaymentStatusPending" using inv update(3) by (auto simp: sys_inv_def)
  from update(4) show ?thesis
  proof (cases rule: service_update_effect)
    case (moved r e)
    from moves_kept [OF moved [unfolded prev]] update(1) show ?thesis by simp
  qed (simp add: update(1) all_kept_same)
next
  case (claim cx n res db)
  with claim_effect(1) [OF claim(3)] show ?thesis by (simp add: all_kept_same)
next
  case (publish env e db log ms)
  with publish_step_effect(1) [of topic env e "\<lparr>pub_store = ps_db s, pub_log = ps_log s, pub_metrics = []\<rparr>"]
  show ?thesis by (simp add: all_kept_same)
qed (simp_all add: all_kept_same)

lemma pay_steps_kept:
  assumes "pay_steps L topic s s'" and "sys_inv L topic s" and "uuid_canonical L"
  shows "all_kept (ps_db s) (ps_db s')"
  using assms(1)
proof (induction rule: rtranclp_induct)
  case (step y z)
  from pay_step_kept [OF step(2) sys_inv_steps [OF step(1) assms(2,3)]] step(3)
  show ?case unfolding all_kept_def by (meson kept_trans)
qed (simp add: all_kept_same)

end
