(* ===== verification/Payment_Progress.thy ===== *)
theory Payment_Progress
  imports Payment_System
begin

text \<open>
  What the payment operations return when nothing fails: a fresh request is stored, a repeated
  one is answered with the payment it made, a different one under the same key is refused, and
  a batch of the publisher delivers and marks all that it claims.
\<close>

text \<open>The server can read every parameter of the two insertions.\<close>

definition readable :: "'x ctx_scheme \<Rightarrow> payment \<Rightarrow> bool" where
  "readable cx p \<longleftrightarrow>
     pg_uuid cx (p_ID p) \<noteq> None \<and> pg_char3 (p_Currency p) \<noteq> None
     \<and> list_all pg_text_ok
         [p_Status p, p_Description p, p_ExternalReference p, p_IdempotencyKey p, p_IdempotencyHash p]"

lemma pg_text_ok_Nil [simp]: "pg_text_ok []"
  using utf8_valid_ascii [of "[]"] by (simp add: pg_text_ok_def is_ascii_def)

lemma readable_values:
  assumes "readable cx p"
  obtains r where "payment_values cx p (key_of p) (hash_of p) = Inr r"
proof -
  from assms obtain u c where "pg_uuid cx (p_ID p) = Some u" "pg_char3 (p_Currency p) = Some c"
    by (auto simp: readable_def)
  moreover have "list_all pg_text_ok [p_Status p, p_Description p, p_ExternalReference p,
      derefString (key_of p), derefString (hash_of p)]"
    using assms by (cases "p_IdempotencyKey p = []") (auto simp: readable_def)
  ultimately show ?thesis by (intro that) (simp add: payment_values_def)
qed

lemma values_checks:
  assumes "payment_values cx p k h = Inr r" and "0 < sint (p_AmountCents p)"
    and "p_Status p = PaymentStatusPending"
  shows "payment_checks r"
  using payment_values_Inr [OF assms(1)] assms(2,3) by (simp add: payment_checks_def)

definition event_storable :: "'x ctx_scheme \<Rightarrow> pay_db \<Rightarrow> bool" where
  "event_storable cx db \<longleftrightarrow>
     (\<exists>v. pg_uuid cx (cx_uuid cx 1) = Some v \<and> v \<notin> set (map ob_id (outbox db)))
     \<and> time_json cx (cx_now cx) \<noteq> None \<and> (\<forall>d. pg_jsonb cx d \<noteq> None)
     \<and> pg_text_ok (cx_traceparent cx) \<and> pg_text_ok (cx_tracestate cx)"

lemma event_stored:
  assumes st: "event_storable cx db" and "no_faults cx"
    and ev: "newPaymentEvent cx pid et (map_option f (time_json cx (cx_now cx))) = Inr ev"
    and pid: "pg_text_ok pid" and ob: "outbox db1 = outbox db"
  obtains e where "insertOutboxEvent cx 1 ev db1 = Inr (db1\<lparr>outbox := outbox db @ [e]\<rparr>)"
proof -
  from newPaymentEvent_Inr [OF ev] have ids: "oe_ID ev = cx_uuid cx 1" "oe_AggregateID ev = pid" by auto
  from st obtain v where v: "pg_uuid cx (cx_uuid cx 1) = Some v" "v \<notin> set (map ob_id (outbox db))"
    by (auto simp: event_storable_def)
  from st obtain doc where d: "pg_jsonb cx (oe_Payload ev) = Some doc" by (auto simp: event_storable_def)
  have "\<exists>e. outbox_values cx ev = Inr e \<and> ob_id e = v"
    using v d st ids pid by (simp add: outbox_values_def event_storable_def)
  then obtain e where "outbox_values cx ev = Inr e" "ob_id e = v" by blast
  with v assms(2) ob show ?thesis by (intro that [of e]) (simp add: insertOutboxEvent_def)
qed

lemma values_created_at: "payment_values cx p k h = Inr r \<Longrightarrow> pr_created_at r = cx_now cx"
  by (auto simp: payment_values_def split: option.splits if_splits)

lemma with_created_event_ok:
  assumes "event_storable cx db" and "no_faults cx" and "payment_values cx p k h = Inr r"
    and "pg_text_ok (pr_id r)" and "outbox db1 = outbox db"
  shows "\<exists>e. with_created_event cx (row_payment r) db1
    = (Inr (row_payment r, True), db1\<lparr>outbox := outbox db @ [e]\<rparr>)"
proof -
  have t: "\<exists>ev. newPaymentEvent cx (pr_id r) PaymentCreatedEvent
      (map_option (payment_created_payload (row_payment r)) (time_json cx (cx_now cx))) = Inr ev"
    using assms(1) by (auto simp: event_storable_def newPaymentEvent_def)
  then obtain ev where ev: "newPaymentEvent cx (pr_id r) PaymentCreatedEvent
      (map_option (payment_created_payload (row_payment r)) (time_json cx (cx_now cx))) = Inr ev" ..
  from event_stored [OF assms(1,2) ev assms(4,5)] obtain e
    where "insertOutboxEvent cx 1 ev db1 = Inr (db1\<lparr>outbox := outbox db @ [e]\<rparr>)" .
  with ev values_created_at [OF assms(3)] show ?thesis
    by (intro exI [of _ e]) (simp add: with_created_event_def NewPaymentCreated_def)
qed

text \<open>The repository, nothing failing: a fresh payment is stored.\<close>

lemma Create_fresh:
  assumes nf: "no_faults cx" and rd: "readable cx p" and es: "event_storable cx db"
    and amount: "0 < sint (p_AmountCents p)" and pending: "p_Status p = PaymentStatusPending"
    and u: "pg_uuid cx (p_ID p) = Some u" "u \<notin> set (map pr_id (payments db))" "pg_text_ok u"
    and key: "p_IdempotencyKey p \<noteq> [] \<Longrightarrow>
      Some (p_IdempotencyKey p) \<notin> set (map pr_idempotency_key (payments db))"
  shows "\<exists>r e. Create cx p db = (Inr (row_payment r, True), db\<lparr>payments := payments db @ [r], outbox := outbox db @ [e]\<rparr>)
    \<and> payment_values cx p (key_of p) (hash_of p) = Inr r"
proof -
  from rd obtain r where r: "payment_values cx p (key_of p) (hash_of p) = Inr r" by (rule readable_values)
  note vals = payment_values_Inr [OF r]
  have id: "pr_id r = u" using vals u by simp
  have fresh: "\<not> (pr_idempotency_key r \<noteq> None \<and> pr_idempotency_key r \<in> set (map pr_idempotency_key (payments db)))"
    using vals key by (cases "p_IdempotencyKey p = []") auto
  have ins: "insert_payment oc (Inr r) db = Inr (Some r, db\<lparr>payments := payments db @ [r]\<rparr>)" for oc
    using values_checks [OF r amount pending] fresh id u(2) by (simp add: insert_payment_def)
  from with_created_event_ok [OF es nf r, of "db\<lparr>payments := payments db @ [r]\<rparr>"] u(3) id obtain e where
    "with_created_event cx (row_payment r) (db\<lparr>payments := payments db @ [r]\<rparr>)
      = (Inr (row_payment r, True), db\<lparr>payments := payments db @ [r], outbox := outbox db @ [e]\<rparr>)"
    by auto
  with r nf ins show ?thesis
    by (cases "p_IdempotencyKey p = []") (auto simp: Create_def insertWithOutbox_def)
qed

text \<open>A key that is taken: the stored payment, or the conflict.\<close>

lemma Create_held:
  assumes nf: "no_faults cx" and rd: "readable cx p"
    and amount: "0 < sint (p_AmountCents p)" and pending: "p_Status p = PaymentStatusPending"
    and key: "p_IdempotencyKey p \<noteq> []"
    and held: "sql_find pr_idempotency_key (Some (p_IdempotencyKey p)) (payments db) = Some r"
  shows "Create cx p db =
    (if derefString (pr_idempotency_request_hash r) = p_IdempotencyHash p
     then Inr (row_payment r, False) else Inl ErrIdempotencyConflict, db)"
proof -
  from rd obtain v where v: "payment_values cx p (key_of p) (hash_of p) = Inr v" by (rule readable_values)
  have taken: "pr_idempotency_key v \<in> set (map pr_idempotency_key (payments db))"
    "pr_idempotency_key v \<noteq> None"
    using payment_values_Inr [OF v] key sql_find_Some [OF held] by auto (metis imageI)
  then have "insert_payment True (Inr v) db = Inr (None, db)"
    using values_checks [OF v amount pending] by (simp add: insert_payment_def)
  with v nf key held show ?thesis
    by (auto simp: Create_def replay_existing_def)
qed

text \<open>The service on top of it.\<close>

lemma PaymentService_Create_accepted:
  assumes "validateCreatePayment cx (normalize_create cx request) (trim_space ikey) = None"
    and "Create cx (new_payment cx (normalize_create cx request) (trim_space ikey)) db = (res, db')"
  shows "PaymentService_Create PostgresPaymentRepository cx request ikey db
    = ((case res of Inl e \<Rightarrow> Inl (if errors_is e ErrIdempotencyConflict then ErrIdempotencyConflict else e)
        | Inr qc \<Rightarrow> Inr qc), db')"
  using assms by (simp add: PaymentService_Create_def Let_def split: sum.splits prod.splits)

definition request_ready :: "'x ctx_scheme \<Rightarrow> create_payment_request \<Rightarrow> string \<Rightarrow> pay_db \<Rightarrow> bool" where
  "request_ready cx request ikey db \<longleftrightarrow>
     no_faults cx \<and> validateCreatePayment cx (normalize_create cx request) (trim_space ikey) = None
     \<and> readable cx (new_payment cx (normalize_create cx request) (trim_space ikey))
     \<and> event_storable cx db
     \<and> (\<exists>u. pg_uuid cx (cx_uuid cx 0) = Some u \<and> u \<notin> set (map pr_id (payments db)) \<and> pg_text_ok u)"

lemma service_create_fresh:
  assumes ready: "request_ready cx request ikey db"
    and key: "trim_space ikey \<noteq> [] \<Longrightarrow> Some (trim_space ikey) \<notin> set (map pr_idempotency_key (payments db))"
  shows "\<exists>r e. PaymentService_Create PostgresPaymentRepository cx request ikey db
      = (Inr (row_payment r, True), db\<lparr>payments := payments db @ [r], outbox := outbox db @ [e]\<rparr>)
    \<and> pr_idempotency_key r = nullableString (trim_space ikey)"
proof -
  let ?p = "new_payment cx (normalize_create cx request) (trim_space ikey)"
  from ready obtain u where u: "pg_uuid cx (p_ID ?p) = Some u" "u \<notin> set (map pr_id (payments db))" "pg_text_ok u"
    by (auto simp: request_ready_def)
  have amount: "0 < sint (p_AmountCents ?p)"
    using ready by (auto simp: request_ready_def validateCreatePayment_None)
  from ready u amount key Create_fresh [of cx ?p db u] obtain r e where
    "Create cx ?p db = (Inr (row_payment r, True), db\<lparr>payments := payments db @ [r], outbox := outbox db @ [e]\<rparr>)"
    "payment_values cx ?p (key_of ?p) (hash_of ?p) = Inr r"
    by (auto simp: request_ready_def)
  with ready PaymentService_Create_accepted [of cx request ikey db] payment_values_Inr [of cx ?p "key_of ?p" "hash_of ?p" r]
  show ?thesis by (intro exI [of _ r] exI [of _ e]) (simp add: request_ready_def key_of_def)
qed

lemma service_create_held:
  assumes ready: "request_ready cx request ikey db" and key: "trim_space ikey \<noteq> []"
    and held: "sql_find pr_idempotency_key (Some (trim_space ikey)) (payments db) = Some r"
  shows "PaymentService_Create PostgresPaymentRepository cx request ikey db =
    (if derefString (pr_idempotency_request_hash r) = createPaymentRequestHash cx (normalize_create cx request)
     then Inr (row_payment r, False) else Inl ErrIdempotencyConflict, db)"
proof -
  let ?p = "new_payment cx (normalize_create cx request) (trim_space ikey)"
  have "0 < sint (p_AmountCents ?p)"
    using ready by (auto simp: request_ready_def validateCreatePayment_None)
  with ready key held Create_held [of cx ?p db r] PaymentService_Create_accepted [of cx request ikey db]
  show ?thesis by (simp add: request_ready_def)
qed

section \<open>Status updates\<close>

lemma update_lost:
  assumes "no_faults cx" and "pg_uuid cx pid = Some u"
    and "\<forall>r \<in> set (payments db). pr_id r = u \<longrightarrow> pr_status r \<noteq> prev"
  shows "update_write PostgresPaymentRepository cx pid prev new db = (Inl ErrPaymentNotFound, db)"
proof -
  have "find (\<lambda>r. pr_id r = u \<and> pr_status r = prev) (payments db) = None"
    using assms(3) by (auto simp: find_None_iff)
  with assms show ?thesis
    by (simp add: update_write_def UpdateStatus_def update_payment_status_def Let_def)
qed

lemma status_update_row:
  assumes "distinct (map pr_id rows)" and "r \<in> set rows" and "pr_status r = prev"
  shows "find (\<lambda>r'. pr_id r' = pr_id r \<and> pr_status r' = prev) rows = Some r"
  using assms
proof (induction rows)
  case (Cons x rows)
  then show ?case by (cases "x = r") (auto simp: image_iff)
qed simp

lemma UpdateStatus_ok:
  assumes nf: "no_faults cx" and u: "pg_uuid cx pid = Some (pr_id r)" and r: "r \<in> set (payments db)"
    and ids: "distinct (map pr_id (payments db))" and prev: "pr_status r = prev"
    and checks: "payment_checks (r\<lparr>pr_status := new, pr_updated_at := cx_now cx\<rparr>)"
    and es: "event_storable cx db" and text_ok: "pg_text_ok (pr_id r)"
  shows "\<exists>e. UpdateStatus cx pid prev new db =
    (Inr (row_payment (r\<lparr>pr_status := new, pr_updated_at := cx_now cx\<rparr>)),
     db\<lparr>payments := sql_update (\<lambda>r'. pr_id r' = pr_id r \<and> pr_status r' = prev)
                  (\<lambda>r'. r'\<lparr>pr_status := new, pr_updated_at := cx_now cx\<rparr>) (payments db),
        outbox := outbox db @ [e]\<rparr>)"
proof -
  let ?w = "r\<lparr>pr_status := new, pr_updated_at := cx_now cx\<rparr>"
  let ?ps = "sql_update (\<lambda>r'. pr_id r' = pr_id r \<and> pr_status r' = prev)
                  (\<lambda>r'. r'\<lparr>pr_status := new, pr_updated_at := cx_now cx\<rparr>) (payments db)"
  have upd: "update_payment_status cx pid new prev db = Inr (Some ?w, db\<lparr>payments := ?ps\<rparr>)"
    using u status_update_row [OF ids r prev] checks by (simp add: update_payment_status_def Let_def)
  obtain ev where ev: "newPaymentEvent cx (pr_id r) PaymentStatusChangedEvent
      (map_option (payment_status_changed_payload prev (row_payment ?w)) (time_json cx (cx_now cx))) = Inr ev"
    using es by (auto simp: event_storable_def newPaymentEvent_def)
  from event_stored [OF es nf ev text_ok, of "db\<lparr>payments := ?ps\<rparr>"] obtain e
    where "insertOutboxEvent cx 1 ev (db\<lparr>payments := ?ps\<rparr>) = Inr (db\<lparr>payments := ?ps, outbox := outbox db @ [e]\<rparr>)"
    by auto
  with nf upd ev show ?thesis
    by (intro exI [of _ e]) (simp add: UpdateStatus_def NewPaymentStatusChanged_def)
qed

lemma GetByID_found:
  assumes "no_faults cx" and "pg_uuid cx pid = Some (pr_id r)" and "r \<in> set (payments db)"
    and "distinct (map pr_id (payments db))"
  shows "GetByID cx pid db = Inr (row_payment r)"
  using assms sql_find_unique [OF assms(4,3)] by (simp add: GetByID_def)

section \<open>Delivering a batch\<close>

context outbox_store
begin

lemma publish_step_delivers:
  assumes "knows (pe_mark env) (oe_ID e)" and "pe_write env (env_message topic env e) = WriteOk"
    and "\<And>i at s. knows (pe_mark env) i \<Longrightarrow> fst (store_MarkPublished S (pe_mark env) i at s) = Inr ()"
  shows "pub_log (publish_step S topic env e st) = pub_log st @ [env_message topic env e]"
    and "view (pub_store (publish_step S topic env e st))
      = sql_update (\<lambda>x. oe_ID x = oe_ID e) (published_event (pe_now env)) (view (pub_store st))"
  using assms(2) mark_published [OF assms(1) surjective_pairing, of "pe_now env" "pub_store st"]
    assms(3) [OF assms(1), of "pe_now env" "pub_store st"]
  by (simp_all add: write_message_def publish_step_store)

lemma publish_events_delivers:
  assumes "\<forall>i. \<forall>e \<in> set es. knows (pe_mark (env i)) (oe_ID e)" and "\<forall>i m. pe_write (env i) m = WriteOk"
    and "\<forall>k i at s. knows (pe_mark (env k)) i \<longrightarrow> fst (store_MarkPublished S (pe_mark (env k)) i at s) = Inr ()"
  shows "(\<exists>ms. pub_log (publish_events S topic env k es st) = pub_log st @ ms \<and> list_all2 (carries topic) es ms)
    \<and> (\<forall>x \<in> set (view (pub_store (publish_events S topic env k es st))).
      oe_Status x = OutboxStatusPublished \<or> (oe_ID x \<notin> oe_ID ` set es \<and> x \<in> set (view (pub_store st))))"
  using assms
proof (induction es arbitrary: k st)
  case (Cons e es)
  let ?st = "publish_step S topic (env k) e st"
  have "knows (pe_mark (env k)) (oe_ID e)" "pe_write (env k) (env_message topic (env k) e) = WriteOk"
    using Cons.prems by auto
  note del = publish_step_delivers [OF this, of st] and prems = Cons.prems(2,3)
  have "\<forall>i. \<forall>e \<in> set es. knows (pe_mark (env i)) (oe_ID e)" using Cons.prems(1) by simp
  from Cons.IH [OF this prems, of "Suc k" ?st] obtain ms where
    ms: "pub_log (publish_events S topic env (Suc k) es ?st) = pub_log ?st @ ms" "list_all2 (carries topic) es ms"
    and pub: "\<forall>x \<in> set (view (pub_store (publish_events S topic env (Suc k) es ?st))).
      oe_Status x = OutboxStatusPublished \<or> (oe_ID x \<notin> oe_ID ` set es \<and> x \<in> set (view (pub_store ?st)))"
    by blast
  show ?case
  proof
    show "\<exists>ms. pub_log (publish_events S topic env k (e # es) st) = pub_log st @ ms
        \<and> list_all2 (carries topic) (e # es) ms"
      using ms del(1) prems(2) by (intro exI [of _ "env_message topic (env k) e # ms"]) simp
    show "\<forall>x \<in> set (view (pub_store (publish_events S topic env k (e # es) st))).
      oe_Status x = OutboxStatusPublished \<or> (oe_ID x \<notin> oe_ID ` set (e # es) \<and> x \<in> set (view (pub_store st)))"
      using pub del(2) prems(2) by (fastforce simp: set_sql_update split: if_splits)
  qed
qed simp

lemma publish_batch_delivers:
  assumes ids: "distinct (map oe_ID (view (pub_store st)))"
    and known: "\<forall>i. \<forall>x \<in> set (view (pub_store st)). knows (pe_mark (env i)) (oe_ID x)"
    and ok: "\<forall>i m. pe_write (env i) m = WriteOk"
      "\<forall>k i at s. knows (pe_mark (env k)) i \<longrightarrow> fst (store_MarkPublished S (pe_mark (env k)) i at s) = Inr ()"
    and claim: "store_ClaimPending S cx n (pub_store st) = (Inr es, s)"
    and run: "PublishBatch S topic cx env n st = (res, st')"
  shows "res = None \<and> (\<exists>ms. pub_log st' = pub_log st @ ms \<and> list_all2 (carries topic) es ms)
    \<and> (\<forall>x \<in> set (view (pub_store st')). oe_ID x \<in> oe_ID ` set es \<longrightarrow> oe_Status x = OutboxStatusPublished)"
proof -
  have "\<forall>i. \<forall>e \<in> set es. knows (pe_mark (env i)) (oe_ID e)"
    using claim_ok [OF ids claim] known by fastforce
  from publish_events_delivers [OF this ok,
      of topic 0 "st\<lparr>pub_store := s, pub_metrics := pub_metrics st @ AddOutboxClaimed (length es)\<rparr>"]
    claim run
  show ?thesis by (auto simp: PublishBatch_def)
qed

end

end
