(* ===== verification/Samples.thy ===== *)
theory Samples
  imports Go_Runtime
begin

text \<open>
  Concrete libraries and call environments, on which the witnesses of the properties evaluate
  the model: every UUID is its own text, the digest is the first byte, a JSON document is kept
  as it is written, and nothing fails.
\<close>

definition sample_lib :: lib where
  "sample_lib =
     \<lparr>tab_upper = id, tab_lower = id, tab_is_upper = (\<lambda>r. r = 0xC9), tab_is_letter = (\<lambda>r. r = 0xC9),
      uuid_parse = (\<lambda>_. True), pg_uuid = Some, sha256 = take 1,
      json_text = (\<lambda>_. ''{}''), json_parse = (\<lambda>_. Some (JObj [])),
      json_scan = (\<lambda>_. ScanValue (JObj [])), json_error = (\<lambda>_. ''unexpected end of JSON input''),
      pg_jsonb = Some, pg_before = (\<lambda>_ _. True), time_json = (\<lambda>_. Some ''2026-01-01T00:00:00Z'')\<rparr>"

definition sample_ctx :: "string \<Rightarrow> ctx" where
  "sample_ctx tag =
     lib.extend sample_lib
       \<lparr>cx_uuid = (\<lambda>k. (if k = 0 then CHR ''a'' else CHR ''b'') # tag), cx_now = 1000, cx_begin = None,
        cx_stmt = (\<lambda>_. None), cx_commit = CommitOk, cx_traceparent = [], cx_tracestate = [],
        cx_locked = (\<lambda>_. False), cx_returning = (\<lambda>_. [])\<rparr>"

lemma sample_ctx_lib [simp]: "lib.truncate (sample_ctx tag) = sample_lib"
  by (simp add: sample_ctx_def lib.defs sample_lib_def)

lemma sample_ctx_simps [simp]:
  "cx_begin (sample_ctx tag) = None" "cx_stmt (sample_ctx tag) k = None"
  "cx_commit (sample_ctx tag) = CommitOk" "cx_now (sample_ctx tag) = 1000"
  "cx_uuid (sample_ctx tag) k = (if k = 0 then CHR ''a'' else CHR ''b'') # tag"
  "pg_uuid (sample_ctx tag) = Some" "pg_jsonb (sample_ctx tag) = Some"
  "uuid_parse (sample_ctx tag) x = True"
  "time_json (sample_ctx tag) t = Some ''2026-01-01T00:00:00Z''"
  "cx_traceparent (sample_ctx tag) = []" "cx_tracestate (sample_ctx tag) = []"
  "cx_locked (sample_ctx tag) i = False"
  by (simp_all add: sample_ctx_def sample_lib_def lib.defs)

end
