(* ===== verification/Payment_Samples.thy ===== *)
theory Payment_Samples
  imports Payment_Progress Samples
begin

text \<open>
  A request, the tables after it was served, and its repetition, evaluated: the concrete
  inputs of the witnesses of the payment properties.
\<close>

section \<open>Sample requests\<close>

definition sample_request :: create_payment_request where
  "sample_request = \<lparr>cr_AmountCents = 2500, cr_Currency = '' usd'', cr_Description = ''x'',
                     cr_ExternalReference = []\<rparr>"

abbreviation pay_create where
  "pay_create cx request ikey db \<equiv> PaymentService_Create PostgresPaymentRepository cx request ikey db"

definition sample_hash :: string where
  "sample_hash = hex_encode ''2''"

definition sample_row :: payment_row where
  "sample_row = \<lparr>pr_id = ''a1'', pr_amount_cents = 2500, pr_currency = ''USD'', pr_status = ''pending'',
     pr_description = Some ''x'', pr_external_reference = None, pr_idempotency_key = Some ''k'',
     pr_idempotency_request_hash = Some sample_hash, pr_created_at = 1000, pr_updated_at = 1000\<rparr>"

definition sample_outbox_row :: outbox_row where
  "sample_outbox_row = \<lparr>ob_id = ''b1'', ob_aggregate_type = ''payment'', ob_aggregate_id = ''a1'',
     ob_event_type = ''payment.created'', ob_payload = ''{}'', ob_status = ''pending'', ob_attempts = 0,
     ob_last_error = None, ob_created_at = 1000, ob_published_at = None, ob_trace_parent = Some [],
     ob_trace_state = Some []\<rparr>"

definition sample_db :: pay_db where
  "sample_db = \<lparr>payments = [sample_row], outbox = [sample_outbox_row]\<rparr>"

abbreviation sample_payment :: payment where
  "sample_payment \<equiv> row_payment sample_row"

definition sample_system :: pay_system where
  "sample_system = initial_system\<lparr>ps_db := sample_db\<rparr>"

lemma sample_created:
  "pay_create (sample_ctx ''1'') sample_request ''k'' empty_pay_db = (Inr (sample_payment, True), sample_db)"
  by code_simp

lemma sample_repeated:
  "pay_create (sample_ctx ''2'') sample_request '' k'' sample_db = (Inr (sample_payment, False), sample_db)"
  by code_simp

lemma sample_system_simps [simp]:
  "ps_db sample_system = sample_db" "ps_db initial_system = empty_pay_db"
  "initial_system\<lparr>ps_db := sample_db\<rparr> = sample_system"
  by (simp_all add: sample_system_def initial_system_def)

lemma sample_no_faults [simp]: "no_faults (sample_ctx tag)"
  by (simp add: no_faults_def)

lemma sample_event_storable:
  "CHR ''b'' # tag \<notin> set (map ob_id (outbox db)) \<Longrightarrow> event_storable (sample_ctx tag) db"
  by (simp add: event_storable_def)

lemma sample_ready:
  assumes "validateCreatePayment (sample_ctx tag) (normalize_create (sample_ctx tag) request) (trim_space ikey) = None"
    and "readable (sample_ctx tag) (new_payment (sample_ctx tag) (normalize_create (sample_ctx tag) request) (trim_space ikey))"
    and "CHR ''a'' # tag \<notin> set (map pr_id (payments db))" and "CHR ''b'' # tag \<notin> set (map ob_id (outbox db))"
    and "pg_text_ok (CHR ''a'' # tag)"
  shows "request_ready (sample_ctx tag) request ikey db"
  using assms by (simp add: request_ready_def sample_event_storable)

lemma sample_canonical: "uuid_canonical sample_lib"
  by (simp add: uuid_canonical_def sample_lib_def)

lemma sample_create_step: "pay_step sample_lib topic initial_system sample_system"
  using pay_step.create [OF sample_ctx_lib, of "''1''" sample_request "''k''" initial_system _ sample_db]
    sample_created by simp

lemma sample_reachable: "pay_steps sample_lib topic initial_system sample_system"
  using sample_create_step by (rule r_into_rtranclp)

text \<open>The event of the sample payment, claimed, written to the topic and marked.\<close>

definition sample_claimed_db :: pay_db where
  "sample_claimed_db = \<lparr>payments = [sample_row], outbox = [claim_row sample_outbox_row]\<rparr>"

abbreviation sample_event :: outbox_event where
  "sample_event \<equiv> row_event (claim_row sample_outbox_row)"

lemma sample_claim: "ClaimPending (sample_ctx ''c'') 0 sample_db = (Inr [sample_event], sample_claimed_db)"
  by code_simp

definition sample_env :: "ctx publish_env" where
  "sample_env = \<lparr>pe_write = (\<lambda>_. WriteOk), pe_carrier = [], pe_now = 2000, pe_mark = sample_ctx ''m''\<rparr>"

definition sample_published_row :: outbox_row where
  "sample_published_row = (claim_row sample_outbox_row)\<lparr>ob_status := OutboxStatusPublished,
     ob_published_at := Some 2000, ob_last_error := None\<rparr>"

definition sample_published :: pay_system where
  "sample_published = \<lparr>ps_db = \<lparr>payments = [sample_row], outbox = [sample_published_row]\<rparr>,
     ps_log = [event_message ''t'' [] sample_event], ps_updates = [], ps_claimed = []\<rparr>"

lemma sample_publish:
  "publish_step PostgresOutboxRepository ''t'' sample_env sample_event
     \<lparr>pub_store = sample_claimed_db, pub_log = [], pub_metrics = []\<rparr>
   = \<lparr>pub_store = ps_db sample_published, pub_log = ps_log sample_published,
      pub_metrics = [KafkaPublished ''payment.created'' ''success'']\<rparr>"
  by code_simp

lemma sample_published_reachable: "pay_steps sample_lib ''t'' initial_system sample_published"
proof -
  let ?claimed = "sample_system\<lparr>ps_db := sample_claimed_db, ps_claimed := [sample_event]\<rparr>"
  have "pay_step sample_lib ''t'' sample_system ?claimed"
    using pay_step.claim [OF sample_ctx_lib, of "''c''" 0 sample_system "Inr [sample_event]" sample_claimed_db "''t''"] sample_claim
    by (simp add: sample_system_def initial_system_def)
  moreover have "pay_step sample_lib ''t'' ?claimed sample_published"
    using pay_step.publish [of sample_env sample_lib sample_event ?claimed "''t''"] sample_publish
    by (simp add: sample_system_def initial_system_def sample_env_def sample_published_def)
  ultimately show ?thesis
    by (meson sample_create_step converse_rtranclp_into_rtranclp rtranclp.rtrancl_refl)
qed

end
