(* ===== verification/Payment_Properties.thy ===== *)
theory Payment_Properties
  imports Payment_Samples
begin

text \<open>
  The properties of the payment service: its API, its tables and its publisher.
\<close>

lemma reachable_store:
  assumes "pay_steps L topic initial_system s" and "uuid_canonical L"
  shows "sys_inv L topic s" and "store_inv (ps_db s)"
proof -
  show "sys_inv L topic s" by (rule sys_inv_steps [OF assms(1) sys_inv_initial assms(2)])
  then show "store_inv (ps_db s)" unfolding sys_inv_def using pay_inv_store_inv by blast
qed

section \<open>Idempotency\<close>

text \<open>
  C4. Idempotent creation. In the running system, once a creation under an idempotency key has
  succeeded, every later success under that key, with any request and after any interleaving
  of API calls, status updates, publisher steps and crashes, answers with the same payment (identifier, amount,
  currency), reports that nothing was created, and changes no table.
\<close>

theorem create_same_key_same_payment:
  fixes cx cx' :: ctx
  assumes "pay_steps L topic initial_system s" and canon: "uuid_canonical L"
    and lib: "lib.truncate cx = L"
    and key: "trim_space ikey \<noteq> []" "trim_space ikey' = trim_space ikey"
    and first: "pay_create cx request ikey (ps_db s) = (Inr (q, c), db)"
    and later: "pay_steps L topic (s\<lparr>ps_db := db\<rparr>) s'"
    and again: "pay_create cx' request' ikey' (ps_db s') = (Inr (q', c'), db')"
  shows "\<not> c' \<and> db' = ps_db s' \<and> p_ID q' = p_ID q \<and> p_AmountCents q' = p_AmountCents q
    \<and> p_Currency q' = p_Currency q"
proof -
  note inv = reachable_store [OF assms(1,2)]
  have step: "pay_step L topic s (s\<lparr>ps_db := db\<rparr>)" by (rule pay_step.create [OF lib first])
  from sys_inv_step [OF step inv(1) canon] have inv1: "sys_inv L topic (s\<lparr>ps_db := db\<rparr>)" .
  from sys_inv_steps [OF later inv1 canon] have inv2: "sys_inv L topic s'" .
  then have store2: "store_inv (ps_db s')" unfolding sys_inv_def using pay_inv_store_inv by blast
  have "q \<in> set (stored_payments db)" "p_IdempotencyKey q = trim_space ikey"
    using pg.create_success [OF inv(2) first] by (auto simp: added_def same_request_def)
  then obtain r where r: "r \<in> set (payments db)" "q = row_payment r"
    by (auto simp: stored_payments_def)
  with pay_steps_kept [OF later inv1 canon] obtain r' where r': "r' \<in> set (payments (ps_db s'))" "kept r r'"
    by (auto simp: all_kept_def)
  have held: "row_payment r' \<in> set (stored_payments (ps_db s'))"
    "p_IdempotencyKey (row_payment r') = trim_space ikey'"
    using r r' key \<open>p_IdempotencyKey q = trim_space ikey\<close> by (auto simp: stored_payments_def kept_simps)
  from pg.create_keyed_once [OF store2 held _ again] key r r' show ?thesis
    by (simp add: kept_simps)
qed

theorem create_same_key_same_payment_witness:
  "\<exists>q c db q' c' db'.
     pay_create (sample_ctx ''1'') sample_request ''k'' empty_pay_db = (Inr (q, c), db)
   \<and> pay_create (sample_ctx ''2'') sample_request '' k'' db = (Inr (q', c'), db')
   \<and> \<not> c' \<and> db' = db \<and> p_ID q' = p_ID q"
proof -
  have keys: "trim_space ''k'' \<noteq> []" "trim_space '' k'' = trim_space ''k''" by code_simp+
  from create_same_key_same_payment [of sample_lib "''t''" initial_system "sample_ctx ''1''" "''k''"
      "'' k''" sample_request _ _ _ sample_system "sample_ctx ''2''" sample_request, OF _ sample_canonical _ keys,
      simplified, OF sample_created _ ] sample_repeated sample_created
  show ?thesis by fastforce
qed



text \<open>
  C6. A retry after any failure. A client sends a keyed request; the call may fail at any
  point, also after the server has committed it. When the client repeats it and nothing
  fails this time, the call succeeds, and in the end exactly one payment is stored under the
  key: the one it is answered with.
\<close>

theorem create_retry_exactly_once:
  assumes reach: "store_inv db" and key: "trim_space ikey \<noteq> []"
    and fresh: "Some (trim_space ikey) \<notin> set (map pr_idempotency_key (payments db))"
    and lib: "lib.truncate cx = lib.truncate cx'"
    and ready: "request_ready cx' request ikey (snd (pay_create cx request ikey db))"
  shows "\<exists>q c db'. pay_create cx' request ikey (snd (pay_create cx request ikey db)) = (Inr (q, c), db')
    \<and> length (payments db') = length (payments db) + 1
    \<and> filter (\<lambda>p. p_IdempotencyKey p = trim_space ikey) (stored_payments db') = [q]"
proof -
  let ?db1 = "snd (pay_create cx request ikey db)"
  have none: "filter (\<lambda>p. p_IdempotencyKey p = trim_space ikey) (stored_payments db) = []"
    using fresh key by (auto simp: stored_payments_def filter_empty_conv dest!: derefString_nonempty)
      (metis imageI)
  have "pay_create cx request ikey db = (fst (pay_create cx request ikey db), ?db1)" by simp
  then show ?thesis
  proof (cases rule: service_create_effect)
    case unchanged
    from service_create_fresh [OF ready] fresh obtain r e where r:
      "pay_create cx' request ikey ?db1 = (Inr (row_payment r, True), db\<lparr>payments := payments db @ [r], outbox := outbox db @ [e]\<rparr>)"
      "pr_idempotency_key r = nullableString (trim_space ikey)"
      by (auto simp: unchanged)
    with none show ?thesis by (auto simp: stored_payments_def)
  next
    case (created p r e)
    have p: "p_IdempotencyKey p = trim_space ikey" "p_IdempotencyHash p = createPaymentRequestHash cx (normalize_create cx request)"
      using created(1) key by simp_all
    note vals = payment_values_Inr [of cx p "key_of p" "hash_of p" r]
    have r: "pr_idempotency_key r = Some (trim_space ikey)"
      "derefString (pr_idempotency_request_hash r) = createPaymentRequestHash cx (normalize_create cx request)"
      using created(2) vals p key by (auto simp: appends_def)
    have db1: "payments ?db1 = payments db @ [r]" using created(2) by (simp add: appends_def)
    have same: "createPaymentRequestHash cx' (normalize_create cx' request)
        = createPaymentRequestHash cx (normalize_create cx request)"
    proof -
      have "rune_upper cx' = rune_upper cx" "sha256 cx' = sha256 cx"
        using lib by (auto simp: fun_eq_iff rune_upper_def lib.truncate_def)
      then show ?thesis by (simp add: createPaymentRequestHash_def normalize_create_def to_upper_def)
    qed
    have "sql_find pr_idempotency_key (Some (trim_space ikey)) (payments ?db1) = Some r"
      using fresh r sql_find_None [of pr_idempotency_key "Some (trim_space ikey)" "payments db"]
      by (simp add: db1 sql_find_append sql_find_Cons split: option.splits)
    from service_create_held [OF ready key this] same r none db1 show ?thesis
      by (simp add: stored_payments_def) (rule exI [of _ False], simp)
  qed
qed

theorem create_retry_exactly_once_witness:
  "\<exists>q c db'. pay_create (sample_ctx ''2'') sample_request ''k''
       (snd (pay_create ((sample_ctx ''1'')\<lparr>cx_commit := CommitUnknown FaultDeadline\<rparr>) sample_request ''k'' empty_pay_db))
       = (Inr (q, c), db')
    \<and> length (payments db') = 1"
proof -
  let ?cx = "(sample_ctx ''1'')\<lparr>cx_commit := CommitUnknown FaultDeadline\<rparr>"
  have key: "trim_space ''k'' = ''k''" by code_simp
  have "snd (pay_create ?cx sample_request ''k'' empty_pay_db) = sample_db" by code_simp
  moreover have "request_ready (sample_ctx ''2'') sample_request ''k'' sample_db"
    by (rule sample_ready) (simp add: sample_db_def sample_row_def sample_outbox_row_def | code_simp)+
  moreover have "lib.truncate ?cx = lib.truncate (sample_ctx ''2'')"
    by (simp add: sample_ctx_def sample_lib_def lib.defs)
  moreover have "store_inv empty_pay_db" "payments empty_pay_db = []"
    by (simp_all add: empty_pay_db_def store_inv_def idempotency_keys_def)
  ultimately show ?thesis
    using create_retry_exactly_once [of empty_pay_db "''k''" ?cx "sample_ctx ''2''" sample_request]
    by (fastforce simp: key)
qed

section \<open>Atomicity and the tables\<close>

text \<open>
  C7. Atomic creation. Whatever request arrives and whatever fails, a creation either leaves
  every table as it was or adds exactly one payment row together with exactly one pending
  \<open>payment.created\<close> outbox row whose payload is the JSON of that payment; and a reported
  success with \<open>created\<close> set is always the second case.
\<close>

theorem create_atomic:
  "case pay_create cx request ikey db of (res, db') \<Rightarrow>
     (db' = db \<and> (\<forall>q. res \<noteq> Inr (q, True)))
   \<or> (\<exists>r e. db' = db\<lparr>payments := payments db @ [r], outbox := outbox db @ [e]\<rparr>
        \<and> payment_checks r \<and> pr_status r = PaymentStatusPending
        \<and> pr_id r \<notin> set (map pr_id (payments db))
        \<and> ob_status e = OutboxStatusPending \<and> ob_event_type e = PaymentCreatedEvent
        \<and> ob_aggregate_id e = pr_id r
        \<and> (\<exists>p t. p_ID p = pr_id r \<and> p_AmountCents p = pr_amount_cents r \<and> p_Currency p = pr_currency r
             \<and> pg_jsonb cx (json_text cx (payment_created_payload p t)) = Some (ob_payload e))
        \<and> ((\<exists>er. res = Inl er) \<or> res = Inr (row_payment r, True)))"
proof (cases "pay_create cx request ikey db")
  case (Pair res db')
  then show ?thesis
  proof (cases rule: service_create_effect)
    case (created p r e)
    have "pr_status r = PaymentStatusPending"
      using payment_values_Inr [of cx p "key_of p" "hash_of p" r] created by (simp add: appends_def)
    with created(2,3) show ?thesis
      unfolding Pair prod.case appends_def created_row_event_def
      by (intro disjI2 exI [of _ r] exI [of _ e]) blast
  qed (simp add: Pair)
qed



text \<open>
  C9. Payments are never lost or rewritten. Along every run of the system, a stored payment
  keeps its identifier, amount, currency, texts, key and creation time; once it has succeeded or
  failed, nothing of it changes any more.
\<close>

theorem payment_kept:
  assumes "pay_steps L topic initial_system s" and "uuid_canonical L"
    and "pay_steps L topic s s'" and "r \<in> set (payments (ps_db s))"
  shows "\<exists>r' \<in> set (payments (ps_db s')).
     r' = r\<lparr>pr_status := pr_status r', pr_updated_at := pr_updated_at r'\<rparr>
     \<and> (pr_status r \<noteq> PaymentStatusPending \<longrightarrow> r' = r)"
  using pay_steps_kept [OF assms(3) reachable_store(1) [OF assms(1,2)] assms(2)] assms(4)
  by (auto simp: all_kept_def kept_def)

theorem payment_kept_witness:
  "\<exists>r' \<in> set (payments sample_db). r' = sample_row\<lparr>pr_status := pr_status r', pr_updated_at := pr_updated_at r'\<rparr>"
  using payment_kept [OF sample_reachable sample_canonical rtranclp.rtrancl_refl, of sample_row]
  by (auto simp: sample_db_def)

section \<open>Publishing\<close>

text \<open>
  C10. No event is dropped as published. In every reachable state, an outbox row that is marked
  published has a message in the topic that carries it: its identifier and type in the headers,
  its aggregate as the key, its payload as the value. A crash between the Kafka write and the
  marking can only repeat a message, not lose one.
\<close>

theorem published_has_message:
  assumes "pay_steps L topic initial_system s" and "uuid_canonical L"
    and "e \<in> set (outbox (ps_db s))" and "ob_status e = OutboxStatusPublished"
  shows "\<exists>m \<in> set (ps_log s). km_Topic m = topic \<and> km_Key m = ob_aggregate_id e
    \<and> km_Value m = ob_payload e \<and> headerValue (km_Headers m) ''event_id'' = ob_id e
    \<and> headerValue (km_Headers m) ''event_type'' = ob_event_type e"
proof -
  from reachable_store(1) [OF assms(1,2)]
  have "published_in topic (map row_event (outbox (ps_db s))) (ps_log s)"
    by (simp add: sys_inv_def outbox_view_def)
  with assms(3,4) obtain m where "m \<in> set (ps_log s)" "carries topic (row_event e) m"
    by (fastforce simp: published_in_def)
  then show ?thesis by (auto simp: carries_def row_event_def)
qed

theorem published_has_message_witness:
  "\<exists>m \<in> set (ps_log sample_published). km_Key m = ob_aggregate_id sample_published_row"
proof -
  have "sample_published_row \<in> set (outbox (ps_db sample_published))"
    "ob_status sample_published_row = OutboxStatusPublished"
    by (simp_all add: sample_published_def sample_published_row_def)
  from published_has_message [OF sample_published_reachable sample_canonical this] show ?thesis by blast
qed



text \<open>
  C12. A batch without failures. When the claim succeeds and no Kafka write and no marking fails, the
  batch appends to the topic exactly one message for each claimed event, in the order of the
  claim, and leaves every claimed event published.
\<close>

theorem batch_delivers_claimed:
  assumes "distinct (map ob_id (outbox (pub_store st)))"
    and "\<forall>i. \<forall>e \<in> set (outbox (pub_store st)). pg_uuid (pe_mark (env i)) (ob_id e) = Some (ob_id e)"
    and "\<forall>i m. pe_write (env i) m = WriteOk" and "\<forall>i. no_faults (pe_mark (env i))"
    and "ClaimPending cx n (pub_store st) = (Inr es, db)"
    and "PublishBatch PostgresOutboxRepository topic cx env n st = (res, st')"
  shows "res = None
    \<and> (\<exists>ms. pub_log st' = pub_log st @ ms \<and> list_all2 (carries topic) es ms)
    \<and> (\<forall>x \<in> set (outbox (pub_store st')). ob_id x \<in> oe_ID ` set es \<longrightarrow> ob_status x = OutboxStatusPublished)"
proof -
  have known: "\<forall>i. \<forall>x \<in> set (outbox_view (pub_store st)). pg_knows (pe_mark (env i)) (oe_ID x)"
    using assms(2) by (simp add: outbox_view_def pg_knows_def)
  have "fst (store_MarkPublished PostgresOutboxRepository (pe_mark (env k)) i at s) = Inr ()"
    if "pg_knows (pe_mark (env k)) i" for k i at s
    using that assms(4) by (simp add: MarkPublished_def exec_update_def pg_knows_def no_faults_def stmt_def)
  with pg_outbox.publish_batch_delivers [of st env cx n es db topic res st'] assms known
  show ?thesis by (auto simp: view_ids) (auto simp: outbox_view_def)
qed

theorem batch_delivers_claimed_witness:
  "\<exists>ms. pub_log (snd (PublishBatch PostgresOutboxRepository ''t'' (sample_ctx ''c'') (\<lambda>_. sample_env) 0
     \<lparr>pub_store = sample_db, pub_log = [], pub_metrics = []\<rparr>)) = ms \<and> list_all2 (carries ''t'') [sample_event] ms"
  using batch_delivers_claimed [of "\<lparr>pub_store = sample_db, pub_log = [], pub_metrics = []\<rparr>" "\<lambda>_. sample_env"
      "sample_ctx ''c''" 0 "[sample_event]" sample_claimed_db "''t''", OF _ _ _ _ _ surjective_pairing]
  by (simp add: sample_claim) (simp add: sample_db_def sample_env_def)

text \<open>A claim neither returns nor changes a row in state publishing.\<close>

lemma claim_skips_publishing:
  assumes "distinct (map ob_id (outbox db))" and "ClaimPending cx n db = (res, db')"
    and "e \<in> set (outbox db)" and "ob_status e = OutboxStatusPublishing"
  shows "e \<in> set (outbox db') \<and> (\<forall>es. res = Inr es \<longrightarrow> ob_id e \<notin> oe_ID ` set es)"
proof -
  have skip: "ob_id e \<notin> set (map ob_id (claimed_rows cx k db))" for k
  proof
    assume "ob_id e \<in> set (map ob_id (claimed_rows cx k db))"
    then obtain x where x: "x \<in> set (claimed_rows cx k db)" "ob_id x = ob_id e" by auto
    with claimed_rows_set [OF x(1)] assms(1,3) have "x = e" by (auto simp: distinct_map inj_on_def)
    with claimed_rows_set [OF x(1)] assms(4) show False by (simp add: claimable_def)
  qed
  have "e \<in> set (outbox (claim_update (claimed_rows cx k db) db))" for k
    using skip [of k] assms(3) by (simp add: claim_update_def set_sql_update image_iff)
  with ClaimPending_effect [OF assms(2)] assms(3)
  have "e \<in> set (outbox db')" by auto
  moreover have "ob_id e \<notin> oe_ID ` set es" if "res = Inr es" for es
    using claimed_ids(1) [OF ClaimPending_Inr(2) [OF assms(2) [unfolded that]]] skip by simp
  ultimately show ?thesis by blast
qed

definition messages_of :: "string \<Rightarrow> kafka_message list \<Rightarrow> kafka_message list" where
  "messages_of i log = filter (\<lambda>m. headerValue (km_Headers m) ''event_id'' = i) log"

lemma sql_update_other: "e \<in> set rows \<Longrightarrow> \<not> P e \<Longrightarrow> e \<in> set (sql_update P f rows)"
  by (force simp: set_sql_update)

lemma mark_other:
  assumes "exec_update cx msg i texts write db = (res, db')" and "pg_knows cx i"
    and "e \<in> set (outbox db)" and "ob_id e \<noteq> i" and "write = set_published at \<or> write = set_failed reason"
  shows "e \<in> set (outbox db')"
proof -
  have "e \<in> set (outbox (write i db))"
    using assms(3-5) by (elim disjE) (simp_all add: set_published_def set_failed_def sql_update_other)
  with exec_update_effect [OF assms(1,2)] assms(3) show ?thesis by auto
qed

text \<open>A row in state publishing that no process holds stays as it is, and no message of it is added.\<close>

definition abandoned :: "outbox_row \<Rightarrow> pay_system \<Rightarrow> bool" where
  "abandoned e s \<longleftrightarrow> e \<in> set (outbox (ps_db s)) \<and> ob_status e = OutboxStatusPublishing \<and> ob_id e \<notin> oe_ID ` set (ps_claimed s)"

lemma pay_step_abandoned:
  assumes step: "pay_step L topic s s'" and inv: "sys_inv L topic s" and ab: "abandoned e s"
  shows "abandoned e s' \<and> messages_of (ob_id e) (ps_log s') = messages_of (ob_id e) (ps_log s)"
  using step
proof cases
  case (create cx request ikey res db)
  from create(3) show ?thesis
    by (cases rule: service_create_effect) (use create(1) ab in \<open>auto simp: abandoned_def appends_def\<close>)
next
  case (update cx pid prev new res db)
  from update(4) show ?thesis
    by (cases rule: service_update_effect) (use update(1) ab in \<open>auto simp: abandoned_def moves_def\<close>)
next
  case (claim cx n res db)
  have "distinct (map ob_id (outbox (ps_db s)))" using inv by (simp add: sys_inv_def pay_inv_def)
  from claim_skips_publishing [OF this claim(3)] ab claim(1) show ?thesis
    by (cases res) (auto simp: abandoned_def)
next
  case (publish env e' db log ms)
  let ?st = "\<lparr>pub_store = ps_db s, pub_log = ps_log s, pub_metrics = []\<rparr>"
  have other: "oe_ID e' \<noteq> ob_id e" using publish(3) ab by (force simp: abandoned_def)
  have "content e' \<in> row_content ` set (outbox (ps_db s))" using publish(3) inv by (auto simp: sys_inv_def)
  then obtain x where x: "x \<in> set (outbox (ps_db s))" "content e' = row_content x" by blast
  then have "oe_ID e' = ob_id x" by (simp add: content_def row_content_def)
  with x(1) inv have known: "pg_knows (pe_mark env) (oe_ID e')"
    by (simp add: pg_knows_def lib_eq(4) [of "pe_mark env" L] publish(2) sys_inv_def outbox_canonical_def)
  have e: "e \<in> set (outbox (ps_db s))" "ob_id e \<noteq> oe_ID e'" using ab other by (auto simp: abandoned_def)
  have "e \<in> set (outbox (snd (MarkPublished (pe_mark env) (oe_ID e') (pe_now env) (ps_db s))))"
    "e \<in> set (outbox (snd (MarkFailed (pe_mark env) (oe_ID e') reason (ps_db s))))" for reason
    unfolding MarkPublished_def MarkFailed_def
    by (rule mark_other [OF surjective_pairing known e, where at = "pe_now env" and reason = reason]; simp)+
  then have "e \<in> set (outbox (pub_store (publish_step PostgresOutboxRepository topic env e' ?st)))"
    unfolding publish_step_store by (simp split: option.split)
  then have "e \<in> set (outbox db)" using publish(4) by simp
  moreover have "log = snd (env_write topic env e' (ps_log s))" using arg_cong [OF publish(4), of pub_log] by simp
  then have "messages_of (ob_id e) log = messages_of (ob_id e) (ps_log s)"
    using other by (auto simp: messages_of_def write_message_def event_message_def split: write_outcome.split)
  ultimately show ?thesis
    using publish(1) ab set_remove1_subset [of e' "ps_claimed s"] by (auto simp: abandoned_def)
next
  case (crash us cs)
  with ab show ?thesis by (auto simp: abandoned_def)
qed (use ab in \<open>simp_all add: abandoned_def\<close>)

text \<open>
  C13. A claimed event whose publisher dies is never published. Once an outbox row is in state publishing and no running
  process holds its event (the publisher crashed between claiming and marking), the row stays exactly as it is and the topic
  gets no message of its event, whatever requests, claims, publications and crashes follow: no
  claim ever takes the row again.
\<close>

theorem abandoned_never_published:
  assumes "pay_steps L topic initial_system s" and canon: "uuid_canonical L"
    and row: "e \<in> set (outbox (ps_db s))" "ob_status e = OutboxStatusPublishing" "ob_id e \<notin> oe_ID ` set (ps_claimed s)"
    and later: "pay_steps L topic s s'"
  shows "e \<in> set (outbox (ps_db s')) \<and> messages_of (ob_id e) (ps_log s') = messages_of (ob_id e) (ps_log s)"
proof -
  note inv = reachable_store(1) [OF assms(1) canon]
  from later have "abandoned e s' \<and> messages_of (ob_id e) (ps_log s') = messages_of (ob_id e) (ps_log s)"
  proof (induction rule: rtranclp_induct)
    case base
    from row show ?case by (simp add: abandoned_def)
  next
    case (step y z)
    with pay_step_abandoned [OF step(2) sys_inv_steps [OF step(1) inv canon]] show ?case by simp
  qed
  then show ?thesis by (simp add: abandoned_def)
qed

text \<open>The sample payment's event claimed by a publisher that then crashed; another publisher claims.\<close>

definition sample_abandoned :: pay_system where
  "sample_abandoned = sample_system\<lparr>ps_db := sample_claimed_db\<rparr>"

lemma sample_abandoned_steps: "pay_steps sample_lib topic initial_system sample_abandoned"
proof -
  let ?claimed = "sample_system\<lparr>ps_db := sample_claimed_db, ps_claimed := [sample_event]\<rparr>"
  have "pay_step sample_lib topic sample_system ?claimed"
    using pay_step.claim [OF sample_ctx_lib, of "''c''" 0 sample_system "Inr [sample_event]" sample_claimed_db topic] sample_claim
    by (simp add: sample_system_def initial_system_def)
  moreover have "pay_step sample_lib topic ?claimed sample_abandoned"
    using pay_step.crash [of "[]" ?claimed "[]" sample_lib topic] by (simp add: sample_abandoned_def sample_system_def initial_system_def)
  ultimately show ?thesis using sample_reachable by (meson rtranclp.rtrancl_into_rtrancl)
qed

lemma sample_claim_again: "ClaimPending (sample_ctx ''d'') 0 sample_claimed_db = (Inr [], sample_claimed_db)"
  by code_simp

theorem abandoned_never_published_witness:
  "\<exists>s'. pay_step sample_lib ''t'' sample_abandoned s' \<and> claim_row sample_outbox_row \<in> set (outbox (ps_db s')) \<and> messages_of ''b1'' (ps_log s') = []"
proof -
  let ?s = "sample_abandoned\<lparr>ps_db := sample_claimed_db, ps_claimed := ps_claimed sample_abandoned @ []\<rparr>"
  have step: "pay_step sample_lib ''t'' sample_abandoned ?s"
    using pay_step.claim [OF sample_ctx_lib, of "''d''" 0 sample_abandoned "Inr []" sample_claimed_db "''t''"] sample_claim_again
    by (simp add: sample_abandoned_def)
  then have later: "pay_steps sample_lib ''t'' sample_abandoned ?s" by (rule r_into_rtranclp)
  have row: "claim_row sample_outbox_row \<in> set (outbox (ps_db sample_abandoned))" "ob_status (claim_row sample_outbox_row) = OutboxStatusPublishing"
    "ob_id (claim_row sample_outbox_row) \<notin> oe_ID ` set (ps_claimed sample_abandoned)" "ob_id (claim_row sample_outbox_row) = ''b1''"
    "ps_log sample_abandoned = []"
    by (simp_all add: sample_abandoned_def sample_claimed_db_def claim_row_def sample_outbox_row_def sample_system_def initial_system_def)
  from abandoned_never_published [OF sample_abandoned_steps sample_canonical row(1-3) later] row(4,5) step
  show ?thesis by (auto simp: messages_of_def)
qed

section \<open>Status updates\<close>



text \<open>
  C15. The lost race. When another transaction moves the payment out of the status that an update has read
  before the update writes, the update answers that the payment does not exist, although the same
  tables still hold it and a lookup by the same identifier finds it. Nothing is changed.
\<close>

theorem lost_update_not_found:
  assumes inv: "store_inv (others db)" and read: "update_read PostgresPaymentRepository cx ident request db = Write pid prev new"
    and r: "r \<in> set (payments (others db))" "pg_uuid cx' pid = Some (pr_id r)" "pr_status r \<noteq> prev"
    and nf: "no_faults cx'"
  shows "PaymentService_UpdateStatus PostgresPaymentRepository cx cx' others ident request db
      = (Inl ErrPaymentNotFound, others db)
    \<and> GetByID cx' pid (others db) = Inr (row_payment r)"
proof
  have ids: "distinct (map pr_id (payments (others db)))" using inv by (simp add: store_inv_def)
  show "GetByID cx' pid (others db) = Inr (row_payment r)" by (rule GetByID_found [OF nf r(2,1) ids])
  have "\<forall>r' \<in> set (payments (others db)). pr_id r' = pr_id r \<longrightarrow> pr_status r' \<noteq> prev"
    using r(1,3) ids by (auto simp: distinct_map inj_on_def)
  from update_lost [OF nf r(2) this] read
  show "PaymentService_UpdateStatus PostgresPaymentRepository cx cx' others ident request db
      = (Inl ErrPaymentNotFound, others db)"
    by (simp add: PaymentService_UpdateStatus_def)
qed

theorem lost_update_not_found_witness:
  "PaymentService_UpdateStatus PostgresPaymentRepository (sample_ctx ''u'') (sample_ctx ''v'')
     (\<lambda>_. \<lparr>payments = [sample_row\<lparr>pr_status := PaymentStatusFailed\<rparr>], outbox = []\<rparr>) ''a1'' \<lparr>ur_Status = ''succeeded''\<rparr> sample_db
   = (Inl ErrPaymentNotFound, \<lparr>payments = [sample_row\<lparr>pr_status := PaymentStatusFailed\<rparr>], outbox = []\<rparr>)"
proof -
  have "update_read PostgresPaymentRepository (sample_ctx ''u'') ''a1'' \<lparr>ur_Status = ''succeeded''\<rparr> sample_db
      = Write ''a1'' ''pending'' ''succeeded''" by code_simp
  from lost_update_not_found [of "\<lambda>_. \<lparr>payments = [sample_row\<lparr>pr_status := PaymentStatusFailed\<rparr>], outbox = []\<rparr>",
      OF _ this, of "sample_row\<lparr>pr_status := PaymentStatusFailed\<rparr>" "sample_ctx ''v''"]
  show ?thesis by (simp add: store_inv_def idempotency_keys_def sample_row_def status_defs)
qed

section \<open>Validation and the request hash\<close>

text \<open>
  What a creation accepts. A successful creation, of whatever request, has a positive
  amount, a currency of three bytes that are ASCII upper-case letters when they are ASCII at all, a
  description of at most 500 bytes, and an external reference and a key of at most 120 bytes, all of them counted after trimming.
\<close>

theorem created_payment_valid:
  assumes run: "pay_create cx request ikey db = (Inr (q, c), db')"
  shows "0 < sint (cr_AmountCents request)
    \<and> length (cr_Currency (normalize_create cx request)) = 3
    \<and> (is_ascii (cr_Currency (normalize_create cx request))
         \<longrightarrow> list_all (\<lambda>ch. 65 \<le> byte ch \<and> byte ch \<le> 90) (cr_Currency (normalize_create cx request)))
    \<and> length (cr_Description (normalize_create cx request)) \<le> 500
    \<and> length (cr_ExternalReference (normalize_create cx request)) \<le> 120
    \<and> length (trim_space ikey) \<le> 120
    \<and> trimmed (cr_Description (normalize_create cx request))
    \<and> trimmed (cr_ExternalReference (normalize_create cx request))"
proof -
  let ?req = "normalize_create cx request"
  from run have "validateCreatePayment cx ?req (trim_space ikey) = None"
    by (cases rule: pg.create_cases) auto
  then have v: "0 < sint (cr_AmountCents ?req)" "length (cr_Currency ?req) = 3"
    "list_all (\<lambda>r. rune_is_letter cx r \<and> rune_is_upper cx r) (runes (cr_Currency ?req))"
    "length (cr_Description ?req) \<le> 500" "length (cr_ExternalReference ?req) \<le> 120" "length (trim_space ikey) \<le> 120"
    by (simp_all add: validateCreatePayment_None)
  have "list_all (\<lambda>ch. 65 \<le> byte ch \<and> byte ch \<le> 90) (cr_Currency ?req)" if "is_ascii (cr_Currency ?req)"
    using v(3) that by (auto simp: runes_ascii list_all_iff is_ascii_def rune_is_upper_def)
  with v show ?thesis
    by (auto simp: normalize_create_def trim_space_trimmed)
qed

theorem created_payment_valid_witness:
  "length (cr_Currency (normalize_create (sample_ctx ''1'') sample_request)) = 3 \<and> 0 < sint (cr_AmountCents sample_request)"
  using created_payment_valid [OF sample_created] by blast

text \<open>
  Currencies of three bytes. The length check of the currency counts bytes and the letter check
  reads runes, so a currency of two letters passes: the bytes C3 89 41 (an accented E and an A).
\<close>

theorem two_letter_currency_accepted:
  assumes "tab_is_letter ut 0xC9" and "tab_is_upper ut 0xC9"
  shows "validateCreatePayment ut
      \<lparr>cr_AmountCents = 1, cr_Currency = [CHR 0xC3, CHR 0x89, CHR ''A''], cr_Description = [], cr_ExternalReference = []\<rparr> [] = None
    \<and> length (runes [CHR 0xC3, CHR 0x89, CHR ''A'']) = 2"
proof -
  have r: "runes [CHR 0xC3, CHR 0x89, CHR ''A''] = [0xC9, 0x41]" by code_simp
  with assms show ?thesis
    by (simp add: validateCreatePayment_None rune_is_letter_def rune_is_upper_def)
qed

theorem two_letter_currency_accepted_witness:
  "validateCreatePayment (sample_ctx ''c'')
      \<lparr>cr_AmountCents = 1, cr_Currency = [CHR 0xC3, CHR 0x89, CHR ''A''], cr_Description = [], cr_ExternalReference = []\<rparr> [] = None"
  using two_letter_currency_accepted [of "sample_ctx ''c''"]
  by (simp add: sample_ctx_def sample_lib_def lib.defs)

text \<open>
  The request hash. Two normalised requests with the same hash are the same request, as
  long as their currencies and descriptions hold no NUL byte (PostgreSQL stores none) and the digest does
  not collide on the two joined texts.
\<close>

theorem request_hash_separates:
  assumes eq: "createPaymentRequestHash L (normalize_create L a) = createPaymentRequestHash L (normalize_create L b)"
    and inj: "inj_on (sha256 L) {str_join [CHR 0x00] (request_parts (normalize_create L r)) | r. r \<in> {a, b}}"
    and nul: "\<forall>r \<in> {a, b}. CHR 0x00 \<notin> set (cr_Currency (normalize_create L r))
        \<and> CHR 0x00 \<notin> set (cr_Description (normalize_create L r))"
  shows "normalize_create L a = normalize_create L b"
proof (rule createPaymentRequestHash_inj [OF eq])
  assume "sha256 L (str_join [CHR 0x00] (request_parts (normalize_create L a)))
        = sha256 L (str_join [CHR 0x00] (request_parts (normalize_create L b)))"
  then show "str_join [CHR 0x00] (request_parts (normalize_create L a))
      = str_join [CHR 0x00] (request_parts (normalize_create L b))"
    by (rule inj_onD [OF inj]) auto
qed (use nul in auto)

theorem request_hash_separates_witness:
  "normalize_create sample_lib sample_request = normalize_create sample_lib (sample_request\<lparr>cr_Currency := ''usd ''\<rparr>)"
proof -
  let ?other = "sample_request\<lparr>cr_Currency := ''usd ''\<rparr>"
  have n: "normalize_create sample_lib sample_request = sample_request\<lparr>cr_Currency := ''USD''\<rparr>"
    "normalize_create sample_lib ?other = sample_request\<lparr>cr_Currency := ''USD''\<rparr>"
    by code_simp+
  have "inj_on (sha256 sample_lib)
      {str_join [CHR 0x00] (request_parts (normalize_create sample_lib r)) | r. r \<in> {sample_request, ?other}}"
    by (rule inj_onI) (auto simp: n)
  with n show ?thesis
    by (intro request_hash_separates) (auto simp: sample_request_def)
qed

text \<open>
  Without that condition the hash does not separate. The parts are joined with NUL bytes, and a
  description may hold one: the two requests below are different, pass validation and
  have the same hash, whatever the digest.
\<close>

theorem request_hash_ambiguous:
  "let a = \<lparr>cr_AmountCents = 1, cr_Currency = ''USD'', cr_Description = [CHR ''x'', CHR 0x00, CHR ''y''], cr_ExternalReference = ''z''\<rparr>;
       b = \<lparr>cr_AmountCents = 1, cr_Currency = ''USD'', cr_Description = ''x'', cr_ExternalReference = [CHR ''y'', CHR 0x00, CHR ''z'']\<rparr>
   in a \<noteq> b \<and> validateCreatePayment L a ikey = validateCreatePayment L b ikey
      \<and> (120 < length ikey \<or> validateCreatePayment L a ikey = None)
      \<and> createPaymentRequestHash L a = createPaymentRequestHash L b"
proof -
  have "runes ''USD'' = [85, 83, 68]" by code_simp
  then show ?thesis
    by (simp add: validateCreatePayment_def createPaymentRequestHash_def request_parts_def
        rune_is_letter_def rune_is_upper_def)
qed

end
