(* ===== verification/Base64.thy ===== *)
theory Base64
  imports Go_Strconv
begin

text \<open>
  The standard base64 encoding, in which \<open>encoding/json\<close> writes a \<open>[]byte\<close>, and its
  decoder, which skips line breaks. Decoding what was encoded gives the bytes back.
\<close>

definition b64_alphabet :: string where
  "b64_alphabet = ''ABCDEFGHIJKLMNOPQRSTUVWXYZabcdefghijklmnopqrstuvwxyz0123456789+/''"

definition b64_char :: "nat \<Rightarrow> char" where
  "b64_char n = b64_alphabet ! n"

definition b64_value :: "char \<Rightarrow> nat option" where
  "b64_value c =
     (if c \<in> set b64_alphabet then Some (length (takeWhile (\<lambda>x. x \<noteq> c) b64_alphabet)) else None)"

fun b64_bytes :: "nat list \<Rightarrow> string" where
  "b64_bytes [] = []"
| "b64_bytes [a] = [b64_char (a div 4), b64_char (a mod 4 * 16), CHR ''='', CHR ''='']"
| "b64_bytes [a, b] = [b64_char (a div 4), b64_char (a mod 4 * 16 + b div 16), b64_char (b mod 16 * 4), CHR ''='']"
| "b64_bytes (a # b # c # bs) =
     b64_char (a div 4) # b64_char (a mod 4 * 16 + b div 16) # b64_char (b mod 16 * 4 + c div 64)
       # b64_char (c mod 64) # b64_bytes bs"

definition base64_encode :: "string \<Rightarrow> string" where
  "base64_encode s = b64_bytes (map byte s)"

text \<open>Groups of four; padding only in the last group. Trailing bits are ignored.\<close>

fun b64_groups :: "string \<Rightarrow> nat list option" where
  "b64_groups [] = Some []"
| "b64_groups (w # x # y # z # cs) =
     (if y = CHR ''='' \<and> z = CHR ''='' \<and> cs = []
      then (case (b64_value w, b64_value x) of
              (Some p, Some q) \<Rightarrow> Some [p * 4 + q div 16]
            | _ \<Rightarrow> None)
      else if z = CHR ''='' \<and> cs = []
      then (case (b64_value w, b64_value x, b64_value y) of
              (Some p, Some q, Some r) \<Rightarrow> Some [p * 4 + q div 16, q mod 16 * 16 + r div 4]
            | _ \<Rightarrow> None)
      else (case (b64_value w, b64_value x, b64_value y, b64_value z, b64_groups cs) of
              (Some p, Some q, Some r, Some t, Some bs) \<Rightarrow>
                Some ((p * 4 + q div 16) # (q mod 16 * 16 + r div 4) # (r mod 4 * 64 + t) # bs)
            | _ \<Rightarrow> None))"
| "b64_groups _ = None"

definition base64_decode :: "string \<Rightarrow> string option" where
  "base64_decode s =
     map_option (map char_of) (b64_groups (filter (\<lambda>c. c \<noteq> CHR 0x0A \<and> c \<noteq> CHR 0x0D) s))"

lemma b64_alphabet: "distinct b64_alphabet" "length b64_alphabet = 64"
  "CHR ''='' \<notin> set b64_alphabet" "CHR 0x0A \<notin> set b64_alphabet" "CHR 0x0D \<notin> set b64_alphabet"
  by (simp_all add: b64_alphabet_def)

lemma b64_value_char [simp]:
  assumes "n < 64"
  shows "b64_value (b64_char n) = Some n"
proof -
  have "takeWhile (\<lambda>x. x \<noteq> b64_alphabet ! n) b64_alphabet = take n b64_alphabet"
    using assms b64_alphabet(1,2) by (intro takeWhile_eq_take_P_nth) (auto simp: nth_eq_iff_index_eq)
  with assms b64_alphabet(2) show ?thesis by (simp add: b64_value_def b64_char_def)
qed

lemma b64_char_plain [simp]:
  assumes "n < 64"
  shows "b64_char n \<noteq> CHR ''=''" "b64_char n \<noteq> CHR 0x0A" "b64_char n \<noteq> CHR 0x0D"
proof -
  have "b64_char n \<in> set b64_alphabet" using assms b64_alphabet(2) by (simp add: b64_char_def)
  with b64_alphabet(3-5) show "b64_char n \<noteq> CHR ''=''" "b64_char n \<noteq> CHR 0x0A" "b64_char n \<noteq> CHR 0x0D"
    by metis+
qed

lemma b64_parts:
  assumes "a < 256" "b < 256" "c < (256 :: nat)"
  shows "a div 4 < 64" "a mod 4 * 16 < 64" "a mod 4 * 16 + b div 16 < 64" "b mod 16 * 4 < 64"
    "b mod 16 * 4 + c div 64 < 64" "c mod 64 < 64"
proof -
  have "a div 4 < 64" "a mod 4 < 4" "b div 16 < 16" "b mod 16 < 16" "c div 64 < 4" "c mod 64 < 64"
    using assms by auto
  then show "a div 4 < 64" "a mod 4 * 16 < 64" "a mod 4 * 16 + b div 16 < 64" "b mod 16 * 4 < 64"
    "b mod 16 * 4 + c div 64 < 64" "c mod 64 < 64" by linarith+
qed

lemma b64_join:
  assumes "b < 256" "c < (256 :: nat)"
  shows "a div 4 * 4 + (a mod 4 * 16 + b div 16) div 16 = a"
    "(a mod 4 * 16 + b div 16) mod 16 * 16 + (b mod 16 * 4 + c div 64) div 4 = b"
    "(b mod 16 * 4 + c div 64) mod 4 * 64 + c mod 64 = c"
proof -
  have lt: "b div 16 < 16" "c div 64 < 4" using assms by auto
  then have "(a mod 4 * 16 + b div 16) div 16 = a mod 4" "(a mod 4 * 16 + b div 16) mod 16 = b div 16"
    "(b mod 16 * 4 + c div 64) div 4 = b mod 16" "(b mod 16 * 4 + c div 64) mod 4 = c div 64"
    by (simp_all add: div_add1_eq mod_add_eq)
  then show "a div 4 * 4 + (a mod 4 * 16 + b div 16) div 16 = a"
    "(a mod 4 * 16 + b div 16) mod 16 * 16 + (b mod 16 * 4 + c div 64) div 4 = b"
    "(b mod 16 * 4 + c div 64) mod 4 * 64 + c mod 64 = c" by simp_all
qed

lemma b64_groups_bytes: "list_all (\<lambda>b. b < 256) bs \<Longrightarrow> b64_groups (b64_bytes bs) = Some bs"
proof (induction bs rule: b64_bytes.induct)
  case (4 a b c bs)
  then have lt: "a < 256" "b < 256" "c < 256" by simp_all
  from 4 b64_parts [OF lt] b64_join [OF lt(2,3)] show ?case by simp
next
  case (2 a)
  then have lt: "a < 256" by simp
  from b64_parts [OF lt lt lt] b64_join(1) [of 0 0 a] show ?case by simp
next
  case (3 a b)
  then have lt: "a < 256" "b < 256" by simp_all
  from b64_parts [OF lt lt(2)] b64_join(1,2) [OF lt(2), of 0 a] show ?case by simp
qed simp

lemma b64_bytes_no_breaks:
  "list_all (\<lambda>b. b < 256) bs \<Longrightarrow> filter (\<lambda>c. c \<noteq> CHR 0x0A \<and> c \<noteq> CHR 0x0D) (b64_bytes bs) = b64_bytes bs"
proof (induction bs rule: b64_bytes.induct)
  case (4 a b c bs)
  then have "a < 256" "b < 256" "c < 256" by auto
  from 4 b64_parts [OF this] show ?case by simp
next
  case (2 a)
  then have "a < 256" by simp
  from b64_parts [OF this this this] show ?case by simp
next
  case (3 a b)
  then have "a < 256" "b < 256" by auto
  from b64_parts [OF this this(2)] show ?case by simp
qed simp

lemma base64_decode_encode [simp]: "base64_decode (base64_encode s) = Some s"
proof -
  have ok: "list_all (\<lambda>b. b < 256) (map byte s)" by (simp add: list_all_iff byte_less)
  show ?thesis
    using b64_groups_bytes [OF ok] b64_bytes_no_breaks [OF ok]
    by (simp add: base64_decode_def base64_encode_def comp_def)
qed

end
