(* ===== verification/Dead_Letter.thy ===== *)
theory Dead_Letter
  imports Kafka Base64
begin

text \<open>
  \<open>consumer/dead_letter.go\<close>: the record of a message that could not be handled, its JSON form,
  and its publication to the dead-letter topic. A record whose strings are valid UTF-8 is read
  back as it was written; keys, values and header values may be any bytes.
\<close>

definition DeadLetterSchemaVersion :: i64 where
  "DeadLetterSchemaVersion = 1"

record dead_letter_record =
  dl_SchemaVersion :: i64
  dl_EventID :: string
  dl_EventType :: string
  dl_SourceTopic :: string
  dl_SourcePartition :: i64
  dl_SourceOffset :: i64
  dl_Key :: string
  dl_Value :: string
  dl_Headers :: "header list"
  dl_Failure :: string
  dl_Attempts :: i64
  dl_FailedAt :: json

text \<open>The bound cuts bytes, so it may cut inside a rune.\<close>

definition boundedFailure :: "err \<Rightarrow> string" where
  "boundedFailure e =
     (let value = err_text e in if length value > 2048 then take 2048 value else value)"

definition dead_letter_of ::
  "kafka_message \<Rightarrow> err \<Rightarrow> i64 \<Rightarrow> json \<Rightarrow> dead_letter_record"
where
  "dead_letter_of m cause attempts failed_at =
     \<lparr>dl_SchemaVersion = DeadLetterSchemaVersion,
      dl_EventID = headerValue (km_Headers m) ''event_id'',
      dl_EventType = headerValue (km_Headers m) ''event_type'',
      dl_SourceTopic = km_Topic m, dl_SourcePartition = km_Partition m, dl_SourceOffset = km_Offset m,
      dl_Key = km_Key m, dl_Value = km_Value m, dl_Headers = km_Headers m,
      dl_Failure = boundedFailure cause, dl_Attempts = attempts, dl_FailedAt = failed_at\<rparr>"

section \<open>JSON form\<close>

definition header_json :: "header \<Rightarrow> json" where
  "header_json h = JObj [(''key'', JStr (fst h)), (''value'', JStr (base64_encode (snd h)))]"

definition dead_letter_json :: "dead_letter_record \<Rightarrow> json" where
  "dead_letter_json r =
     JObj [(''schema_version'', JInt (sint (dl_SchemaVersion r))),
           (''event_id'', JStr (dl_EventID r)),
           (''event_type'', JStr (dl_EventType r)),
           (''source_topic'', JStr (dl_SourceTopic r)),
           (''source_partition'', JInt (sint (dl_SourcePartition r))),
           (''source_offset'', JInt (sint (dl_SourceOffset r))),
           (''key'', JStr (base64_encode (dl_Key r))),
           (''value'', JStr (base64_encode (dl_Value r))),
           (''headers'', JArr (map header_json (dl_Headers r))),
           (''failure'', JStr (dl_Failure r)),
           (''attempts'', JInt (sint (dl_Attempts r))),
           (''failed_at'', dl_FailedAt r)]"

text \<open>A \<open>[]byte\<close> is read from base64 text or from an array of numbers.\<close>

definition json_byte :: "json \<Rightarrow> char option" where
  "json_byte j = (case j of JInt n \<Rightarrow> if 0 \<le> n \<and> n < 256 then Some (char_of (nat n)) else None
                   | JNull \<Rightarrow> Some (CHR 0x00) | _ \<Rightarrow> None)"

definition set_bytes :: "(string \<Rightarrow> 'r \<Rightarrow> 'r) \<Rightarrow> json \<Rightarrow> 'r \<Rightarrow> 'r option" where
  "set_bytes upd j r =
     (case j of
        JStr s \<Rightarrow> map_option (\<lambda>b. upd b r) (base64_decode s)
      | JArr js \<Rightarrow> map_option (\<lambda>b. upd b r) (those (map json_byte js))
      | JNull \<Rightarrow> Some (upd [] r)
      | _ \<Rightarrow> None)"

definition header_fields :: "header fields" where
  "header_fields =
     [(''key'', set_str (\<lambda>s (_, v). (s, v))), (''value'', set_bytes (\<lambda>s (k, _). (k, s)))]"

definition set_headers :: "json \<Rightarrow> dead_letter_record \<Rightarrow> dead_letter_record option" where
  "set_headers j r =
     (case j of
        JArr js \<Rightarrow> map_option (\<lambda>hs. r\<lparr>dl_Headers := hs\<rparr>)
                     (those (map (decode_struct False header_fields ([], [])) js))
      | JNull \<Rightarrow> Some (r\<lparr>dl_Headers := []\<rparr>)
      | _ \<Rightarrow> None)"

text \<open>
  A \<open>time.Time\<close> unmarshals itself; \<open>time_ok\<close> says which JSON values it accepts.
\<close>

definition dead_letter_fields :: "(json \<Rightarrow> bool) \<Rightarrow> dead_letter_record fields" where
  "dead_letter_fields time_ok =
     [(''schema_version'', set_i64 (\<lambda>n r. r\<lparr>dl_SchemaVersion := n\<rparr>)),
      (''event_id'', set_str (\<lambda>s r. r\<lparr>dl_EventID := s\<rparr>)),
      (''event_type'', set_str (\<lambda>s r. r\<lparr>dl_EventType := s\<rparr>)),
      (''source_topic'', set_str (\<lambda>s r. r\<lparr>dl_SourceTopic := s\<rparr>)),
      (''source_partition'', set_i64 (\<lambda>n r. r\<lparr>dl_SourcePartition := n\<rparr>)),
      (''source_offset'', set_i64 (\<lambda>n r. r\<lparr>dl_SourceOffset := n\<rparr>)),
      (''key'', set_bytes (\<lambda>s r. r\<lparr>dl_Key := s\<rparr>)),
      (''value'', set_bytes (\<lambda>s r. r\<lparr>dl_Value := s\<rparr>)),
      (''headers'', set_headers),
      (''failure'', set_str (\<lambda>s r. r\<lparr>dl_Failure := s\<rparr>)),
      (''attempts'', set_i64 (\<lambda>n r. r\<lparr>dl_Attempts := n\<rparr>)),
      (''failed_at'', (\<lambda>j r. if time_ok j then Some (if j = JNull then r else r\<lparr>dl_FailedAt := j\<rparr>) else None))]"

definition zero_record :: dead_letter_record where
  "zero_record =
     \<lparr>dl_SchemaVersion = 0, dl_EventID = [], dl_EventType = [], dl_SourceTopic = [],
      dl_SourcePartition = 0, dl_SourceOffset = 0, dl_Key = [], dl_Value = [], dl_Headers = [],
      dl_Failure = [], dl_Attempts = 0, dl_FailedAt = JNull\<rparr>"

definition decode_dead_letter :: "(json \<Rightarrow> bool) \<Rightarrow> json \<Rightarrow> dead_letter_record option" where
  "decode_dead_letter time_ok j = decode_struct False (dead_letter_fields time_ok) zero_record j"

section \<open>Publishing\<close>

text \<open>
  \<open>dp_now\<close> is the JSON text of the current time, \<open>None\<close> when it has none, and \<open>dp_write\<close> the
  fate of the Kafka write.
\<close>

record dead_letter_env =
  dp_now :: "string option"
  dp_text :: "json \<Rightarrow> string"
  dp_write :: "kafka_message \<Rightarrow> write_outcome"

definition dead_letter_message :: "string \<Rightarrow> kafka_message \<Rightarrow> dead_letter_record \<Rightarrow> string \<Rightarrow> kafka_message" where
  "dead_letter_message topic m record payload =
     outgoing topic (km_Key m) payload
       [(''event_id'', dl_EventID record), (''event_type'', dl_EventType record),
        (''source_topic'', dl_SourceTopic record)]"

definition DeadLetter_Publish ::
  "string \<Rightarrow> dead_letter_env \<Rightarrow> kafka_message \<Rightarrow> err \<Rightarrow> i64 \<Rightarrow> kafka_message list
     \<Rightarrow> err option \<times> kafka_message list"
where
  "DeadLetter_Publish topic env m cause attempts log =
     (case dp_now env of
        None \<Rightarrow> (Some (wrap ''marshal dead-letter record'' (ErrText ''json: error calling MarshalJSON'')), log)
      | Some now \<Rightarrow>
          (let record = dead_letter_of m cause attempts (JStr now);
               out = dead_letter_message topic m record (dp_text env (dead_letter_json record))
           in case write_message (dp_write env out) out log of
                (Some e, log') \<Rightarrow> (Some (wrap ''publish dead-letter record'' e), log')
              | (None, log') \<Rightarrow> (None, log')))"

section \<open>Round trip\<close>

lemma fold_name_ascii: "is_ascii s \<Longrightarrow> fold_name s = map (\<lambda>c. fold_rune (byte c)) s"
  by (simp add: fold_name_def runes_ascii)

lemma find_field_names:
  assumes "distinct (map (\<lambda>(n, f). fold_name n) spec)" and "(n, f) \<in> set spec"
  shows "find_field spec n = Some f"
proof -
  have names: "map fst (map (\<lambda>(n, f). (fold_name n, f)) spec) = map (\<lambda>(n, f). fold_name n) spec"
    by (induction spec) auto
  show ?thesis
    unfolding find_field_def
  proof (rule map_of_is_SomeI)
    show "distinct (map fst (map (\<lambda>(n, f). (fold_name n, f)) spec))" unfolding names by (rule assms(1))
    show "(fold_name n, f) \<in> set (map (\<lambda>(n, f). (fold_name n, f)) spec)" using assms(2) by force
  qed
qed

lemma header_field_names: "distinct (map (\<lambda>(n, f). fold_name n) header_fields)"
proof -
  have "distinct (map fold_name [''key'', ''value''])" by code_simp
  then show ?thesis by (simp add: header_fields_def)
qed

lemma decode_header [simp]: "decode_struct False header_fields ([], []) (header_json h) = Some h"
proof -
  have "find_field header_fields ''key'' = Some (set_str (\<lambda>s (_, v). (s, v)))"
    "find_field header_fields ''value'' = Some (set_bytes (\<lambda>s (k, _). (k, s)))"
    by (rule find_field_names [OF header_field_names]; simp add: header_fields_def)+
  then show ?thesis by (simp add: decode_struct_def header_json_def set_bytes_def)
qed

lemma dead_letter_field_names: "distinct (map (\<lambda>(n, f). fold_name n) (dead_letter_fields time_ok))"
proof -
  have "distinct (map fold_name [''schema_version'', ''event_id'', ''event_type'', ''source_topic'',
      ''source_partition'', ''source_offset'', ''key'', ''value'', ''headers'', ''failure'', ''attempts'', ''failed_at''])"
    by code_simp
  then show ?thesis by (simp add: dead_letter_fields_def)
qed

lemma dead_letter_find:
  "find_field (dead_letter_fields time_ok) ''schema_version'' = Some (set_i64 (\<lambda>n r. r\<lparr>dl_SchemaVersion := n\<rparr>))"
  "find_field (dead_letter_fields time_ok) ''event_id'' = Some (set_str (\<lambda>s r. r\<lparr>dl_EventID := s\<rparr>))"
  "find_field (dead_letter_fields time_ok) ''event_type'' = Some (set_str (\<lambda>s r. r\<lparr>dl_EventType := s\<rparr>))"
  "find_field (dead_letter_fields time_ok) ''source_topic'' = Some (set_str (\<lambda>s r. r\<lparr>dl_SourceTopic := s\<rparr>))"
  "find_field (dead_letter_fields time_ok) ''source_partition'' = Some (set_i64 (\<lambda>n r. r\<lparr>dl_SourcePartition := n\<rparr>))"
  "find_field (dead_letter_fields time_ok) ''source_offset'' = Some (set_i64 (\<lambda>n r. r\<lparr>dl_SourceOffset := n\<rparr>))"
  "find_field (dead_letter_fields time_ok) ''key'' = Some (set_bytes (\<lambda>s r. r\<lparr>dl_Key := s\<rparr>))"
  "find_field (dead_letter_fields time_ok) ''value'' = Some (set_bytes (\<lambda>s r. r\<lparr>dl_Value := s\<rparr>))"
  "find_field (dead_letter_fields time_ok) ''headers'' = Some set_headers"
  "find_field (dead_letter_fields time_ok) ''failure'' = Some (set_str (\<lambda>s r. r\<lparr>dl_Failure := s\<rparr>))"
  "find_field (dead_letter_fields time_ok) ''attempts'' = Some (set_i64 (\<lambda>n r. r\<lparr>dl_Attempts := n\<rparr>))"
  "find_field (dead_letter_fields time_ok) ''failed_at''
     = Some (\<lambda>j r. if time_ok j then Some (if j = JNull then r else r\<lparr>dl_FailedAt := j\<rparr>) else None)"
  by (rule find_field_names [OF dead_letter_field_names]; simp add: dead_letter_fields_def)+

lemma those_map_Some [simp]: "those (map Some xs) = Some xs"
  by (induction xs) auto

lemma decode_dead_letter_json:
  assumes "time_ok (dl_FailedAt r)" and "dl_FailedAt r \<noteq> JNull"
  shows "decode_dead_letter time_ok (dead_letter_json r) = Some r"
  using assms
  by (simp add: decode_dead_letter_def decode_struct_obj dead_letter_json_def dead_letter_find
      set_bytes_def set_headers_def zero_record_def comp_def)

end
