(* ===== verification/Ledger_Model.thy ===== *)
theory Ledger_Model
  imports Go_Runtime
begin

text \<open>
  The ledger service's data: \<open>model/ledger.go\<close>. The columns of the tables
  \<open>ledger_accounts\<close> and \<open>ledger_entries\<close> are the fields of \<open>Account\<close> and \<open>Entry\<close>,
  so the same records are their rows.
\<close>

type_synonym direction = string

definition DirectionDebit :: direction where
  "DirectionDebit = ''debit''"

definition DirectionCredit :: direction where
  "DirectionCredit = ''credit''"

lemma direction_distinct [simp]:
  "DirectionDebit \<noteq> DirectionCredit" "DirectionCredit \<noteq> DirectionDebit"
  by (simp_all add: DirectionDebit_def DirectionCredit_def)

record account =
  a_ID :: string
  a_Name :: string
  a_Currency :: string
  a_NormalBalance :: direction
  a_CreatedAt :: int

record entry =
  en_ID :: string
  en_TransactionID :: string
  en_AccountID :: string
  en_Direction :: direction
  en_AmountCents :: i64
  en_Currency :: string
  en_ReferenceType :: string
  en_ReferenceID :: string
  en_CreatedAt :: int

record balance =
  b_AccountID :: string
  b_AccountName :: string
  b_Currency :: string
  b_AmountCents :: i64
  b_AsOf :: int

record payment_movement_request =
  mr_PaymentID :: string
  mr_AmountCents :: i64
  mr_Currency :: string

text \<open>An entry's contribution to debits minus credits, as an integer.\<close>

definition signed_amount :: "entry \<Rightarrow> int" where
  "signed_amount e =
     (if en_Direction e = DirectionDebit then sint (en_AmountCents e) else - sint (en_AmountCents e))"

definition net :: "(entry \<Rightarrow> bool) \<Rightarrow> entry list \<Rightarrow> int" where
  "net P es = sum_list (map signed_amount (filter P es))"

lemma net_append [simp]: "net P (es @ es') = net P es + net P es'"
  by (simp add: net_def)

lemma net_Nil [simp]: "net P [] = 0"
  by (simp add: net_def)

lemma net_Cons [simp]: "net P (e # es) = (if P e then signed_amount e else 0) + net P es"
  by (simp add: net_def)

end
