(* ===== verification/Ledger_Repo.thy ===== *)
theory Ledger_Repo
  imports Ledger_Model "HOL-Library.List_Lexorder" "HOL-Library.Char_ord" "HOL-Library.Product_Lexorder"
begin

text \<open>
  \<open>repository/postgres_ledger_repository.go\<close> on the tables \<open>ledger_accounts\<close>,
  \<open>ledger_entries\<close>, \<open>consumed_ledger_events\<close> and \<open>dead_letter_replays\<close> of the
  migrations.
\<close>

section \<open>Tables\<close>

record consumed_row =
  ce_event_id :: string
  ce_event_type :: string
  ce_aggregate_id :: string
  ce_consumed_at :: int

record replay_row =
  dr_id :: string
  dr_event_id :: string
  dr_operator_name :: string
  dr_reason :: string
  dr_source_topic :: string
  dr_source_partition :: int
  dr_source_offset :: i64
  dr_status :: string
  dr_last_error :: "string option"
  dr_started_at :: int
  dr_completed_at :: "int option"

record led_db =
  accounts :: "account list"
  entries :: "entry list"
  consumed :: "consumed_row list"
  replays :: "replay_row list"

definition empty_led_db :: led_db where
  "empty_led_db = \<lparr>accounts = [], entries = [], consumed = [], replays = []\<rparr>"

section \<open>Accounts\<close>

text \<open>
  \<open>INSERT INTO ledger_accounts ... ON CONFLICT (name, currency) DO UPDATE SET name =
  EXCLUDED.name RETURNING ...\<close>: the row under the name and the currency, inserted when there
  was none.
\<close>

definition upsert_account ::
  "'x ctx_scheme \<Rightarrow> string \<Rightarrow> string \<Rightarrow> direction \<Rightarrow> led_db \<Rightarrow> err + account \<times> led_db"
where
  "upsert_account cx name currency normalBalance db =
     (case pg_uuid cx (cx_uuid cx 0) of
        None \<Rightarrow> Inl (ErrText ''cannot encode id as uuid'')
      | Some u \<Rightarrow>
          (case pg_char3 currency of
             None \<Rightarrow> Inl (ErrText ''value too long for type character(3)'')
           | Some c \<Rightarrow>
               if \<not> list_all pg_text_ok [name, normalBalance]
               then Inl (ErrText ''invalid byte sequence for encoding UTF8'')
               else if normalBalance \<notin> set [DirectionDebit, DirectionCredit]
               then Inl (ErrText ''violates check constraint'')
               else (case find (\<lambda>a. a_Name a = name \<and> a_Currency a = c) (accounts db) of
                       Some a \<Rightarrow> Inr (a, db)
                     | None \<Rightarrow>
                         if u \<in> set (map a_ID (accounts db)) then Inl (ErrText ''duplicate key value'')
                         else (let a = \<lparr>a_ID = u, a_Name = name, a_Currency = c,
                                        a_NormalBalance = normalBalance, a_CreatedAt = cx_now cx\<rparr>
                               in Inr (a, db\<lparr>accounts := accounts db @ [a]\<rparr>)))))"

definition EnsureAccount ::
  "'x ctx_scheme \<Rightarrow> string \<Rightarrow> string \<Rightarrow> direction \<Rightarrow> led_db \<Rightarrow> (err + account) \<times> led_db"
where
  "EnsureAccount cx name currency normalBalance db =
     (case auto_tx cx (upsert_account cx name currency normalBalance db) db of
        (Inl e, db') \<Rightarrow> (Inl (wrap ''ensure ledger account'' e), db')
      | (Inr a, db') \<Rightarrow> (Inr a, db'))"

section \<open>Entries\<close>

text \<open>The row of \<open>INSERT INTO ledger_entries\<close>, with the foreign key, the key and the checks.\<close>

definition entry_values :: "'x ctx_scheme \<Rightarrow> entry \<Rightarrow> led_db \<Rightarrow> err + entry" where
  "entry_values cx e db =
     (case (pg_uuid cx (en_ID e), pg_uuid cx (en_TransactionID e), pg_uuid cx (en_AccountID e),
            pg_char3 (en_Currency e)) of
        (Some u, Some t, Some a, Some c) \<Rightarrow>
          if \<not> list_all pg_text_ok [en_Direction e, en_ReferenceType e, en_ReferenceID e]
          then Inl (ErrText ''invalid byte sequence for encoding UTF8'')
          else if en_Direction e \<notin> set [DirectionDebit, DirectionCredit] \<or> sint (en_AmountCents e) \<le> 0
          then Inl (ErrText ''violates check constraint'')
          else if u \<in> set (map en_ID (entries db)) then Inl (ErrText ''duplicate key value'')
          else if a \<notin> set (map a_ID (accounts db)) then Inl (ErrText ''violates foreign key constraint'')
          else Inr (e\<lparr>en_ID := u, en_TransactionID := t, en_AccountID := a, en_Currency := c,
                      en_CreatedAt := cx_now cx\<rparr>)
      | _ \<Rightarrow> Inl (ErrText ''cannot encode parameter''))"

definition insertEntry :: "'x ctx_scheme \<Rightarrow> nat \<Rightarrow> entry \<Rightarrow> led_db \<Rightarrow> err + entry \<times> led_db" where
  "insertEntry cx k e db =
     (case stmt cx k (entry_values cx e db) of
        Inl er \<Rightarrow> Inl (wrap ''insert ledger entry'' er)
      | Inr row \<Rightarrow> Inr (row, db\<lparr>entries := entries db @ [row]\<rparr>))"

text \<open>The loop over the entries; the statements are numbered from \<open>k\<close>.\<close>

fun insert_entries ::
  "'x ctx_scheme \<Rightarrow> nat \<Rightarrow> entry list \<Rightarrow> led_db \<Rightarrow> err + entry list \<times> led_db"
where
  "insert_entries cx k [] db = Inr ([], db)"
| "insert_entries cx k (e # es) db =
     (case insertEntry cx k e db of
        Inl er \<Rightarrow> Inl er
      | Inr (c, db1) \<Rightarrow>
          (case insert_entries cx (Suc k) es db1 of
             Inl er \<Rightarrow> Inl er
           | Inr (cs, db2) \<Rightarrow> Inr (c # cs, db2)))"

definition CreateTransaction ::
  "'x ctx_scheme \<Rightarrow> entry list \<Rightarrow> led_db \<Rightarrow> (err + entry list) \<times> led_db"
where
  "CreateTransaction cx es db =
     in_tx cx ''begin ledger transaction'' (\<lambda>_. ''commit ledger transaction'')
       (\<lambda>db. case insert_entries cx 0 es db of Inl e \<Rightarrow> (Inl e, db) | Inr (cs, db') \<Rightarrow> (Inr cs, db')) db"

text \<open>\<open>INSERT INTO consumed_ledger_events ... ON CONFLICT (event_id) DO NOTHING\<close>: the number of rows.\<close>

definition insert_consumed ::
  "'x ctx_scheme \<Rightarrow> string \<Rightarrow> string \<Rightarrow> string \<Rightarrow> led_db \<Rightarrow> err + nat \<times> led_db"
where
  "insert_consumed cx eventID eventType aggregateID db =
     (case pg_uuid cx eventID of
        None \<Rightarrow> Inl (ErrText ''cannot encode event_id as uuid'')
      | Some u \<Rightarrow>
          if \<not> list_all pg_text_ok [eventType, aggregateID]
          then Inl (ErrText ''invalid byte sequence for encoding UTF8'')
          else if u \<in> set (map ce_event_id (consumed db)) then Inr (0, db)
          else Inr (1, db\<lparr>consumed := consumed db @
                 [\<lparr>ce_event_id = u, ce_event_type = eventType, ce_aggregate_id = aggregateID,
                   ce_consumed_at = cx_now cx\<rparr>]\<rparr>))"

definition once_body ::
  "'x ctx_scheme \<Rightarrow> string \<Rightarrow> string \<Rightarrow> string \<Rightarrow> entry list \<Rightarrow> led_db
     \<Rightarrow> (err + entry list \<times> bool) \<times> led_db"
where
  "once_body cx eventID eventType aggregateID es db =
     (case stmt cx 0 (insert_consumed cx eventID eventType aggregateID db) of
        Inl e \<Rightarrow> (Inl (wrap ''record consumed ledger event'' e), db)
      | Inr (affected, db1) \<Rightarrow>
          if affected = 0 then (Inr ([], False), db1)
          else (case insert_entries cx 1 es db1 of
                  Inl e \<Rightarrow> (Inl e, db)
                | Inr (cs, db2) \<Rightarrow> (Inr (cs, True), db2)))"

definition CreateTransactionOnce ::
  "'x ctx_scheme \<Rightarrow> string \<Rightarrow> string \<Rightarrow> string \<Rightarrow> entry list \<Rightarrow> led_db
     \<Rightarrow> (err + entry list \<times> bool) \<times> led_db"
where
  "CreateTransactionOnce cx eventID eventType aggregateID es db =
     in_tx cx ''begin idempotent ledger transaction''
       (\<lambda>(_, processed). if processed then ''commit idempotent ledger transaction''
                          else ''commit duplicate ledger event transaction'')
       (once_body cx eventID eventType aggregateID es) db"

section \<open>Reading\<close>

text \<open>
  A query: the k-th statement, then a scan per row (the next statement number stands for a
  failed scan, when there is a row), then \<open>rows.Err\<close>.
\<close>

definition query_rows ::
  "'x ctx_scheme \<Rightarrow> string \<Rightarrow> string \<Rightarrow> string \<Rightarrow> (err + 'a) list \<Rightarrow> err + 'a list"
where
  "query_rows cx query_msg scan_msg iterate_msg rows =
     (case cx_stmt cx 0 of
        Some f \<Rightarrow> Inl (wrap query_msg (fault_err f))
      | None \<Rightarrow>
          (case find isl rows of
             Some (Inl e) \<Rightarrow> Inl (wrap scan_msg e)
           | _ \<Rightarrow>
               (case (if rows = [] then None else cx_stmt cx 1) of
                  Some f \<Rightarrow> Inl (wrap scan_msg (fault_err f))
                | None \<Rightarrow>
                    (case cx_stmt cx 2 of
                       Some f \<Rightarrow> Inl (wrap iterate_msg (fault_err f))
                     | None \<Rightarrow> Inr (map projr rows)))))"

fun insert_by :: "('a \<Rightarrow> 'a \<Rightarrow> bool) \<Rightarrow> 'a \<Rightarrow> 'a list \<Rightarrow> 'a list" where
  "insert_by le x [] = [x]"
| "insert_by le x (y # ys) = (if le x y then x # y # ys else y # insert_by le x ys)"

definition sort_by :: "('a \<Rightarrow> 'a \<Rightarrow> bool) \<Rightarrow> 'a list \<Rightarrow> 'a list" where
  "sort_by le xs = foldr (insert_by le) xs []"

lemma mset_insert_by [simp]: "mset (insert_by le x ys) = add_mset x (mset ys)"
  by (induction ys) auto

lemma mset_sort_by [simp]: "mset (sort_by le xs) = mset xs"
  by (induction xs) (auto simp: sort_by_def)

lemma set_sort_by [simp]: "set (sort_by le xs) = set xs"
  by (metis mset_sort_by set_mset_mset)

text \<open>
  The balance of an account: the sum over its entries, positive in the account's normal
  direction, as PostgreSQL's numeric; scanning it into an \<open>int64\<close> fails out of range.
\<close>

definition account_sum :: "led_db \<Rightarrow> account \<Rightarrow> int" where
  "account_sum db a =
     sum_list (map (\<lambda>e. if en_Direction e = a_NormalBalance a then sint (en_AmountCents e)
                         else - sint (en_AmountCents e))
                (filter (\<lambda>e. en_AccountID e = a_ID a) (entries db)))"

definition scan_balance :: "'x ctx_scheme \<Rightarrow> led_db \<Rightarrow> account \<Rightarrow> err + balance" where
  "scan_balance cx db a =
     (case to_i64 (account_sum db a) of
        None \<Rightarrow> Inl (ErrText ''cannot scan numeric into int64'')
      | Some w \<Rightarrow> Inr \<lparr>b_AccountID = a_ID a, b_AccountName = a_Name a, b_Currency = a_Currency a,
                       b_AmountCents = w, b_AsOf = cx_now cx\<rparr>)"

definition account_before :: "'x lib_scheme \<Rightarrow> account \<Rightarrow> account \<Rightarrow> bool" where
  "account_before L a b \<longleftrightarrow>
     (if a_Name a = a_Name b then pg_before L (a_Currency a) (a_Currency b)
      else pg_before L (a_Name a) (a_Name b))"

definition ListBalances :: "'x ctx_scheme \<Rightarrow> led_db \<Rightarrow> err + balance list" where
  "ListBalances cx db =
     query_rows cx ''list ledger balances'' ''scan ledger balance'' ''iterate ledger balances''
       (map (scan_balance cx db) (sort_by (account_before cx) (accounts db)))"

definition ListEntriesByReference :: "'x ctx_scheme \<Rightarrow> string \<Rightarrow> string \<Rightarrow> led_db \<Rightarrow> err + entry list" where
  "ListEntriesByReference cx referenceType referenceID db =
     (if \<not> list_all pg_text_ok [referenceType, referenceID]
      then Inl (wrap ''list ledger entries by reference'' (ErrText ''invalid byte sequence for encoding UTF8''))
      else query_rows cx ''list ledger entries by reference'' ''scan ledger entry'' ''iterate ledger entries''
        (map Inr
          (sort_key (\<lambda>e. (en_CreatedAt e, en_ID e))
            (filter (\<lambda>e. en_ReferenceType e = referenceType \<and> en_ReferenceID e = referenceID) (entries db)))))"

section \<open>What the statements do\<close>

lemma upsert_account_Inr:
  assumes "upsert_account cx name cur nb db = Inr (a, db')"
  shows "a_Name a = name \<and> pg_char3 cur = Some (a_Currency a) \<and> a \<in> set (accounts db')
    \<and> ((db' = db \<and> a \<in> set (accounts db))
       \<or> (db' = db\<lparr>accounts := accounts db @ [a]\<rparr> \<and> a_NormalBalance a = nb \<and> nb \<in> {DirectionDebit, DirectionCredit}
          \<and> pg_uuid cx (cx_uuid cx 0) = Some (a_ID a) \<and> a_ID a \<notin> set (map a_ID (accounts db))
          \<and> (\<forall>x \<in> set (accounts db). \<not> (a_Name x = name \<and> a_Currency x = a_Currency a))))"
  using assms
  by (auto simp: upsert_account_def Let_def find_None_iff dest: find_Some_iff [THEN iffD1]
      split: option.splits if_splits)

text \<open>The accounts only grow, by at most the one that was asked for.\<close>

definition grows :: "'x ctx_scheme \<Rightarrow> string \<Rightarrow> direction \<Rightarrow> led_db \<Rightarrow> led_db \<Rightarrow> bool" where
  "grows cx name nb db db' \<longleftrightarrow> db' = db
     \<or> (\<exists>a. pg_uuid cx (cx_uuid cx 0) = Some (a_ID a) \<and> db' = db\<lparr>accounts := accounts db @ [a]\<rparr> \<and> a_Name a = name \<and> a_NormalBalance a = nb
          \<and> nb \<in> {DirectionDebit, DirectionCredit} \<and> a_ID a \<notin> set (map a_ID (accounts db))
          \<and> (\<forall>x \<in> set (accounts db). \<not> (a_Name x = name \<and> a_Currency x = a_Currency a)))"

lemma EnsureAccount_grows:
  assumes "EnsureAccount cx name cur nb db = (res, db')"
  shows "grows cx name nb db db'"
proof -
  obtain r where "auto_tx cx (upsert_account cx name cur nb db) db = (r, db')"
    using assms by (auto simp: EnsureAccount_def split: prod.splits sum.splits)
  then show ?thesis
    by (cases rule: auto_tx_cases) (auto simp: grows_def dest!: upsert_account_Inr)
qed

lemma EnsureAccount_Inr:
  assumes "EnsureAccount cx name cur nb db = (Inr a, db')"
  shows "a \<in> set (accounts db') \<and> a_Name a = name \<and> pg_char3 cur = Some (a_Currency a)"
proof -
  have "auto_tx cx (upsert_account cx name cur nb db) db = (Inr a, db')"
    using assms by (auto simp: EnsureAccount_def split: prod.splits sum.splits)
  then show ?thesis
    by (cases rule: auto_tx_cases) (auto dest!: upsert_account_Inr)
qed

text \<open>What a stored entry keeps of the entry that was given.\<close>

definition stores :: "'x ctx_scheme \<Rightarrow> entry \<Rightarrow> entry \<Rightarrow> bool" where
  "stores cx e c \<longleftrightarrow>
     pg_uuid cx (en_ID e) = Some (en_ID c) \<and> pg_uuid cx (en_TransactionID e) = Some (en_TransactionID c)
     \<and> pg_uuid cx (en_AccountID e) = Some (en_AccountID c) \<and> pg_char3 (en_Currency e) = Some (en_Currency c)
     \<and> en_Direction c = en_Direction e \<and> en_AmountCents c = en_AmountCents e
     \<and> en_ReferenceType c = en_ReferenceType e \<and> en_ReferenceID c = en_ReferenceID e"

definition entry_checks :: "account list \<Rightarrow> entry \<Rightarrow> bool" where
  "entry_checks as e \<longleftrightarrow> en_Direction e \<in> {DirectionDebit, DirectionCredit}
     \<and> 0 < sint (en_AmountCents e) \<and> en_AccountID e \<in> a_ID ` set as"

lemma entry_values_Inr:
  assumes "entry_values cx e db = Inr c"
  shows "stores cx e c \<and> entry_checks (accounts db) c \<and> en_ID c \<notin> set (map en_ID (entries db))"
  using assms
  by (auto simp: entry_values_def stores_def entry_checks_def split: option.splits if_splits)

lemma insertEntry_Inr:
  assumes "insertEntry cx k e db = Inr (c, db')"
  shows "entry_values cx e db = Inr c \<and> db' = db\<lparr>entries := entries db @ [c]\<rparr>"
  using assms by (auto simp: insertEntry_def split: sum.splits)

lemma insert_entries_Inr:
  assumes "insert_entries cx k es db = Inr (cs, db')"
  shows "db' = db\<lparr>entries := entries db @ cs\<rparr> \<and> list_all2 (stores cx) es cs
    \<and> list_all (entry_checks (accounts db)) cs
    \<and> (distinct (map en_ID (entries db)) \<longrightarrow> distinct (map en_ID (entries db')))"
  using assms
proof (induction es arbitrary: k cs db db')
  case (Cons e es)
  then obtain c db1 cs' where ins: "insertEntry cx k e db = Inr (c, db1)"
    and rest: "insert_entries cx (Suc k) es db1 = Inr (cs', db')" and cs: "cs = c # cs'"
    by (auto split: sum.splits)
  note one = insertEntry_Inr [OF ins] and IH = Cons.IH [OF rest]
  note val = entry_values_Inr [OF one [THEN conjunct1]]
  show ?case using IH one val cs by (auto, blast)
qed simp

lemma once_body_Inr:
  assumes "once_body cx eid et agg es db = (Inr (cs, p), db')"
  obtains (duplicate) "\<not> p" "cs = []" "db' = db" "\<exists>u. pg_uuid cx eid = Some u \<and> u \<in> set (map ce_event_id (consumed db))"
  | (fresh) c where "p" "pg_uuid cx eid = Some (ce_event_id c)" "ce_event_id c \<notin> set (map ce_event_id (consumed db))"
      "ce_aggregate_id c = agg" "ce_event_type c = et"
      "insert_entries cx 1 es (db\<lparr>consumed := consumed db @ [c]\<rparr>) = Inr (cs, db')"
proof -
  let ?row = "\<lambda>u. \<lparr>ce_event_id = u, ce_event_type = et, ce_aggregate_id = agg, ce_consumed_at = cx_now cx\<rparr>"
  from assms obtain n db1 where ins: "insert_consumed cx eid et agg db = Inr (n, db1)"
    and rest: "(if n = 0 then (Inr ([], False), db1)
      else (case insert_entries cx 1 es db1 of Inl e \<Rightarrow> (Inl e, db) | Inr (cs, db2) \<Rightarrow> (Inr (cs, True), db2)))
      = (Inr (cs, p), db')"
    by (auto simp: once_body_def split: sum.splits)
  from ins obtain u where u: "pg_uuid cx eid = Some u"
    and row: "(n = 0 \<and> db1 = db \<and> u \<in> set (map ce_event_id (consumed db)))
      \<or> (n = 1 \<and> u \<notin> set (map ce_event_id (consumed db)) \<and> db1 = db\<lparr>consumed := consumed db @ [?row u]\<rparr>)"
    by (auto simp: insert_consumed_def split: option.splits if_splits)
  from row show ?thesis
  proof
    assume "n = 0 \<and> db1 = db \<and> u \<in> set (map ce_event_id (consumed db))"
    with rest u show ?thesis by (intro duplicate) auto
  next
    assume "n = 1 \<and> u \<notin> set (map ce_event_id (consumed db)) \<and> db1 = db\<lparr>consumed := consumed db @ [?row u]\<rparr>"
    with rest u show ?thesis by (intro fresh [of "?row u"]) (auto split: sum.splits)
  qed
qed

text \<open>Consuming an event once: nothing, or the event's row with its entries.\<close>

definition consumes ::
  "'x ctx_scheme \<Rightarrow> string \<Rightarrow> string \<Rightarrow> entry list \<Rightarrow> entry list \<Rightarrow> led_db \<Rightarrow> led_db \<Rightarrow> bool"
where
  "consumes cx eid agg es cs db db' \<longleftrightarrow>
     (\<exists>c. pg_uuid cx eid = Some (ce_event_id c) \<and> ce_event_id c \<notin> set (map ce_event_id (consumed db))
        \<and> ce_aggregate_id c = agg
        \<and> db' = db\<lparr>consumed := consumed db @ [c], entries := entries db @ cs\<rparr>)
     \<and> list_all2 (stores cx) es cs \<and> list_all (entry_checks (accounts db)) cs
     \<and> (distinct (map en_ID (entries db)) \<longrightarrow> distinct (map en_ID (entries db')))"

lemma CreateTransactionOnce_effect:
  assumes "CreateTransactionOnce cx eid et agg es db = (res, db')"
  obtains (error) er where "db' = db" "res = Inl er"
  | (duplicate) "db' = db" "res = Inr ([], False)"
      "\<exists>u. pg_uuid cx eid = Some u \<and> u \<in> set (map ce_event_id (consumed db))"
  | (consumed) cs where "consumes cx eid agg es cs db db'" "res = Inr (cs, True) \<or> (\<exists>er. res = Inl er)"
proof -
  from assms show ?thesis unfolding CreateTransactionOnce_def
  proof (cases rule: in_tx_cases)
    case (unchanged e)
    then show ?thesis by (rule error)
  next
    case (installed a)
    obtain cs p where a: "a = (cs, p)" by force
    from installed(1) [unfolded a] show ?thesis
    proof (cases rule: once_body_Inr)
      case duplicate
      with installed(2) a error that(2) show ?thesis by auto
    next
      case (fresh c)
      note ins = insert_entries_Inr [OF fresh(6)]
      have "distinct (map en_ID (entries db)) \<longrightarrow> distinct (map en_ID (entries db'))"
        using ins [THEN conjunct2, THEN conjunct2, THEN conjunct2] by simp
      moreover have "db' = db\<lparr>consumed := consumed db @ [c], entries := entries db @ cs\<rparr>" using ins by simp
      ultimately have "consumes cx eid agg es cs db db'"
        unfolding consumes_def using ins fresh by auto
      with installed(2) a fresh(1) show ?thesis by (intro consumed) auto
    qed
  qed
qed

end
