(* ===== verification/Ledger_Service.thy ===== *)
theory Ledger_Service
  imports Ledger_Repo
begin

text \<open>
  \<open>service/ledger_service.go\<close>: validation, the double entry of a payment, and the service
  operations over the \<open>LedgerRepository\<close> interface. The locale \<open>ledger_store\<close> holds the laws the
  service relies on; the PostgreSQL repository satisfies them.
\<close>

section \<open>Validation\<close>

definition cashAccountName :: string where
  "cashAccountName = ''finflow_cash''"

definition merchantPayableAccountName :: string where
  "merchantPayableAccountName = ''merchant_payable''"

lemma account_names_distinct [simp]:
  "cashAccountName \<noteq> merchantPayableAccountName" "merchantPayableAccountName \<noteq> cashAccountName"
  by (simp_all add: cashAccountName_def merchantPayableAccountName_def)

definition isKnownDirection :: "direction \<Rightarrow> bool" where
  "isKnownDirection d \<longleftrightarrow> d = DirectionDebit \<or> d = DirectionCredit"

definition isCurrency :: "'x unicode_tables_scheme \<Rightarrow> string \<Rightarrow> bool" where
  "isCurrency ut currency \<longleftrightarrow> length currency = 3
     \<and> list_all (\<lambda>r. rune_is_upper ut r \<and> rune_is_letter ut r) (runes currency)"

definition validatePaymentMovement ::
  "'x unicode_tables_scheme \<Rightarrow> payment_movement_request \<Rightarrow> err option"
where
  "validatePaymentMovement ut req =
     (if mr_PaymentID req = [] then Some ErrValidation
      else if sint (mr_AmountCents req) \<le> 0 then Some ErrValidation
      else if \<not> isCurrency ut (mr_Currency req) then Some ErrValidation
      else None)"

text \<open>
  \<open>totals[currency] += amount\<close> on the map of running totals; the sums are \<open>int64\<close> and wrap.
\<close>

fun add_total :: "string \<Rightarrow> i64 \<Rightarrow> (string \<times> i64) list \<Rightarrow> (string \<times> i64) list" where
  "add_total c w [] = [(c, w)]"
| "add_total c w ((c', t) # ts) = (if c = c' then (c', t + w) # ts else (c', t) # add_total c w ts)"

fun tally :: "'x unicode_tables_scheme \<Rightarrow> entry list \<Rightarrow> (string \<times> i64) list \<Rightarrow> err + (string \<times> i64) list" where
  "tally ut [] totals = Inr totals"
| "tally ut (e # es) totals =
     (if sint (en_AmountCents e) \<le> 0 \<or> \<not> isKnownDirection (en_Direction e) \<or> \<not> isCurrency ut (en_Currency e)
      then Inl ErrValidation
      else tally ut es
        (if en_Direction e = DirectionDebit then add_total (en_Currency e) (en_AmountCents e) totals
         else add_total (en_Currency e) (- en_AmountCents e) totals))"

definition ValidateBalanced :: "'x unicode_tables_scheme \<Rightarrow> entry list \<Rightarrow> err option" where
  "ValidateBalanced ut es =
     (if length es < 2 then Some ErrUnbalancedTransaction
      else (case tally ut es [] of
              Inl e \<Rightarrow> Some e
            | Inr totals \<Rightarrow>
                if \<not> list_all (\<lambda>(_, t). t = 0) totals then Some ErrUnbalancedTransaction else None))"

section \<open>The repository interface\<close>

record ('c, 's) ledger_repository =
  led_EnsureAccount :: "'c \<Rightarrow> string \<Rightarrow> string \<Rightarrow> direction \<Rightarrow> 's \<Rightarrow> (err + account) \<times> 's"
  led_CreateTransaction :: "'c \<Rightarrow> entry list \<Rightarrow> 's \<Rightarrow> (err + entry list) \<times> 's"
  led_CreateTransactionOnce ::
    "'c \<Rightarrow> string \<Rightarrow> string \<Rightarrow> string \<Rightarrow> entry list \<Rightarrow> 's \<Rightarrow> (err + entry list \<times> bool) \<times> 's"
  led_ListBalances :: "'c \<Rightarrow> 's \<Rightarrow> err + balance list"
  led_ListEntriesByReference :: "'c \<Rightarrow> string \<Rightarrow> string \<Rightarrow> 's \<Rightarrow> err + entry list"

definition PostgresLedgerRepository :: "('x ctx_scheme, led_db) ledger_repository" where
  "PostgresLedgerRepository =
     \<lparr>led_EnsureAccount = EnsureAccount, led_CreateTransaction = CreateTransaction,
      led_CreateTransactionOnce = CreateTransactionOnce, led_ListBalances = ListBalances,
      led_ListEntriesByReference = ListEntriesByReference\<rparr>"

lemma PostgresLedgerRepository_simps [simp]:
  "led_EnsureAccount PostgresLedgerRepository = EnsureAccount"
  "led_CreateTransaction PostgresLedgerRepository = CreateTransaction"
  "led_CreateTransactionOnce PostgresLedgerRepository = CreateTransactionOnce"
  "led_ListBalances PostgresLedgerRepository = ListBalances"
  "led_ListEntriesByReference PostgresLedgerRepository = ListEntriesByReference"
  by (simp_all add: PostgresLedgerRepository_def)

section \<open>Operations\<close>

text \<open>
  A movement makes three repository calls; \<open>cx i\<close> is the environment of the i-th. The fresh
  identifiers are drawn in the last one: the transaction's, then the two entries'.
\<close>

definition movement_entry ::
  "'x ctx_scheme \<Rightarrow> nat \<Rightarrow> account \<Rightarrow> direction \<Rightarrow> payment_movement_request \<Rightarrow> entry"
where
  "movement_entry cx k a d req =
     \<lparr>en_ID = cx_uuid cx k, en_TransactionID = cx_uuid cx 0, en_AccountID = a_ID a, en_Direction = d,
      en_AmountCents = mr_AmountCents req, en_Currency = mr_Currency req,
      en_ReferenceType = ''payment'', en_ReferenceID = mr_PaymentID req, en_CreatedAt = 0\<rparr>"

definition normalize_movement ::
  "'x unicode_tables_scheme \<Rightarrow> payment_movement_request \<Rightarrow> payment_movement_request"
where
  "normalize_movement ut req =
     req\<lparr>mr_Currency := to_upper ut (trim_space (mr_Currency req)),
         mr_PaymentID := trim_space (mr_PaymentID req)\<rparr>"

definition buildPaymentMovement ::
  "('x ctx_scheme, 's) ledger_repository \<Rightarrow> (nat \<Rightarrow> 'x ctx_scheme) \<Rightarrow> payment_movement_request
     \<Rightarrow> 's \<Rightarrow> (err + entry list) \<times> 's"
where
  "buildPaymentMovement R cx request s =
     (let req = normalize_movement (cx 0) request
      in case validatePaymentMovement (cx 0) req of
           Some e \<Rightarrow> (Inl e, s)
         | None \<Rightarrow>
             (case led_EnsureAccount R (cx 0) cashAccountName (mr_Currency req) DirectionDebit s of
                (Inl e, s1) \<Rightarrow> (Inl e, s1)
              | (Inr cash, s1) \<Rightarrow>
                  (case led_EnsureAccount R (cx 1) merchantPayableAccountName (mr_Currency req) DirectionCredit s1 of
                     (Inl e, s2) \<Rightarrow> (Inl e, s2)
                   | (Inr payable, s2) \<Rightarrow>
                       (let es = [movement_entry (cx 2) 1 cash DirectionDebit req,
                                  movement_entry (cx 2) 2 payable DirectionCredit req]
                        in case ValidateBalanced (cx 2) es of
                             Some e \<Rightarrow> (Inl e, s2)
                           | None \<Rightarrow> (Inr es, s2)))))"

text \<open>Other transactions may commit (\<open>others\<close>) before the entries are written.\<close>

definition RecordPaymentMovement ::
  "('x ctx_scheme, 's) ledger_repository \<Rightarrow> (nat \<Rightarrow> 'x ctx_scheme) \<Rightarrow> ('s \<Rightarrow> 's)
     \<Rightarrow> payment_movement_request \<Rightarrow> 's \<Rightarrow> (err + entry list) \<times> 's"
where
  "RecordPaymentMovement R cx others request s =
     (case buildPaymentMovement R cx request s of
        (Inl e, s1) \<Rightarrow> (Inl e, s1)
      | (Inr es, s1) \<Rightarrow> led_CreateTransaction R (cx 2) es (others s1))"

definition RecordPaymentMovementOnce ::
  "('x ctx_scheme, 's) ledger_repository \<Rightarrow> (nat \<Rightarrow> 'x ctx_scheme) \<Rightarrow> ('s \<Rightarrow> 's) \<Rightarrow> string \<Rightarrow> string
     \<Rightarrow> payment_movement_request \<Rightarrow> 's \<Rightarrow> (err + entry list \<times> bool) \<times> 's"
where
  "RecordPaymentMovementOnce R cx others eventID0 eventType0 request s =
     (let eventID = trim_space eventID0; eventType = trim_space eventType0
      in if \<not> uuid_parse (cx 0) eventID then (Inl ErrValidation, s)
         else if eventType = [] then (Inl ErrValidation, s)
         else (case buildPaymentMovement R cx request s of
                 (Inl e, s1) \<Rightarrow> (Inl e, s1)
               | (Inr es, s1) \<Rightarrow>
                   (case led_CreateTransactionOnce R (cx 2) eventID eventType
                           (trim_space (mr_PaymentID request)) es (others s1) of
                      (Inl e, s2) \<Rightarrow> (Inl e, s2)
                    | (Inr (created, processed), s2) \<Rightarrow> (Inr (created, processed), s2))))"

definition LedgerService_ListBalances ::
  "('x ctx_scheme, 's) ledger_repository \<Rightarrow> 'x ctx_scheme \<Rightarrow> 's \<Rightarrow> err + balance list"
where
  "LedgerService_ListBalances R cx s = led_ListBalances R cx s"

definition ListEntriesByPaymentID ::
  "('x ctx_scheme, 's) ledger_repository \<Rightarrow> 'x ctx_scheme \<Rightarrow> string \<Rightarrow> 's \<Rightarrow> err + entry list"
where
  "ListEntriesByPaymentID R cx paymentID s =
     (let pid = trim_space paymentID
      in if pid = [] then Inl ErrValidation else led_ListEntriesByReference R cx ''payment'' pid s)"

section \<open>Facts about validation\<close>

lemma validatePaymentMovement_None:
  "validatePaymentMovement ut req = None \<longleftrightarrow>
     mr_PaymentID req \<noteq> [] \<and> 0 < sint (mr_AmountCents req) \<and> isCurrency ut (mr_Currency req)"
  by (auto simp: validatePaymentMovement_def)

text \<open>The two entries of a valid movement always pass the balance check.\<close>

lemma movement_balanced:
  assumes "0 < sint (mr_AmountCents req)" and "isCurrency ut (mr_Currency req)"
  shows "ValidateBalanced ut [movement_entry cx i a DirectionDebit req, movement_entry cx j b DirectionCredit req] = None"
  using assms by (simp add: ValidateBalanced_def movement_entry_def isKnownDirection_def)

text \<open>
  The running totals are the exact sums modulo 2 to the 64: the word of the integer net of the
  currency.
\<close>

definition total_of :: "string \<Rightarrow> (string \<times> i64) list \<Rightarrow> i64" where
  "total_of c totals = (case map_of totals c of None \<Rightarrow> 0 | Some t \<Rightarrow> t)"

lemma total_of_add: "total_of c (add_total c' w totals) = total_of c totals + (if c = c' then w else 0)"
  by (induction c' w totals rule: add_total.induct) (auto simp: total_of_def)

lemma dom_add_total: "fst ` set (add_total c w totals) = insert c (fst ` set totals)"
  by (induction c w totals rule: add_total.induct) auto

lemma distinct_add_total: "distinct (map fst totals) \<Longrightarrow> distinct (map fst (add_total c w totals))"
proof (induction c w totals rule: add_total.induct)
  case (2 c w c' t ts)
  then show ?case using dom_add_total [of c w ts] by (auto simp: image_iff)
qed simp

lemma tally_Inr:
  assumes "tally ut es totals = Inr totals'" and "distinct (map fst totals)"
  shows "total_of c totals' = total_of c totals + i64_of (net (\<lambda>e. en_Currency e = c) es)
    \<and> distinct (map fst totals') \<and> fst ` set totals' = fst ` set totals \<union> en_Currency ` set es"
  using assms
proof (induction ut es totals rule: tally.induct)
  case (2 ut e es totals)
  let ?w = "if en_Direction e = DirectionDebit then en_AmountCents e else - en_AmountCents e"
  have w: "i64_of (signed_amount e) = ?w"
    by (simp add: signed_amount_def i64_of_def)
  have rest: "tally ut es (add_total (en_Currency e) ?w totals) = Inr totals'"
    using 2(2) by (auto split: if_splits)
  have "total_of c totals' = total_of c (add_total (en_Currency e) ?w totals)
        + i64_of (net (\<lambda>e. en_Currency e = c) es)
    \<and> distinct (map fst totals') \<and> fst ` set totals' = fst ` set (add_total (en_Currency e) ?w totals) \<union> en_Currency ` set es"
    using 2 rest distinct_add_total [OF 2(3)] by (auto split: if_splits)
  then show ?case
    using w by (auto simp: total_of_add dom_add_total i64_of_def add.assoc)
qed (simp add: i64_of_def)

definition entry_valid :: "'x unicode_tables_scheme \<Rightarrow> entry \<Rightarrow> bool" where
  "entry_valid ut e \<longleftrightarrow> 0 < sint (en_AmountCents e) \<and> isKnownDirection (en_Direction e) \<and> isCurrency ut (en_Currency e)"

lemma tally_result:
  "(\<exists>totals'. tally ut es totals = Inr totals') \<longleftrightarrow> list_all (entry_valid ut) es"
  "tally ut es totals = Inl e \<Longrightarrow> e = ErrValidation \<and> \<not> list_all (entry_valid ut) es"
  by (induction ut es totals rule: tally.induct) (auto simp: entry_valid_def not_less split: if_splits)

lemma totals_zero:
  assumes "distinct (map fst totals)"
  shows "list_all (\<lambda>(_, t). t = 0) totals \<longleftrightarrow> (\<forall>c. total_of c totals = 0)"
proof
  assume "list_all (\<lambda>(_, t). t = 0) totals"
  then show "\<forall>c. total_of c totals = 0"
    by (auto simp: total_of_def list_all_iff split: option.splits dest!: map_of_SomeD)
next
  assume zero: "\<forall>c. total_of c totals = 0"
  show "list_all (\<lambda>(_, t). t = 0) totals"
    unfolding list_all_iff
  proof (clarify)
    fix c t
    assume "(c, t) \<in> set totals"
    then have "map_of totals c = Some t" using assms by simp
    with zero show "t = 0" by (metis option.simps(5) total_of_def)
  qed
qed

section \<open>What the service needs of a repository\<close>

definition once_effect ::
  "'x ctx_scheme \<Rightarrow> string \<Rightarrow> string \<Rightarrow> entry list \<Rightarrow> (string \<times> string) list \<Rightarrow> entry list
     \<Rightarrow> (string \<times> string) list \<Rightarrow> entry list \<Rightarrow> (err + entry list \<times> bool) \<Rightarrow> bool"
where
  "once_effect cx eid agg es seen ents seen' ents' res \<longleftrightarrow>
     (seen' = seen \<and> ents' = ents \<and> ((\<exists>er. res = Inl er)
        \<or> (res = Inr ([], False) \<and> (\<exists>u. pg_uuid cx eid = Some u \<and> u \<in> fst ` set seen))))
   \<or> (\<exists>u cs. pg_uuid cx eid = Some u \<and> u \<notin> fst ` set seen \<and> seen' = seen @ [(u, agg)] \<and> ents' = ents @ cs
        \<and> list_all2 (stores cx) es cs \<and> (res = Inr (cs, True) \<or> (\<exists>er. res = Inl er)))"

locale ledger_store =
  fixes R :: "('x ctx_scheme, 's) ledger_repository"
    and accounts_of :: "'s \<Rightarrow> account list"
    and entries_of :: "'s \<Rightarrow> entry list"
    and seen_of :: "'s \<Rightarrow> (string \<times> string) list"
  assumes ensure: "led_EnsureAccount R cx name cur nb s = (ra, s')
      \<Longrightarrow> entries_of s' = entries_of s \<and> seen_of s' = seen_of s \<and> set (accounts_of s) \<subseteq> set (accounts_of s')
        \<and> (\<forall>a. ra = Inr a \<longrightarrow> a \<in> set (accounts_of s') \<and> a_Name a = name \<and> pg_char3 cur = Some (a_Currency a))"
    and once: "led_CreateTransactionOnce R cx eid et agg es s = (res, s')
      \<Longrightarrow> accounts_of s' = accounts_of s
        \<and> once_effect cx eid agg es (seen_of s) (entries_of s) (seen_of s') (entries_of s') res"
begin

text \<open>Building the entries touches only accounts, and yields the double entry of the request.\<close>

lemma build_effect:
  assumes "buildPaymentMovement R cx request s = (res, s')"
  shows "entries_of s' = entries_of s \<and> seen_of s' = seen_of s \<and> set (accounts_of s) \<subseteq> set (accounts_of s')"
  using assms
  by (auto simp: buildPaymentMovement_def Let_def split: option.splits prod.splits sum.splits dest!: ensure)

lemma build_entries:
  assumes "buildPaymentMovement R cx request s = (Inr es, s')"
  obtains cash payable req where "req = normalize_movement (cx 0) request"
    and "es = [movement_entry (cx 2) 1 cash DirectionDebit req, movement_entry (cx 2) 2 payable DirectionCredit req]"
    and "cash \<in> set (accounts_of s')" and "a_Name cash = cashAccountName"
    and "payable \<in> set (accounts_of s')" and "a_Name payable = merchantPayableAccountName"
    and "pg_char3 (mr_Currency req) = Some (a_Currency cash)"
    and "pg_char3 (mr_Currency req) = Some (a_Currency payable)"
    and "mr_PaymentID req \<noteq> []" and "0 < sint (mr_AmountCents req)" and "isCurrency (cx 0) (mr_Currency req)"
proof -
  let ?req = "normalize_movement (cx 0) request"
  from assms have valid: "validatePaymentMovement (cx 0) ?req = None"
    by (auto simp: buildPaymentMovement_def Let_def split: option.splits)
  from assms valid obtain cash s1 payable where
    1: "led_EnsureAccount R (cx 0) cashAccountName (mr_Currency ?req) DirectionDebit s = (Inr cash, s1)"
    and 2: "led_EnsureAccount R (cx 1) merchantPayableAccountName (mr_Currency ?req) DirectionCredit s1 = (Inr payable, s')"
    and es: "es = [movement_entry (cx 2) 1 cash DirectionDebit ?req, movement_entry (cx 2) 2 payable DirectionCredit ?req]"
    by (auto simp: buildPaymentMovement_def Let_def split: option.splits prod.splits sum.splits)
  from ensure [OF 1] ensure [OF 2] es valid show ?thesis
    by (intro that [of ?req cash payable]) (auto simp: validatePaymentMovement_None)
qed

end

section \<open>PostgreSQL as the repository\<close>

definition seen_events :: "led_db \<Rightarrow> (string \<times> string) list" where
  "seen_events db = map (\<lambda>c. (ce_event_id c, ce_aggregate_id c)) (consumed db)"

lemma fst_seen_events: "fst ` set (seen_events db) = set (map ce_event_id (consumed db))"
  by (force simp: seen_events_def)

lemma grows_facts:
  assumes "grows cx name nb db db'"
  shows "entries db' = entries db" "consumed db' = consumed db" "replays db' = replays db"
    "set (accounts db) \<subseteq> set (accounts db')"
  using assms by (auto simp: grows_def)

interpretation pg_ledger: ledger_store PostgresLedgerRepository accounts entries seen_events
proof unfold_locales
  fix cx :: "'x ctx_scheme" and name cur nb db res db'
  assume "led_EnsureAccount PostgresLedgerRepository cx name cur nb db = (res, db')"
  then have run: "EnsureAccount cx name cur nb db = (res, db')" by simp
  have g: "grows cx name nb db db'" using run by (rule EnsureAccount_grows)
  have "seen_events db' = seen_events db" by (simp add: seen_events_def grows_facts [OF g])
  moreover have "a \<in> set (accounts db') \<and> a_Name a = name \<and> pg_char3 cur = Some (a_Currency a)" if "res = Inr a" for a
    using EnsureAccount_Inr [OF run [unfolded that]] .
  ultimately show "entries db' = entries db \<and> seen_events db' = seen_events db
      \<and> set (accounts db) \<subseteq> set (accounts db')
      \<and> (\<forall>a. res = Inr a \<longrightarrow> a \<in> set (accounts db') \<and> a_Name a = name \<and> pg_char3 cur = Some (a_Currency a))"
    using grows_facts [OF g] by blast
next
  fix cx :: "'x ctx_scheme" and eid et agg es db res db'
  assume "led_CreateTransactionOnce PostgresLedgerRepository cx eid et agg es db = (res, db')"
  then have "CreateTransactionOnce cx eid et agg es db = (res, db')" by simp
  then show "accounts db' = accounts db
      \<and> once_effect cx eid agg es (seen_events db) (entries db) (seen_events db') (entries db') res"
  proof (cases rule: CreateTransactionOnce_effect)
    case (consumed cs)
    then obtain c where c: "pg_uuid cx eid = Some (ce_event_id c)" "ce_event_id c \<notin> set (map ce_event_id (led_db.consumed db))"
      "ce_aggregate_id c = agg" "db' = db\<lparr>consumed := led_db.consumed db @ [c], entries := entries db @ cs\<rparr>"
      "list_all2 (stores cx) es cs"
      by (auto simp: consumes_def)
    then have "once_effect cx eid agg es (seen_events db) (entries db) (seen_events db') (entries db') res"
      unfolding once_effect_def fst_seen_events using consumed(2)
      by (intro disjI2 exI [of _ "ce_event_id c"] exI [of _ cs]) (simp add: seen_events_def)
    with c show ?thesis by simp
  qed (auto simp: once_effect_def fst_seen_events)
qed

end
