(* ===== verification/Ledger_System.thy ===== *)
theory Ledger_System
  imports Ledger_Service
begin

text \<open>
  The invariant of the ledger: accounts, double entries and consumed events fit together, and
  recording a payment keeps it whatever other transactions do in between.
\<close>

section \<open>The invariant\<close>

definition account_kind :: "account \<Rightarrow> bool" where
  "account_kind a \<longleftrightarrow>
     (a_Name a = cashAccountName \<and> a_NormalBalance a = DirectionDebit)
   \<or> (a_Name a = merchantPayableAccountName \<and> a_NormalBalance a = DirectionCredit)"

definition accounts_ok :: "'x lib_scheme \<Rightarrow> account list \<Rightarrow> bool" where
  "accounts_ok L as \<longleftrightarrow> distinct (map a_ID as) \<and> distinct (map (\<lambda>a. (a_Name a, a_Currency a)) as)
     \<and> (\<forall>a \<in> set as. account_kind a \<and> pg_uuid L (a_ID a) = Some (a_ID a))"

text \<open>An entry stands on an account of its currency, on the account's normal side.\<close>

definition entry_ok :: "account list \<Rightarrow> entry \<Rightarrow> bool" where
  "entry_ok as e \<longleftrightarrow> 0 < sint (en_AmountCents e) \<and> en_ReferenceType e = ''payment''
     \<and> (\<exists>a \<in> set as. a_ID a = en_AccountID e \<and> a_Currency a = en_Currency e \<and> a_NormalBalance a = en_Direction e)"

definition balanced :: "entry list \<Rightarrow> bool" where
  "balanced es \<longleftrightarrow> (\<forall>t c. net (\<lambda>e. en_TransactionID e = t \<and> en_Currency e = c) es = 0)
     \<and> (\<forall>c. net (\<lambda>e. en_Currency e = c) es = 0)"

definition entries_for :: "direction \<Rightarrow> string \<Rightarrow> entry list \<Rightarrow> entry list" where
  "entries_for d p es = filter (\<lambda>e. en_ReferenceID e = p \<and> en_Direction e = d) es"

text \<open>Every consumed event of a payment stands for one debit and one credit of it.\<close>

definition once_each :: "entry list \<Rightarrow> (string \<times> string) list \<Rightarrow> bool" where
  "once_each es seen \<longleftrightarrow> (\<forall>p. \<forall>d \<in> {DirectionDebit, DirectionCredit}.
     length (entries_for d p es) = length (filter (\<lambda>(_, q). q = p) seen))"

definition led_inv :: "'x lib_scheme \<Rightarrow> led_db \<Rightarrow> bool" where
  "led_inv L db \<longleftrightarrow> accounts_ok L (accounts db) \<and> list_all (entry_ok (accounts db)) (entries db)
     \<and> balanced (entries db) \<and> distinct (map fst (seen_events db)) \<and> once_each (entries db) (seen_events db)"

lemma led_inv_empty [simp]: "led_inv L empty_led_db"
  by (simp add: led_inv_def empty_led_db_def accounts_ok_def balanced_def once_each_def entries_for_def seen_events_def)

lemma entry_ok_mono: "entry_ok as e \<Longrightarrow> set as \<subseteq> set as' \<Longrightarrow> entry_ok as' e"
  by (auto simp: entry_ok_def)

lemma grows_accounts_ok:
  assumes g: "grows cx name nb db db'" and ok: "accounts_ok L (accounts db)"
    and kind: "(name, nb) \<in> {(cashAccountName, DirectionDebit), (merchantPayableAccountName, DirectionCredit)}"
    and lib: "lib.truncate cx = lib.truncate L" and canon: "\<forall>x u. pg_uuid L x = Some u \<longrightarrow> pg_uuid L u = Some u"
  shows "accounts_ok L (accounts db')"
proof (cases "db' = db")
  case False
  with g obtain a where a: "pg_uuid cx (cx_uuid cx 0) = Some (a_ID a)" "accounts db' = accounts db @ [a]"
    "a_Name a = name" "a_NormalBalance a = nb" "a_ID a \<notin> set (map a_ID (accounts db))"
    "\<forall>x \<in> set (accounts db). \<not> (a_Name x = name \<and> a_Currency x = a_Currency a)"
    by (auto simp: grows_def)
  have "account_kind a" using kind a by (auto simp: account_kind_def)
  moreover have "pg_uuid L (a_ID a) = Some (a_ID a)" using canon a(1) lib_eq(4) [OF lib] by simp
  ultimately show ?thesis using ok a by (auto simp: accounts_ok_def)
qed (use ok in simp)

lemma grows_inv:
  assumes g: "grows cx name nb db db'" and inv: "led_inv L db"
    and kind: "(name, nb) \<in> {(cashAccountName, DirectionDebit), (merchantPayableAccountName, DirectionCredit)}"
    and lib: "lib.truncate cx = lib.truncate L" and canon: "\<forall>x u. pg_uuid L x = Some u \<longrightarrow> pg_uuid L u = Some u"
  shows "led_inv L db'"
proof -
  have "list_all (entry_ok (accounts db')) (entries db')"
    using inv grows_facts [OF g] entry_ok_mono by (auto simp: led_inv_def list_all_iff)
  moreover have "accounts_ok L (accounts db')"
    by (rule grows_accounts_ok [OF g _ kind lib canon]) (use inv in \<open>simp add: led_inv_def\<close>)
  ultimately show ?thesis
    using inv grows_facts [OF g] by (simp add: led_inv_def seen_events_def)
qed

text \<open>Appending the double entry of a newly consumed event.\<close>

lemma double_entry_inv:
  assumes inv: "led_inv L db"
    and entries: "entries db' = entries db @ [d, k]" and accounts: "accounts db' = accounts db"
    and seen: "seen_events db' = seen_events db @ [(u, p)]" "u \<notin> fst ` set (seen_events db)"
    and ok: "entry_ok (accounts db) d" "entry_ok (accounts db) k"
    and dirs: "en_Direction d = DirectionDebit" "en_Direction k = DirectionCredit"
    and same: "en_AmountCents k = en_AmountCents d" "en_Currency k = en_Currency d"
      "en_TransactionID k = en_TransactionID d" "en_ReferenceID d = p" "en_ReferenceID k = p"
  shows "led_inv L db'"
proof -
  have "balanced (entries db')"
    using inv dirs same by (auto simp: led_inv_def balanced_def entries signed_amount_def)
  moreover have "once_each (entries db') (seen_events db')"
    using inv dirs same by (auto simp: led_inv_def once_each_def entries seen entries_for_def)
  moreover have "distinct (map fst (seen_events db'))"
    using inv seen by (simp add: led_inv_def)
  ultimately show ?thesis using inv ok by (simp add: led_inv_def entries accounts)
qed

section \<open>Recording keeps the invariant\<close>

definition harmless :: "'x lib_scheme \<Rightarrow> (led_db \<Rightarrow> led_db) \<Rightarrow> bool" where
  "harmless L others \<longleftrightarrow> (\<forall>db. set (accounts db) \<subseteq> set (accounts (others db)) \<and> (led_inv L db \<longrightarrow> led_inv L (others db)))"

lemma harmless_id [simp]: "harmless L (\<lambda>s. s)" "harmless L id"
  by (simp_all add: harmless_def)

lemma build_inv:
  assumes run: "buildPaymentMovement PostgresLedgerRepository cx request db = (res, db')" and inv: "led_inv L db"
    and lib: "\<forall>i. lib.truncate (cx i) = lib.truncate L"
    and canon: "\<forall>x u. pg_uuid L x = Some u \<longrightarrow> pg_uuid L u = Some u"
  shows "led_inv L db'"
proof -
  let ?req = "normalize_movement (cx 0) request"
  have step: "led_inv L s'" if "EnsureAccount (cx i) name (mr_Currency ?req) nb s = (r, s')" "led_inv L s"
    "(name, nb) \<in> {(cashAccountName, DirectionDebit), (merchantPayableAccountName, DirectionCredit)}"
    for i name nb s r s'
    by (rule grows_inv [OF EnsureAccount_grows [OF that(1)] that(2,3) lib [rule_format] canon])
  show ?thesis
  proof (cases "validatePaymentMovement (cx 0) ?req")
    case None
    obtain r1 s1 where 1: "EnsureAccount (cx 0) cashAccountName (mr_Currency ?req) DirectionDebit db = (r1, s1)" by force
    from step [OF 1 inv] have i1: "led_inv L s1" by simp
    show ?thesis
    proof (cases r1)
      case (Inr cash)
      obtain r2 s2 where 2: "EnsureAccount (cx 1) merchantPayableAccountName (mr_Currency ?req) DirectionCredit s1 = (r2, s2)" by force
      from step [OF 2 i1] have "led_inv L s2" by simp
      with run None 1 2 Inr show ?thesis
        by (auto simp: buildPaymentMovement_def Let_def split: sum.splits option.splits)
    qed (use run None 1 i1 in \<open>simp add: buildPaymentMovement_def Let_def\<close>)
  qed (use run inv in \<open>simp add: buildPaymentMovement_def Let_def\<close>)
qed

text \<open>
  What a delivery of an event does to the ledger, given the invariant: nothing but new
  accounts, or the consumed event and its double entry.
\<close>

definition double_entry :: "account list \<Rightarrow> i64 \<Rightarrow> string \<Rightarrow> entry \<Rightarrow> entry \<Rightarrow> bool" where
  "double_entry as amount p d k \<longleftrightarrow>
     entry_ok as d \<and> entry_ok as k \<and> en_Direction d = DirectionDebit \<and> en_Direction k = DirectionCredit
     \<and> en_AmountCents d = amount \<and> en_AmountCents k = amount \<and> en_Currency k = en_Currency d
     \<and> en_TransactionID k = en_TransactionID d \<and> en_ReferenceID d = p \<and> en_ReferenceID k = p"

lemma stored_entry_ok:
  assumes st: "stores cx (movement_entry cx' i a dir req) c" and acc: "accounts_ok L as"
    and a: "a \<in> set as" "pg_char3 (mr_Currency req) = Some (a_Currency a)" "a_NormalBalance a = dir"
    and amount: "0 < sint (mr_AmountCents req)" and lib: "lib.truncate cx = lib.truncate L"
  shows "entry_ok as c"
proof -
  have "pg_uuid cx (a_ID a) = Some (a_ID a)" using acc a(1) lib_eq(4) [OF lib] by (simp add: accounts_ok_def)
  with st a amount show ?thesis
    by (auto simp: stores_def movement_entry_def entry_ok_def)
qed

definition delivery ::
  "'x lib_scheme \<Rightarrow> string \<Rightarrow> payment_movement_request \<Rightarrow> led_db \<Rightarrow> (err + entry list \<times> bool) \<Rightarrow> led_db \<Rightarrow> bool"
where
  "delivery L eid request db res db' \<longleftrightarrow> accounts db' = accounts db
     \<and> ((entries db' = entries db \<and> seen_events db' = seen_events db
          \<and> ((\<exists>er. res = Inl er) \<or> (res = Inr ([], False)
               \<and> (\<exists>u. pg_uuid L (trim_space eid) = Some u \<and> u \<in> fst ` set (seen_events db)))))
       \<or> (\<exists>u d k. pg_uuid L (trim_space eid) = Some u \<and> u \<notin> fst ` set (seen_events db)
            \<and> seen_events db' = seen_events db @ [(u, trim_space (mr_PaymentID request))]
            \<and> entries db' = entries db @ [d, k]
            \<and> double_entry (accounts db') (mr_AmountCents request) (trim_space (mr_PaymentID request)) d k
            \<and> (res = Inr ([d, k], True) \<or> (\<exists>er. res = Inl er))))"

lemma delivery_inv:
  assumes del: "delivery L eid request db res db'" and inv: "led_inv L db"
  shows "led_inv L db'"
proof -
  have acc: "accounts db' = accounts db" using del by (simp add: delivery_def)
  from del consider (same) "entries db' = entries db" "seen_events db' = seen_events db"
    | (new) u d k where "u \<notin> fst ` set (seen_events db)"
      "seen_events db' = seen_events db @ [(u, trim_space (mr_PaymentID request))]"
      "entries db' = entries db @ [d, k]"
      "double_entry (accounts db') (mr_AmountCents request) (trim_space (mr_PaymentID request)) d k"
    unfolding delivery_def by blast
  then show ?thesis
  proof cases
    case same
    with acc inv show ?thesis by (simp add: led_inv_def)
  next
    case (new u d k)
    from new(4) acc show ?thesis
      by (intro double_entry_inv [OF inv new(3) acc new(2,1)]) (auto simp: double_entry_def)
  qed
qed

lemma normal_side:
  assumes "accounts_ok L as" and "a \<in> set as"
  shows "a_Name a = cashAccountName \<Longrightarrow> a_NormalBalance a = DirectionDebit"
    and "a_Name a = merchantPayableAccountName \<Longrightarrow> a_NormalBalance a = DirectionCredit"
  using assms by (auto simp: accounts_ok_def account_kind_def)

lemma once_effect_delivery:
  assumes eff: "once_effect cx (trim_space eid) (mr_PaymentID req)
         [movement_entry cx 1 cash DirectionDebit req, movement_entry cx 2 payable DirectionCredit req]
         (seen_events db) (entries db) (seen_events db') (entries db') res"
    and acc: "accounts_ok L (accounts db')" "accounts db' = accounts db"
    and cash: "cash \<in> set (accounts db')" "a_Name cash = cashAccountName" "pg_char3 (mr_Currency req) = Some (a_Currency cash)"
    and payable: "payable \<in> set (accounts db')" "a_Name payable = merchantPayableAccountName"
      "pg_char3 (mr_Currency req) = Some (a_Currency payable)"
    and amount: "0 < sint (mr_AmountCents req)" and lib: "lib.truncate cx = lib.truncate L"
    and req: "mr_PaymentID req = trim_space (mr_PaymentID request)" "mr_AmountCents req = mr_AmountCents request"
  shows "delivery L eid request db res db'"
proof -
  from eff consider (same) "seen_events db' = seen_events db" "entries db' = entries db" "\<exists>er. res = Inl er"
    | (duplicate) u where "seen_events db' = seen_events db" "entries db' = entries db" "res = Inr ([], False)"
        "pg_uuid cx (trim_space eid) = Some u" "u \<in> fst ` set (seen_events db)"
    | (new) u cs where "pg_uuid cx (trim_space eid) = Some u" "u \<notin> fst ` set (seen_events db)"
        "seen_events db' = seen_events db @ [(u, mr_PaymentID req)]" "entries db' = entries db @ cs"
        "list_all2 (stores cx) [movement_entry cx 1 cash DirectionDebit req,
          movement_entry cx 2 payable DirectionCredit req] cs"
        "res = Inr (cs, True) \<or> (\<exists>er. res = Inl er)"
    unfolding once_effect_def by blast
  then show ?thesis
  proof cases
    case same
    then show ?thesis by (simp add: delivery_def acc(2))
  next
    case duplicate
    then show ?thesis by (auto simp: delivery_def acc(2) lib_eq(4) [OF lib])
  next
    case (new u cs)
    from new(5) obtain d k where cs: "cs = [d, k]" and d: "stores cx (movement_entry cx 1 cash DirectionDebit req) d"
      and k: "stores cx (movement_entry cx 2 payable DirectionCredit req) k"
      by (auto simp: list_all2_Cons1)
    have "entry_ok (accounts db') d"
      by (rule stored_entry_ok [OF d acc(1) cash(1,3) normal_side(1) [OF acc(1) cash(1,2)] amount lib])
    moreover have "entry_ok (accounts db') k"
      by (rule stored_entry_ok [OF k acc(1) payable(1,3) normal_side(2) [OF acc(1) payable(1,2)] amount lib])
    ultimately have "double_entry (accounts db') (mr_AmountCents request) (trim_space (mr_PaymentID request)) d k"
      using d k req cash(3) payable(3) by (auto simp: double_entry_def stores_def movement_entry_def)
    with new cs req show ?thesis by (simp add: delivery_def acc(2) lib_eq(4) [OF lib])
  qed
qed

lemma written_delivery:
  assumes run: "CreateTransactionOnce cx (trim_space eid) et (trim_space (mr_PaymentID request)) es db = (res, db')"
    and es: "es = [movement_entry cx 1 cash DirectionDebit req, movement_entry cx 2 payable DirectionCredit req]"
    and req: "mr_PaymentID req = trim_space (mr_PaymentID request)" "mr_AmountCents req = mr_AmountCents request"
    and ok: "accounts_ok L (accounts db)"
    and cash: "cash \<in> set (accounts db)" "a_Name cash = cashAccountName" "pg_char3 (mr_Currency req) = Some (a_Currency cash)"
    and payable: "payable \<in> set (accounts db)" "a_Name payable = merchantPayableAccountName"
      "pg_char3 (mr_Currency req) = Some (a_Currency payable)"
    and amount: "0 < sint (mr_AmountCents req)" and lib: "lib.truncate cx = lib.truncate L"
  shows "delivery L eid request db res db'"
proof -
  from pg_ledger.once [of cx] run have acc: "accounts db' = accounts db"
    and eff: "once_effect cx (trim_space eid) (mr_PaymentID req) es (seen_events db) (entries db) (seen_events db') (entries db') res"
    unfolding req by auto
  show ?thesis
    by (rule once_effect_delivery [OF eff [unfolded es] _ acc _ cash(2,3) _ payable(2,3) amount lib req])
      (use acc ok cash(1) payable(1) in simp_all)
qed

text \<open>The whole operation: it stops before writing, or delivers to what the others left.\<close>

lemma record_once_steps:
  assumes run: "RecordPaymentMovementOnce PostgresLedgerRepository cx others eid et request db = (res, db')"
    and inv: "led_inv L db" and others: "harmless L others"
    and lib: "\<forall>i. lib.truncate (cx i) = lib.truncate L"
    and canon: "\<forall>x u. pg_uuid L x = Some u \<longrightarrow> pg_uuid L u = Some u"
  obtains (stopped) er where "res = Inl er" "led_inv L db'" "entries db' = entries db" "seen_events db' = seen_events db"
  | (wrote) s1 where "led_inv L s1" "entries s1 = entries db" "seen_events s1 = seen_events db"
      "delivery L eid request (others s1) res db'"
proof -
  have grow: "set (accounts s) \<subseteq> set (accounts (others s))" for s using others by (simp add: harmless_def)
  show ?thesis
  proof (cases "\<not> uuid_parse (cx 0) (trim_space eid) \<or> trim_space et = []")
    case True
    with run inv show ?thesis
      by (intro stopped [of ErrValidation]) (auto simp: RecordPaymentMovementOnce_def Let_def split: if_splits)
  next
    case False
    obtain b s1 where build: "buildPaymentMovement PostgresLedgerRepository cx request db = (b, s1)" by force
    note inv1 = build_inv [OF build inv lib canon]
    show ?thesis
    proof (cases b)
      case (Inl er)
      with run False build inv1 pg_ledger.build_effect [OF build] show ?thesis
        by (intro stopped [of er]) (auto simp: RecordPaymentMovementOnce_def Let_def)
    next
      case (Inr es)
      with run False build have written: "CreateTransactionOnce (cx 2) (trim_space eid) (trim_space et)
          (trim_space (mr_PaymentID request)) es (others s1) = (res, db')"
        by (auto simp: RecordPaymentMovementOnce_def Let_def split: prod.splits sum.splits)
      have ok: "accounts_ok L (accounts (others s1))" using others inv1 by (simp add: harmless_def led_inv_def)
      from build [unfolded Inr] have "delivery L eid request (others s1) res db'"
      proof (rule pg_ledger.build_entries)
        fix cash payable req
        assume b: "req = normalize_movement (cx 0) request"
          "es = [movement_entry (cx 2) 1 cash DirectionDebit req, movement_entry (cx 2) 2 payable DirectionCredit req]"
          "cash \<in> set (accounts s1)" "a_Name cash = cashAccountName"
          "payable \<in> set (accounts s1)" "a_Name payable = merchantPayableAccountName"
          "pg_char3 (mr_Currency req) = Some (a_Currency cash)" "pg_char3 (mr_Currency req) = Some (a_Currency payable)"
          "0 < sint (mr_AmountCents req)"
        show ?thesis
          by (rule written_delivery [OF written b(2) _ _ ok _ b(4,7) _ b(6,8,9)])
            (use b(1,3,5) grow [of s1] lib in \<open>auto simp: normalize_movement_def\<close>)
      qed
      with inv1 pg_ledger.build_effect [OF build] show ?thesis by (intro wrote [of s1]) auto
    qed
  qed
qed

lemma record_once_inv:
  assumes "RecordPaymentMovementOnce PostgresLedgerRepository cx others eid et request db = (res, db')"
    and "led_inv L db" and others: "harmless L others" and "\<forall>i. lib.truncate (cx i) = lib.truncate L"
    and "\<forall>x u. pg_uuid L x = Some u \<longrightarrow> pg_uuid L u = Some u"
  shows "led_inv L db'"
  using assms
proof (cases rule: record_once_steps)
  case (wrote s1)
  from others wrote(1) have "led_inv L (others s1)" by (simp add: harmless_def)
  with wrote(4) show ?thesis by (rule delivery_inv)
qed simp

section \<open>Balances\<close>

lemma account_entries:
  assumes inv: "led_inv L db" and a: "a \<in> set (accounts db)" and e: "e \<in> set (entries db)"
  shows "en_AccountID e = a_ID a \<longleftrightarrow> en_Currency e = a_Currency a \<and> en_Direction e = a_NormalBalance a"
proof -
  from inv e obtain x where x: "x \<in> set (accounts db)" "a_ID x = en_AccountID e" "a_Currency x = en_Currency e"
    "a_NormalBalance x = en_Direction e"
    by (auto simp: led_inv_def list_all_iff entry_ok_def)
  have kinds: "account_kind a" "account_kind x" using inv a x by (auto simp: led_inv_def accounts_ok_def)
  show ?thesis
  proof
    assume "en_AccountID e = a_ID a"
    with x a inv have "x = a" by (auto simp: led_inv_def accounts_ok_def distinct_map inj_on_def)
    with x show "en_Currency e = a_Currency a \<and> en_Direction e = a_NormalBalance a" by simp
  next
    assume same: "en_Currency e = a_Currency a \<and> en_Direction e = a_NormalBalance a"
    with kinds x have "a_Name x = a_Name a" by (auto simp: account_kind_def)
    with same x a inv have "x = a" by (auto simp: led_inv_def accounts_ok_def distinct_map inj_on_def)
    with x show "en_AccountID e = a_ID a" by simp
  qed
qed

definition side_sum :: "direction \<Rightarrow> string \<Rightarrow> entry list \<Rightarrow> int" where
  "side_sum d c es = sum_list (map (\<lambda>e. sint (en_AmountCents e)) (filter (\<lambda>e. en_Currency e = c \<and> en_Direction e = d) es))"

lemma net_sides:
  assumes "\<forall>e \<in> set es. en_Direction e \<in> {DirectionDebit, DirectionCredit}"
  shows "net (\<lambda>e. en_Currency e = c) es = side_sum DirectionDebit c es - side_sum DirectionCredit c es"
  using assms by (induction es) (auto simp: side_sum_def signed_amount_def)

lemma account_sum_side:
  assumes inv: "led_inv L db" and a: "a \<in> set (accounts db)"
  shows "account_sum db a = side_sum (a_NormalBalance a) (a_Currency a) (entries db)"
proof -
  have "filter (\<lambda>e. en_AccountID e = a_ID a) (entries db)
      = filter (\<lambda>e. en_Currency e = a_Currency a \<and> en_Direction e = a_NormalBalance a) (entries db)"
    using account_entries [OF inv a] by (intro filter_cong) auto
  then show ?thesis unfolding account_sum_def side_sum_def
    by (intro arg_cong [where f = sum_list]) (auto intro: map_cong)
qed

lemma sides_equal:
  assumes "led_inv L db"
  shows "side_sum DirectionDebit c (entries db) = side_sum DirectionCredit c (entries db)"
proof -
  have "\<forall>e \<in> set (entries db). en_Direction e \<in> {DirectionDebit, DirectionCredit}"
    using assms by (fastforce simp: led_inv_def accounts_ok_def list_all_iff entry_ok_def account_kind_def)
  from net_sides [OF this] assms show ?thesis by (simp add: led_inv_def balanced_def)
qed

lemma query_rows_Inr:
  assumes "query_rows cx a b c rows = Inr xs"
  shows "rows = map Inr xs"
proof -
  have "find isl rows \<noteq> Some (Inr y)" for y by (auto simp: find_Some_iff isl_def)
  then have "find isl rows = None" "xs = map projr rows"
    using assms by (auto simp: query_rows_def split: option.splits sum.splits if_splits)
  then have "\<forall>r \<in> set rows. Inr (projr r) = r" by (auto simp: find_None_iff sum.collapse(2))
  with \<open>xs = map projr rows\<close> show ?thesis by (simp add: map_idI)
qed

end
