(* ===== verification/Ledger_Consumer.thy ===== *)
theory Ledger_Consumer
  imports Dead_Letter Ledger_System
begin

text \<open>
  \<open>consumer/payment_consumer.go\<close>: handling one Kafka message, the retries with their waits, and
  the loop that commits a message when it was handled or dead-lettered. The \<open>Ledger\<close> interface
  is a function of the environment of the call, the event and the ledger's state.
\<close>

type_synonym ('c, 's) ledger_port =
  "'c \<Rightarrow> string \<Rightarrow> string \<Rightarrow> payment_movement_request \<Rightarrow> 's \<Rightarrow> (err + entry list \<times> bool) \<times> 's"

definition PaymentCreatedEventName :: string where
  "PaymentCreatedEventName = ''payment.created''"

definition PaymentStatusChangedEventName :: string where
  "PaymentStatusChangedEventName = ''payment.status_changed''"

section \<open>Permanent errors\<close>

definition permanent :: "err \<Rightarrow> err" where
  "permanent e = ErrPermanent e"

text \<open>\<open>errors.As\<close> for a \<open>permanentError\<close>.\<close>

fun isPermanent :: "err \<Rightarrow> bool" where
  "isPermanent (ErrPermanent e) = True"
| "isPermanent (ErrWrap a e b) = isPermanent e"
| "isPermanent _ = False"

section \<open>Handling a message\<close>

record payment_created =
  pc_SchemaVersion :: i64
  pc_PaymentID :: string
  pc_AmountCents :: i64
  pc_Currency :: string

definition payment_created_fields :: "payment_created fields" where
  "payment_created_fields =
     [(''schema_version'', set_i64 (\<lambda>n r. r\<lparr>pc_SchemaVersion := n\<rparr>)),
      (''payment_id'', set_str (\<lambda>s r. r\<lparr>pc_PaymentID := s\<rparr>)),
      (''amount_cents'', set_i64 (\<lambda>n r. r\<lparr>pc_AmountCents := n\<rparr>)),
      (''currency'', set_str (\<lambda>s r. r\<lparr>pc_Currency := s\<rparr>))]"

definition decode_payment_created :: "'x lib_scheme \<Rightarrow> string \<Rightarrow> payment_created option" where
  "decode_payment_created L value =
     (case json_parse L value of
        None \<Rightarrow> None
      | Some j \<Rightarrow> decode_struct False payment_created_fields
          \<lparr>pc_SchemaVersion = 0, pc_PaymentID = [], pc_AmountCents = 0, pc_Currency = []\<rparr> j)"

definition movement_of :: "payment_created \<Rightarrow> payment_movement_request" where
  "movement_of pc =
     \<lparr>mr_PaymentID = pc_PaymentID pc, mr_AmountCents = pc_AmountCents pc, mr_Currency = pc_Currency pc\<rparr>"

definition handlePaymentCreated ::
  "'x lib_scheme \<Rightarrow> ('c, 's) ledger_port \<Rightarrow> 'c \<Rightarrow> string \<Rightarrow> string \<Rightarrow> string \<Rightarrow> 's \<Rightarrow> err option \<times> 's"
where
  "handlePaymentCreated L ledger c eventID eventType value s =
     (case decode_payment_created L value of
        None \<Rightarrow> (Some (permanent (wrap ''decode payment.created payload'' (ErrText (json_error L value)))), s)
      | Some pc \<Rightarrow>
          (case ledger c eventID eventType (movement_of pc) s of
             (Inl e, s') \<Rightarrow> (Some e, s')
           | (Inr (created, processed), s') \<Rightarrow> (None, s')))"

text \<open>The result and the state; the deferred function adds the counters.\<close>

definition HandleMessage ::
  "'x lib_scheme \<Rightarrow> ('c, 's) ledger_port \<Rightarrow> 'c \<Rightarrow> kafka_message \<Rightarrow> 's \<Rightarrow> err option \<times> 's \<times> metric list"
where
  "HandleMessage L ledger c m s =
     (let eventID = headerValue (km_Headers m) ''event_id'';
          eventType = headerValue (km_Headers m) ''event_type'';
          (e, s') =
            (if eventID = [] then (Some (permanent (ErrText ''payment event missing event_id header'')), s)
             else if eventType = PaymentCreatedEventName
             then handlePaymentCreated L ledger c eventID eventType (km_Value m) s
             else (None, s))
      in (e, s', RecordKafkaConsume eventType (km_Topic m) (km_Partition m)
                   (km_HighWaterMark m - km_Offset m - 1) e))"

section \<open>Retries\<close>

text \<open>
  The waits are recorded in the order they are slept. \<open>cancel k\<close> is the context's error when it
  ends during the wait after attempt \<open>k\<close>. \<open>left\<close> counts the attempts that are left.
\<close>

record 's retry_outcome =
  ro_attempts :: int
  ro_err :: "err option"
  ro_state :: 's
  ro_metrics :: "metric list"
  ro_waits :: "i64 list"

definition next_backoff :: "i64 \<Rightarrow> i64 \<Rightarrow> i64" where
  "next_backoff max_backoff backoff =
     (let doubled = backoff * 2 in if sint doubled > sint max_backoff then max_backoff else doubled)"

fun retry_loop ::
  "'x lib_scheme \<Rightarrow> ('c, 's) ledger_port \<Rightarrow> (nat \<Rightarrow> 'c) \<Rightarrow> (nat \<Rightarrow> fault option) \<Rightarrow> i64 \<Rightarrow> kafka_message
     \<Rightarrow> nat \<Rightarrow> nat \<Rightarrow> i64 \<Rightarrow> 's \<Rightarrow> 's retry_outcome"
where
  "retry_loop L ledger env cancel max_backoff m attempt 0 backoff s =
     \<lparr>ro_attempts = int attempt - 1, ro_err = Some (ErrText ''payment event retries exhausted''),
      ro_state = s, ro_metrics = [], ro_waits = []\<rparr>"
| "retry_loop L ledger env cancel max_backoff m attempt (Suc left) backoff s =
     (case HandleMessage L ledger (env attempt) m s of
        (None, s', ms) \<Rightarrow>
          \<lparr>ro_attempts = int attempt, ro_err = None, ro_state = s', ro_metrics = ms, ro_waits = []\<rparr>
      | (Some e, s', ms) \<Rightarrow>
          if isPermanent e \<or> left = 0
          then \<lparr>ro_attempts = int attempt, ro_err = Some e, ro_state = s', ro_metrics = ms, ro_waits = []\<rparr>
          else (let ms' = ms @ RecordKafkaRetry (headerValue (km_Headers m) ''event_type'')
                in case cancel attempt of
                     Some f \<Rightarrow>
                       \<lparr>ro_attempts = int attempt, ro_err = Some (fault_err f), ro_state = s',
                        ro_metrics = ms', ro_waits = [backoff]\<rparr>
                   | None \<Rightarrow>
                       (let r = retry_loop L ledger env cancel max_backoff m (attempt + 1) left
                                  (next_backoff max_backoff backoff) s'
                        in r\<lparr>ro_metrics := ms' @ ro_metrics r, ro_waits := backoff # ro_waits r\<rparr>)))"

record consumer_config =
  cc_maxAttempts :: i64
  cc_retryInitialBackoff :: i64
  cc_retryMaxBackoff :: i64
  cc_deadLetterTopic :: string

definition handleWithRetry ::
  "'x lib_scheme \<Rightarrow> ('c, 's) ledger_port \<Rightarrow> consumer_config \<Rightarrow> (nat \<Rightarrow> 'c) \<Rightarrow> (nat \<Rightarrow> fault option)
     \<Rightarrow> kafka_message \<Rightarrow> 's \<Rightarrow> 's retry_outcome"
where
  "handleWithRetry L ledger cfg env cancel m s =
     (let r = retry_loop L ledger env cancel (cc_retryMaxBackoff cfg) m 1 (nat (sint (cc_maxAttempts cfg)))
                (cc_retryInitialBackoff cfg) s
      in if sint (cc_maxAttempts cfg) < 0 then r\<lparr>ro_attempts := sint (cc_maxAttempts cfg)\<rparr> else r)"

lemma handleWithRetry_simps:
  "ro_state (handleWithRetry L ledger cfg env cancel m s) =
     ro_state (retry_loop L ledger env cancel (cc_retryMaxBackoff cfg) m 1 (nat (sint (cc_maxAttempts cfg)))
       (cc_retryInitialBackoff cfg) s)"
  "ro_err (handleWithRetry L ledger cfg env cancel m s) =
     ro_err (retry_loop L ledger env cancel (cc_retryMaxBackoff cfg) m 1 (nat (sint (cc_maxAttempts cfg)))
       (cc_retryInitialBackoff cfg) s)"
  "ro_waits (handleWithRetry L ledger cfg env cancel m s) =
     ro_waits (retry_loop L ledger env cancel (cc_retryMaxBackoff cfg) m 1 (nat (sint (cc_maxAttempts cfg)))
       (cc_retryInitialBackoff cfg) s)"
  by (simp_all add: handleWithRetry_def Let_def)

section \<open>The loop\<close>

text \<open>
  One turn of the loop: what \<open>FetchMessage\<close> delivers and what happens around it.
\<close>

datatype 'c turn =
    FetchFails err "fault option"
  | Fetched kafka_message "nat \<Rightarrow> 'c" "nat \<Rightarrow> fault option" dead_letter_env "fault option"

record 's consumer_state =
  cs_ledger :: 's
  cs_dead_letters :: "kafka_message list"
  cs_committed :: "kafka_message list"
  cs_metrics :: "metric list"

definition stops :: "err \<Rightarrow> bool" where
  "stops e \<longleftrightarrow> errors_is e ErrCanceled \<or> errors_is e ErrDeadlineExceeded"

definition commit_message ::
  "fault option \<Rightarrow> kafka_message \<Rightarrow> 's consumer_state \<Rightarrow> err option \<times> 's consumer_state"
where
  "commit_message f m st =
     (case f of
        Some f' \<Rightarrow> (Some (wrap ''commit payment event'' (fault_err f')), st)
      | None \<Rightarrow> (None, st\<lparr>cs_committed := cs_committed st @ [m]\<rparr>))"

definition consume_turn ::
  "'x lib_scheme \<Rightarrow> ('c, 's) ledger_port \<Rightarrow> consumer_config \<Rightarrow> 'c turn \<Rightarrow> 's consumer_state
     \<Rightarrow> err option \<times> 's consumer_state"
where
  "consume_turn L ledger cfg t st =
     (case t of
        FetchFails e waiting \<Rightarrow>
          if stops e then (Some e, st)
          else (case waiting of Some f \<Rightarrow> (Some (fault_err f), st) | None \<Rightarrow> (None, st))
      | Fetched m env cancel dle commit \<Rightarrow>
          (let r = handleWithRetry L ledger cfg env cancel m (cs_ledger st);
               st1 = st\<lparr>cs_ledger := ro_state r, cs_metrics := cs_metrics st @ ro_metrics r\<rparr>
           in case ro_err r of
                None \<Rightarrow> commit_message commit m st1
              | Some e \<Rightarrow>
                  if stops e then (Some e, st1)
                  else (case DeadLetter_Publish (cc_deadLetterTopic cfg) dle m e (i64_of (ro_attempts r))
                              (cs_dead_letters st1) of
                          (pe, log) \<Rightarrow>
                            (let st2 = st1\<lparr>cs_dead_letters := log,
                                          cs_metrics := cs_metrics st1 @
                                            RecordDeadLetter (headerValue (km_Headers m) ''event_type'') pe\<rparr>
                             in case pe of
                                  Some e' \<Rightarrow> (Some (wrap ''dead-letter payment event'' e'), st2)
                                | None \<Rightarrow> commit_message commit m st2))))"

text \<open>\<open>Run\<close> over the turns that happen before it is stopped.\<close>

fun Consumer_Run ::
  "'x lib_scheme \<Rightarrow> ('c, 's) ledger_port \<Rightarrow> consumer_config \<Rightarrow> 'c turn list \<Rightarrow> 's consumer_state
     \<Rightarrow> err option \<times> 's consumer_state"
where
  "Consumer_Run L ledger cfg [] st = (None, st)"
| "Consumer_Run L ledger cfg (t # ts) st =
     (case consume_turn L ledger cfg t st of
        (Some e, st') \<Rightarrow> (Some e, st')
      | (None, st') \<Rightarrow> Consumer_Run L ledger cfg ts st')"

section \<open>Attempts and waits\<close>

lemma retry_loop_waits:
  "\<exists>n. n \<le> left - 1 \<and> ro_waits (retry_loop L ledger env cancel mb m attempt left b s)
       = map (\<lambda>i. (next_backoff mb ^^ i) b) [0..<n]"
proof (induction left arbitrary: attempt b s)
  case (Suc left)
  obtain e s' ms where h: "HandleMessage L ledger (env attempt) m s = (e, s', ms)" by (cases "HandleMessage L ledger (env attempt) m s")
  show ?case
  proof (cases "\<exists>er. e = Some er \<and> \<not> isPermanent er \<and> left \<noteq> 0")
    case False
    with h show ?thesis by (intro exI [of _ 0]) (auto split: option.splits)
  next
    case True
    then obtain er where er: "e = Some er" "\<not> isPermanent er" "left \<noteq> 0" by blast
    show ?thesis
    proof (cases "cancel attempt")
      case None
      from Suc.IH [of "attempt + 1" "next_backoff mb b" s'] obtain n where n: "n \<le> left - 1"
        "ro_waits (retry_loop L ledger env cancel mb m (attempt + 1) left (next_backoff mb b) s')
          = map (\<lambda>i. (next_backoff mb ^^ i) (next_backoff mb b)) [0..<n]" by blast
      have "map (\<lambda>i. (next_backoff mb ^^ i) b) [0..<Suc n]
          = b # map (\<lambda>i. (next_backoff mb ^^ i) (next_backoff mb b)) [0..<n]"
        by (simp add: map_upt_Suc funpow_swap1 del: upt_Suc)
      with n h er None show ?thesis by (intro exI [of _ "Suc n"]) (simp add: Let_def)
    next
      case (Some f)
      with h er show ?thesis by (intro exI [of _ 1]) (simp add: Let_def)
    qed
  qed
qed simp

lemma retry_loop_attempts:
  "0 < left \<Longrightarrow> int attempt \<le> ro_attempts (retry_loop L ledger env cancel mb m attempt left b s)
     \<and> ro_attempts (retry_loop L ledger env cancel mb m attempt left b s) < int attempt + int left"
proof (induction left arbitrary: attempt b s)
  case (Suc left)
  obtain e s' ms where h: "HandleMessage L ledger (env attempt) m s = (e, s', ms)"
    by (cases "HandleMessage L ledger (env attempt) m s")
  from Suc.IH [of "attempt + 1" "next_backoff mb b" s'] h show ?case
    by (cases "left = 0") (auto simp: Let_def split: option.splits)
qed simp

text \<open>The waits double up to the maximum, as long as doubling does not overflow.\<close>

lemma next_backoff_sint:
  assumes "0 \<le> sint b" and "sint b < 2 ^ 62"
  shows "sint (next_backoff mb b) = min (2 * sint b) (sint mb)"
proof -
  have "b * 2 = i64_of (2 * sint b)" by (simp add: i64_of_def mult.commute)
  then have "sint (b * 2) = 2 * sint b" using assms by simp
  then show ?thesis by (simp add: next_backoff_def Let_def)
qed

lemma backoff_iterate:
  assumes "0 < sint b" and "sint b \<le> sint mb" and "sint mb < 2 ^ 62"
  shows "sint ((next_backoff mb ^^ i) b) = min (2 ^ i * sint b) (sint mb)"
proof (induction i)
  case 0
  with assms show ?case by simp
next
  case (Suc i)
  have "0 \<le> sint ((next_backoff mb ^^ i) b)" "sint ((next_backoff mb ^^ i) b) < 2 ^ 62"
    using Suc assms by (auto simp: min_def)
  from next_backoff_sint [OF this] Suc assms show ?case by (auto simp: min_def)
qed

section \<open>What the loop needs of the ledger\<close>

text \<open>
  A message is handled when its event is recorded, if it is one the ledger records; it is
  dead-lettered when its record is in the dead-letter topic. The loop only commits such messages.
\<close>

definition handled :: "('s \<Rightarrow> string \<Rightarrow> bool) \<Rightarrow> kafka_message \<Rightarrow> 's \<Rightarrow> bool" where
  "handled recorded m s \<longleftrightarrow> headerValue (km_Headers m) ''event_id'' \<noteq> []
     \<and> (headerValue (km_Headers m) ''event_type'' = PaymentCreatedEventName
          \<longrightarrow> recorded s (headerValue (km_Headers m) ''event_id''))"

definition dead_lettered :: "string \<Rightarrow> kafka_message \<Rightarrow> kafka_message list \<Rightarrow> bool" where
  "dead_lettered topic m log \<longleftrightarrow>
     (\<exists>cause n t text. dead_letter_message topic m (dead_letter_of m cause n (JStr t))
        (text (dead_letter_json (dead_letter_of m cause n (JStr t)))) \<in> set log)"

definition settled :: "('s \<Rightarrow> string \<Rightarrow> bool) \<Rightarrow> string \<Rightarrow> 's consumer_state \<Rightarrow> bool" where
  "settled recorded topic st \<longleftrightarrow>
     (\<forall>m \<in> set (cs_committed st). handled recorded m (cs_ledger st) \<or> dead_lettered topic m (cs_dead_letters st))"

lemma DeadLetter_Publish_log:
  assumes "DeadLetter_Publish topic env m cause n log = (e, log')"
  shows "set log \<subseteq> set log' \<and> (e = None \<longrightarrow> dead_lettered topic m log')"
proof (cases "dp_now env")
  case None
  with assms show ?thesis by (auto simp: DeadLetter_Publish_def)
next
  case (Some now)
  let ?r = "dead_letter_of m cause n (JStr now)"
  let ?out = "dead_letter_message topic m ?r (dp_text env (dead_letter_json ?r))"
  obtain e' log1 where w: "write_message (dp_write env ?out) ?out log = (e', log1)" by force
  with assms Some have l: "log' = log1" "e = None \<longleftrightarrow> e' = None"
    by (auto simp: DeadLetter_Publish_def Let_def split: option.splits)
  have "e' = None \<Longrightarrow> ?out \<in> set log1" using write_message_None [of "dp_write env ?out" ?out log] w by simp
  then have "e' = None \<Longrightarrow> dead_lettered topic m log1" unfolding dead_lettered_def by blast
  with l write_message_log [of log "dp_write env ?out" ?out] w show ?thesis by simp
qed

text \<open>\<open>recorded s i\<close>: the ledger has recorded the event \<open>i\<close>.\<close>

locale once_port =
  fixes port :: "('c, 's) ledger_port"
    and recorded :: "'s \<Rightarrow> string \<Rightarrow> bool"
    and invar :: "'s \<Rightarrow> bool"
    and fine :: "'c \<Rightarrow> bool"
  assumes port: "\<lbrakk>fine c; invar s; port c eid et req s = (res, s')\<rbrakk>
    \<Longrightarrow> invar s' \<and> (\<forall>i. recorded s i \<longrightarrow> recorded s' i) \<and> (\<forall>x. res = Inr x \<longrightarrow> recorded s' eid)"
begin

lemma handle_message:
  assumes "fine c" and "invar s" and "HandleMessage L port c m s = (e, s', ms)"
  shows "invar s' \<and> (\<forall>i. recorded s i \<longrightarrow> recorded s' i) \<and> (e = None \<longrightarrow> handled recorded m s')"
proof -
  have "invar s' \<and> (\<forall>i. recorded s i \<longrightarrow> recorded s' i) \<and> (e = None \<longrightarrow> recorded s' eid)"
    if "handlePaymentCreated L port c eid et v s = (e, s')" for eid et v
    using that assms(2) port [OF assms(1,2)]
    by (auto simp: handlePaymentCreated_def split: option.splits prod.splits sum.splits)
  with assms(2,3) show ?thesis
    by (auto simp: HandleMessage_def Let_def handled_def split: if_splits prod.splits)
qed

lemma retry_handled:
  assumes "\<forall>k. fine (env k)" and "invar s"
  shows "invar (ro_state (retry_loop L port env cancel mb m attempt left b s))
    \<and> (\<forall>i. recorded s i \<longrightarrow> recorded (ro_state (retry_loop L port env cancel mb m attempt left b s)) i)
    \<and> (ro_err (retry_loop L port env cancel mb m attempt left b s) = None
         \<longrightarrow> handled recorded m (ro_state (retry_loop L port env cancel mb m attempt left b s)))"
  using assms(2)
proof (induction left arbitrary: attempt b s)
  case (Suc left)
  obtain e s' ms where h: "HandleMessage L port (env attempt) m s = (e, s', ms)" by (cases "HandleMessage L port (env attempt) m s")
  have hm: "invar s' \<and> (\<forall>i. recorded s i \<longrightarrow> recorded s' i) \<and> (e = None \<longrightarrow> handled recorded m s')"
    using handle_message [OF assms(1)[rule_format] Suc.prems h] .
  with Suc.IH [of s' "attempt + 1" "next_backoff mb b"] h show ?case
    by (auto simp: Let_def split: option.splits)
qed simp

lemma settled_mono:
  assumes "settled recorded topic st" and "\<forall>i. recorded (cs_ledger st) i \<longrightarrow> recorded (cs_ledger st') i"
    and "set (cs_dead_letters st) \<subseteq> set (cs_dead_letters st')" and "cs_committed st' = cs_committed st"
  shows "settled recorded topic st'"
proof -
  have "dead_lettered topic m (cs_dead_letters st) \<Longrightarrow> dead_lettered topic m (cs_dead_letters st')" for m
    using assms(3) unfolding dead_lettered_def by blast
  moreover have "handled recorded m (cs_ledger st) \<Longrightarrow> handled recorded m (cs_ledger st')" for m
    using assms(2) by (simp add: handled_def)
  ultimately show ?thesis using assms(1,4) unfolding settled_def by metis
qed

lemma commit_settled:
  assumes "settled recorded topic st" and "commit_message f m st = (e, st')"
    and "handled recorded m (cs_ledger st) \<or> dead_lettered topic m (cs_dead_letters st)"
  shows "settled recorded topic st' \<and> cs_ledger st' = cs_ledger st"
  using assms by (auto simp: commit_message_def settled_def split: option.splits)

lemma turn_settled:
  assumes fine: "\<And>m env cancel dle commit. t = Fetched m env cancel dle commit \<Longrightarrow> \<forall>k. fine (env k)"
    and inv: "invar (cs_ledger st)" and set: "settled recorded (cc_deadLetterTopic cfg) st"
    and run: "consume_turn L port cfg t st = (e, st')"
  shows "invar (cs_ledger st') \<and> settled recorded (cc_deadLetterTopic cfg) st'"
proof (cases t)
  case (FetchFails er w)
  with run inv set show ?thesis by (auto simp: consume_turn_def split: if_splits option.splits)
next
  case (Fetched m env cancel dle commit)
  let ?r = "handleWithRetry L port cfg env cancel m (cs_ledger st)"
  let ?st1 = "st\<lparr>cs_ledger := ro_state ?r, cs_metrics := cs_metrics st @ ro_metrics ?r\<rparr>"
  have r: "invar (ro_state ?r) \<and> (\<forall>i. recorded (cs_ledger st) i \<longrightarrow> recorded (ro_state ?r) i)
      \<and> (ro_err ?r = None \<longrightarrow> handled recorded m (ro_state ?r))"
    unfolding handleWithRetry_simps by (rule retry_handled [OF fine [OF Fetched] inv])
  have s1: "settled recorded (cc_deadLetterTopic cfg) ?st1"
    by (rule settled_mono [OF set]) (use r in simp_all)
  show ?thesis
  proof (cases "ro_err ?r")
    case None
    with run Fetched have "commit_message commit m ?st1 = (e, st')" by (simp add: consume_turn_def Let_def)
    from commit_settled [OF s1 this] r None show ?thesis by simp
  next
    case (Some er)
    show ?thesis
    proof (cases "stops er")
      case True
      with run Fetched Some r s1 show ?thesis by (auto simp: consume_turn_def Let_def)
    next
      case False
      obtain pe log where p: "DeadLetter_Publish (cc_deadLetterTopic cfg) dle m er (i64_of (ro_attempts ?r))
          (cs_dead_letters st) = (pe, log)" by force
      let ?st2 = "?st1\<lparr>cs_dead_letters := log, cs_metrics := cs_metrics ?st1 @
          RecordDeadLetter (headerValue (km_Headers m) ''event_type'') pe\<rparr>"
      note d = DeadLetter_Publish_log [OF p]
      have s2: "settled recorded (cc_deadLetterTopic cfg) ?st2"
        by (rule settled_mono [OF s1]) (use d in simp_all)
      show ?thesis
      proof (cases pe)
        case None
        with run Fetched Some False p have "commit_message commit m ?st2 = (e, st')"
          by (simp add: consume_turn_def Let_def)
        from commit_settled [OF s2 this] r None d show ?thesis by simp
      next
        case (Some e')
        with run Fetched \<open>ro_err ?r = Some er\<close> False p r s2 show ?thesis by (auto simp: consume_turn_def Let_def)
      qed
    qed
  qed
qed

lemma run_settled:
  assumes "\<forall>t \<in> set ts. \<forall>m env cancel dle commit. t = Fetched m env cancel dle commit \<longrightarrow> (\<forall>k. fine (env k))"
    and "invar (cs_ledger st)" and "settled recorded (cc_deadLetterTopic cfg) st"
    and "Consumer_Run L port cfg ts st = (e, st')"
  shows "invar (cs_ledger st') \<and> settled recorded (cc_deadLetterTopic cfg) st'"
  using assms
proof (induction ts arbitrary: st)
  case (Cons t ts)
  obtain e1 st1 where t: "consume_turn L port cfg t st = (e1, st1)" by force
  have "invar (cs_ledger st1) \<and> settled recorded (cc_deadLetterTopic cfg) st1"
    by (rule turn_settled [OF _ Cons.prems(2,3) t]) (use Cons.prems(1) in auto)
  with Cons.IH [of st1] Cons.prems t show ?case by (cases e1) auto
qed simp

end

section \<open>The PostgreSQL ledger as the port\<close>

text \<open>An environment of a call: those of its three repository calls, and what commits in between.\<close>

definition postgres_port :: "((nat \<Rightarrow> 'x ctx_scheme) \<times> (led_db \<Rightarrow> led_db), led_db) ledger_port" where
  "postgres_port c eid et req db = RecordPaymentMovementOnce PostgresLedgerRepository (fst c) (snd c) eid et req db"

definition event_recorded :: "'x lib_scheme \<Rightarrow> led_db \<Rightarrow> string \<Rightarrow> bool" where
  "event_recorded L db i \<longleftrightarrow> (\<exists>u. pg_uuid L (trim_space i) = Some u \<and> (\<exists>p. (u, p) \<in> set (seen_events db)))"

definition port_env_ok :: "'y lib_scheme \<Rightarrow> (nat \<Rightarrow> 'x ctx_scheme) \<times> (led_db \<Rightarrow> led_db) \<Rightarrow> bool" where
  "port_env_ok L c \<longleftrightarrow> (\<forall>i. lib.truncate (fst c i) = lib.truncate L) \<and> harmless L (snd c)
     \<and> (\<forall>db. set (seen_events db) \<subseteq> set (seen_events (snd c db)))
     \<and> (\<forall>x u. pg_uuid L x = Some u \<longrightarrow> pg_uuid L u = Some u)"

lemma delivery_recorded:
  assumes "delivery L eid request db res db'"
  shows "set (seen_events db) \<subseteq> set (seen_events db')" and "res = Inr x \<Longrightarrow> event_recorded L db' eid"
  using assms by (auto simp: delivery_def event_recorded_def)

interpretation pg_port: once_port postgres_port "event_recorded L" "led_inv L" "port_env_ok L"
  for L :: "'y lib_scheme"
proof unfold_locales
  fix c :: "(nat \<Rightarrow> 'x ctx_scheme) \<times> (led_db \<Rightarrow> led_db)" and db eid et req res db'
  assume fine: "port_env_ok L c" and inv: "led_inv L db" and "postgres_port c eid et req db = (res, db')"
  then have run: "RecordPaymentMovementOnce PostgresLedgerRepository (fst c) (snd c) eid et req db = (res, db')"
    by (simp add: postgres_port_def)
  have env: "harmless L (snd c)" "\<forall>i. lib.truncate (fst c i) = lib.truncate L"
    "\<forall>x u. pg_uuid L x = Some u \<longrightarrow> pg_uuid L u = Some u" using fine by (simp_all add: port_env_ok_def)
  have mono: "(\<forall>i. event_recorded L db i \<longrightarrow> event_recorded L db' i) \<and> (\<forall>x. res = Inr x \<longrightarrow> event_recorded L db' eid)"
    using run inv env
  proof (cases rule: record_once_steps)
    case (stopped er)
    then show ?thesis by (simp add: event_recorded_def)
  next
    case (wrote s1)
    have "set (seen_events db) \<subseteq> set (seen_events db')"
      using fine wrote(3) delivery_recorded(1) [OF wrote(4)] unfolding port_env_ok_def by (metis order_trans)
    then have "event_recorded L db i \<Longrightarrow> event_recorded L db' i" for i by (auto simp: event_recorded_def)
    with delivery_recorded(2) [OF wrote(4)] show ?thesis by blast
  qed
  with record_once_inv [OF run inv env]
  show "led_inv L db' \<and> (\<forall>i. event_recorded L db i \<longrightarrow> event_recorded L db' i)
      \<and> (\<forall>x. res = Inr x \<longrightarrow> event_recorded L db' eid)" by blast
qed

end
