(* ===== verification/Ledger_Progress.thy ===== *)
theory Ledger_Progress
  imports Ledger_Consumer
begin

text \<open>
  What the ledger does when nothing fails: the movement is recorded. And what the consumer does when
  the database does not answer for a while: it waits and tries again.
\<close>

section \<open>Recording without faults\<close>

lemma lib_tables:
  assumes "lib.truncate cx = lib.truncate L"
  shows "tab_is_upper cx = tab_is_upper L" and "tab_is_letter cx = tab_is_letter L"
  using assms by (simp_all add: lib.truncate_def)

lemma isCurrency_lib:
  assumes "lib.truncate cx = lib.truncate L"
  shows "isCurrency cx c = isCurrency L c"
  unfolding isCurrency_def rune_is_upper_def rune_is_letter_def lib_tables [OF assms] ..

lemma texts_ok [simp]:
  "pg_text_ok DirectionDebit" "pg_text_ok DirectionCredit" "pg_text_ok cashAccountName"
  "pg_text_ok merchantPayableAccountName" "pg_text_ok ''payment''"
  by code_simp+

lemma EnsureAccount_ok:
  assumes "no_faults cx" and "pg_uuid cx (cx_uuid cx 0) = Some u" and "pg_char3 cur = Some c" and "pg_text_ok name"
    and "nb \<in> {DirectionDebit, DirectionCredit}" and "u \<notin> set (map a_ID (accounts db))"
  obtains a db' where "EnsureAccount cx name cur nb db = (Inr a, db')" "set (map a_ID (accounts db')) \<subseteq> insert u (set (map a_ID (accounts db)))"
    "entries db' = entries db" "consumed db' = consumed db"
proof -
  have nb: "pg_text_ok nb" "nb \<in> set [DirectionDebit, DirectionCredit]"
    using assms(5) by auto
  have "\<exists>a db'. upsert_account cx name cur nb db = Inr (a, db') \<and> set (map a_ID (accounts db')) \<subseteq> insert u (set (map a_ID (accounts db)))
      \<and> entries db' = entries db \<and> consumed db' = consumed db"
    using assms nb by (auto simp: upsert_account_def Let_def split: option.split)
  then show thesis using that assms(1) by (auto simp: EnsureAccount_def)
qed

text \<open>The identifiers that a movement draws: valid, and not in use.\<close>

definition ids_fresh :: "'y lib_scheme \<Rightarrow> (nat \<Rightarrow> 'x ctx_scheme) \<Rightarrow> led_db \<Rightarrow> bool" where
  "ids_fresh L cx db \<longleftrightarrow>
     (\<exists>a0 a1 t e1 e2. pg_uuid L (cx_uuid (cx 0) 0) = Some a0 \<and> pg_uuid L (cx_uuid (cx 1) 0) = Some a1
        \<and> pg_uuid L (cx_uuid (cx 2) 0) = Some t \<and> pg_uuid L (cx_uuid (cx 2) 1) = Some e1 \<and> pg_uuid L (cx_uuid (cx 2) 2) = Some e2
        \<and> a0 \<noteq> a1 \<and> e1 \<noteq> e2 \<and> a0 \<notin> set (map a_ID (accounts db)) \<and> a1 \<notin> set (map a_ID (accounts db))
        \<and> e1 \<notin> set (map en_ID (entries db)) \<and> e2 \<notin> set (map en_ID (entries db)))"

text \<open>A movement the service accepts, whose texts PostgreSQL stores.\<close>

definition movement_ready :: "'y lib_scheme \<Rightarrow> (nat \<Rightarrow> 'x ctx_scheme) \<Rightarrow> string \<Rightarrow> string \<Rightarrow> payment_movement_request \<Rightarrow> bool" where
  "movement_ready L cx eid et req \<longleftrightarrow>
     (\<forall>i. no_faults (cx i) \<and> lib.truncate (cx i) = lib.truncate L)
     \<and> uuid_parse L (trim_space eid) \<and> trim_space et \<noteq> [] \<and> pg_text_ok (trim_space et)
     \<and> pg_uuid L (trim_space eid) \<noteq> None
     \<and> validatePaymentMovement (cx 0) (normalize_movement (cx 0) req) = None
     \<and> pg_text_ok (trim_space (mr_PaymentID req))
     \<and> pg_char3 (mr_Currency (normalize_movement (cx 0) req)) \<noteq> None"

lemma entry_values_ok:
  assumes "pg_uuid cx (en_ID e) = Some u" and "pg_uuid cx (en_TransactionID e) = Some t"
    and "pg_uuid cx (en_AccountID e) = Some a" and "pg_char3 (en_Currency e) = Some c"
    and "list_all pg_text_ok [en_Direction e, en_ReferenceType e, en_ReferenceID e]"
    and "en_Direction e \<in> {DirectionDebit, DirectionCredit}" and "0 < sint (en_AmountCents e)"
    and "u \<notin> set (map en_ID (entries db))" and "a \<in> set (map a_ID (accounts db))"
  shows "\<exists>row. entry_values cx e db = Inr row \<and> en_ID row = u"
  using assms by (auto simp: entry_values_def not_le)

lemma insertEntry_ok:
  assumes "no_faults cx" and "\<exists>row. entry_values cx e db = Inr row \<and> en_ID row = u"
  shows "\<exists>row. insertEntry cx k e db = Inr (row, db\<lparr>entries := entries db @ [row]\<rparr>) \<and> en_ID row = u"
  using assms by (auto simp: insertEntry_def)

lemma once_ok:
  assumes nf: "no_faults cx" and ev: "pg_uuid cx eid = Some u" and texts: "pg_text_ok et" "pg_text_ok agg"
    and rows: "\<exists>row. entry_values cx e1 db = Inr row \<and> en_ID row = u1"
      "\<exists>row. entry_values cx e2 db = Inr row \<and> en_ID row = u2" and diff: "u1 \<noteq> u2"
  shows "\<exists>x db'. CreateTransactionOnce cx eid et agg [e1, e2] db = (Inr x, db')"
proof (cases "u \<in> set (map ce_event_id (consumed db))")
  case True
  with nf ev texts have "CreateTransactionOnce cx eid et agg [e1, e2] db = (Inr ([], False), db)"
    by (simp add: CreateTransactionOnce_def once_body_def insert_consumed_def)
  then show ?thesis by blast
next
  case False
  define db1 where "db1 = db\<lparr>consumed := consumed db @
    [\<lparr>ce_event_id = u, ce_event_type = et, ce_aggregate_id = agg, ce_consumed_at = cx_now cx\<rparr>]\<rparr>"
  have same: "entry_values cx e (db\<lparr>consumed := x\<rparr>) = entry_values cx e db" for e x
    by (auto simp: entry_values_def split: option.split)
  from rows obtain r1 r2 where r: "entry_values cx e1 db1 = Inr r1" "en_ID r1 = u1" "entry_values cx e2 db1 = Inr r2" "en_ID r2 = u2"
    unfolding db1_def same by blast
  have grow: "entry_values cx e2 (db1\<lparr>entries := entries db1 @ [r1]\<rparr>) = Inr r2"
    using r diff by (auto simp: entry_values_def split: option.splits if_splits)
  have "insert_entries cx 1 [e1, e2] db1 = Inr ([r1, r2], db1\<lparr>entries := entries db1 @ [r1, r2]\<rparr>)"
    using nf r grow by (simp add: insertEntry_def)
  then have "once_body cx eid et agg [e1, e2] db = (Inr ([r1, r2], True), db1\<lparr>entries := entries db1 @ [r1, r2]\<rparr>)"
    using nf ev texts False by (simp add: once_body_def insert_consumed_def db1_def)
  then have "CreateTransactionOnce cx eid et agg [e1, e2] db = (Inr ([r1, r2], True), db1\<lparr>entries := entries db1 @ [r1, r2]\<rparr>)"
    using nf by (simp add: CreateTransactionOnce_def)
  then show ?thesis by blast
qed

lemma record_once_ok:
  assumes ready: "movement_ready L cx eid et request" and fresh: "ids_fresh L cx db" and ok: "accounts_ok L (accounts db)"
    and canon: "\<forall>x u. pg_uuid L x = Some u \<longrightarrow> pg_uuid L u = Some u"
  shows "\<exists>x db'. RecordPaymentMovementOnce PostgresLedgerRepository cx (\<lambda>s. s) eid et request db = (Inr x, db')"
proof -
  let ?req = "normalize_movement (cx 0) request"
  have nf: "no_faults (cx i)" and lib: "lib.truncate (cx i) = lib.truncate L" for i using ready by (simp_all add: movement_ready_def)
  have uu: "pg_uuid (cx i) = pg_uuid L" for i using lib_eq(4) [OF lib] .
  from fresh obtain a0 a1 t i1 i2 where ids: "pg_uuid L (cx_uuid (cx 0) 0) = Some a0" "pg_uuid L (cx_uuid (cx 1) 0) = Some a1"
    "pg_uuid L (cx_uuid (cx 2) 0) = Some t" "pg_uuid L (cx_uuid (cx 2) 1) = Some i1" "pg_uuid L (cx_uuid (cx 2) 2) = Some i2"
    "a0 \<noteq> a1" "i1 \<noteq> i2" "a0 \<notin> set (map a_ID (accounts db))" "a1 \<notin> set (map a_ID (accounts db))"
    "i1 \<notin> set (map en_ID (entries db))" "i2 \<notin> set (map en_ID (entries db))"
    unfolding ids_fresh_def by blast
  from ready obtain c u where c: "pg_char3 (mr_Currency ?req) = Some c" and u: "pg_uuid L (trim_space eid) = Some u"
    by (auto simp: movement_ready_def)
  have valid: "validatePaymentMovement (cx 0) ?req = None" using ready by (simp add: movement_ready_def)
  then have amount: "0 < sint (mr_AmountCents ?req)" "isCurrency (cx 0) (mr_Currency ?req)" by (simp_all add: validatePaymentMovement_None)
  have cur: "isCurrency (cx 2) (mr_Currency ?req)" using amount(2) isCurrency_lib [OF lib, of 0] isCurrency_lib [OF lib, of 2] by simp
  obtain cash s1 where e1: "EnsureAccount (cx 0) cashAccountName (mr_Currency ?req) DirectionDebit db = (Inr cash, s1)"
    "set (map a_ID (accounts s1)) \<subseteq> insert a0 (set (map a_ID (accounts db)))" "entries s1 = entries db"
    by (rule EnsureAccount_ok [OF nf [of 0] ids(1)[folded uu[of 0]] c, of cashAccountName DirectionDebit db]) (use ids in auto)
  obtain payable s2 where e2: "EnsureAccount (cx 1) merchantPayableAccountName (mr_Currency ?req) DirectionCredit s1 = (Inr payable, s2)"
    "entries s2 = entries s1"
    by (rule EnsureAccount_ok [OF nf [of 1] ids(2)[folded uu[of 1]] c, of merchantPayableAccountName DirectionCredit s1]) (use ids e1(2) in auto)
  let ?es = "[movement_entry (cx 2) 1 cash DirectionDebit ?req, movement_entry (cx 2) 2 payable DirectionCredit ?req]"
  have bal: "ValidateBalanced (cx 2) ?es = None" by (rule movement_balanced [OF amount(1) cur])
  have build: "buildPaymentMovement PostgresLedgerRepository cx request db = (Inr ?es, s2)"
    using valid e1(1) e2(1) bal by (simp add: buildPaymentMovement_def Let_def)
  note g1 = EnsureAccount_grows [OF e1(1)] and g2 = EnsureAccount_grows [OF e2(1)]
  have ok1: "accounts_ok L (accounts s1)" by (rule grows_accounts_ok [OF g1 ok _ lib canon]) simp
  have ok2: "accounts_ok L (accounts s2)" by (rule grows_accounts_ok [OF g2 ok1 _ lib canon]) simp
  have acc: "cash \<in> set (accounts s2)" "payable \<in> set (accounts s2)"
    using EnsureAccount_Inr [OF e1(1)] EnsureAccount_Inr [OF e2(1)] grows_facts [OF g2] by blast+
  have accid: "pg_uuid L (a_ID cash) = Some (a_ID cash)" "pg_uuid L (a_ID payable) = Some (a_ID payable)"
    using ok2 acc by (auto simp: accounts_ok_def)
  have texts: "pg_text_ok (mr_PaymentID ?req)" using ready by (simp add: movement_ready_def normalize_movement_def)
  have "\<exists>row. entry_values (cx 2) (movement_entry (cx 2) 1 cash DirectionDebit ?req) s2 = Inr row \<and> en_ID row = i1"
    by (rule entry_values_ok) (use ids accid c acc [THEN imageI] texts amount e1(3) e2(2) in \<open>simp_all add: movement_entry_def uu\<close>)
  moreover have "\<exists>row. entry_values (cx 2) (movement_entry (cx 2) 2 payable DirectionCredit ?req) s2 = Inr row \<and> en_ID row = i2"
    by (rule entry_values_ok) (use ids accid c acc [THEN imageI] texts amount e1(3) e2(2) in \<open>simp_all add: movement_entry_def uu\<close>)
  moreover have "pg_text_ok (trim_space et)" "pg_text_ok (trim_space (mr_PaymentID request))" using ready by (simp_all add: movement_ready_def)
  ultimately obtain x db' where "CreateTransactionOnce (cx 2) (trim_space eid) (trim_space et) (trim_space (mr_PaymentID request)) ?es s2 = (Inr x, db')"
    using once_ok [OF nf [of 2] u [folded uu[of 2]]] ids(7) by blast
  moreover have "uuid_parse (cx 0) (trim_space eid)" "trim_space et \<noteq> []"
    using ready lib_eq(7) [OF lib, of 0] by (simp_all add: movement_ready_def)
  ultimately show ?thesis
    using build by (cases x) (simp add: RecordPaymentMovementOnce_def Let_def)
qed

text \<open>
  What recording does when nothing fails depends only on the table of consumed events: an event in it is ignored, any
  other adds its double entry, whatever the ledger holds.
\<close>

lemma record_once_result:
  assumes ready: "movement_ready L cx eid et request" and fresh: "ids_fresh L cx db" and ok: "accounts_ok L (accounts db)"
    and canon: "\<forall>x u. pg_uuid L x = Some u \<longrightarrow> pg_uuid L u = Some u" and u: "pg_uuid L (trim_space eid) = Some u"
  shows "\<exists>x db'. RecordPaymentMovementOnce PostgresLedgerRepository cx (\<lambda>s. s) eid et request db = (Inr x, db')
    \<and> (if u \<in> fst ` set (seen_events db) then x = ([], False) \<and> entries db' = entries db
       else snd x \<and> (\<forall>d \<in> {DirectionDebit, DirectionCredit}. length (entries_for d (trim_space (mr_PaymentID request)) (entries db'))
              = Suc (length (entries_for d (trim_space (mr_PaymentID request)) (entries db)))))"
proof -
  obtain x db' where run: "RecordPaymentMovementOnce PostgresLedgerRepository cx (\<lambda>s. s) eid et request db = (Inr x, db')"
    using record_once_ok [OF ready fresh ok canon] by blast
  have lib: "lib.truncate (cx 2) = lib.truncate L" using ready by (simp add: movement_ready_def)
  have guard: "\<not> (\<not> uuid_parse (cx 0) (trim_space eid) \<or> trim_space et = [])"
    using ready lib_eq(7) [of "cx 0" L] by (simp add: movement_ready_def)
  obtain b s1 where build: "buildPaymentMovement PostgresLedgerRepository cx request db = (b, s1)" by force
  then obtain es where es: "b = Inr es" using run guard by (cases b) (auto simp: RecordPaymentMovementOnce_def Let_def)
  have written: "CreateTransactionOnce (cx 2) (trim_space eid) (trim_space et) (trim_space (mr_PaymentID request)) es s1 = (Inr x, db')"
    using run guard build es by (auto simp: RecordPaymentMovementOnce_def Let_def split: prod.splits sum.splits)
  from pg_ledger.build_effect [OF build] have same: "entries s1 = entries db" "seen_events s1 = seen_events db" by auto
  from pg_ledger.once [of "cx 2"] written
  have eff: "once_effect (cx 2) (trim_space eid) (trim_space (mr_PaymentID request)) es
      (seen_events s1) (entries s1) (seen_events db') (entries db') (Inr x)" by auto
  show ?thesis
  proof (cases "u \<in> fst ` set (seen_events db)")
    case True
    then have "x = ([], False) \<and> entries db' = entries db"
      using eff u lib_eq(4) [OF lib] unfolding once_effect_def same by auto
    with run True show ?thesis by auto
  next
    case False
    then obtain cs where cs: "entries db' = entries db @ cs" "list_all2 (stores (cx 2)) es cs" "x = (cs, True)"
      using eff u lib_eq(4) [OF lib] unfolding once_effect_def same by auto
    from build [unfolded es] show ?thesis
    proof (rule pg_ledger.build_entries)
      fix cash payable req
      assume b: "req = normalize_movement (cx 0) request"
        "es = [movement_entry (cx 2) 1 cash DirectionDebit req, movement_entry (cx 2) 2 payable DirectionCredit req]"
      from cs(2) obtain d k where c: "cs = [d, k]" "stores (cx 2) (movement_entry (cx 2) 1 cash DirectionDebit req) d"
        "stores (cx 2) (movement_entry (cx 2) 2 payable DirectionCredit req) k"
        unfolding b(2) by (auto simp: list_all2_Cons1)
      then have "en_ReferenceID d = trim_space (mr_PaymentID request)" "en_ReferenceID k = trim_space (mr_PaymentID request)"
        "en_Direction d = DirectionDebit" "en_Direction k = DirectionCredit"
        by (auto simp: stores_def movement_entry_def b(1) normalize_movement_def)
      then show ?thesis using run False by (auto simp: cs(1,3) c(1) entries_for_def)
    qed
  qed
qed

section \<open>An outage\<close>

text \<open>The database does not answer: every call fails, and nothing is written.\<close>

definition down :: "'x ctx_scheme \<Rightarrow> bool" where
  "down cx \<longleftrightarrow> (\<exists>f. cx_begin cx = Some f) \<and> (\<forall>k. \<exists>f. cx_stmt cx k = Some f)"

lemma down_account: "down cx \<Longrightarrow> \<exists>e. EnsureAccount cx name cur nb db = (Inl (wrap ''ensure ledger account'' e), db) \<and> \<not> isPermanent e"
proof -
  assume "down cx"
  then obtain f where "cx_stmt cx 0 = Some f" unfolding down_def by blast
  moreover have "\<not> isPermanent (fault_err f)" by (cases f) simp_all
  ultimately show ?thesis by (auto simp: EnsureAccount_def auto_tx_def stmt_def)
qed

lemma down_record:
  assumes "\<forall>i. down (cx i)"
  shows "\<exists>e. RecordPaymentMovementOnce PostgresLedgerRepository cx others eid et request db = (Inl e, db) \<and> \<not> isPermanent e"
proof -
  obtain e where "EnsureAccount (cx 0) cashAccountName (mr_Currency (normalize_movement (cx 0) request)) DirectionDebit db
      = (Inl (wrap ''ensure ledger account'' e), db)" "\<not> isPermanent e"
    using down_account [of "cx 0"] assms by blast
  moreover have "validatePaymentMovement (cx 0) r = Some e' \<Longrightarrow> \<not> isPermanent e'" for r e'
    by (auto simp: validatePaymentMovement_def split: if_splits)
  ultimately show ?thesis
    by (auto simp: RecordPaymentMovementOnce_def buildPaymentMovement_def Let_def split: option.split)
qed

lemma retry_outage:
  assumes "\<forall>i < j. (\<exists>e ms. HandleMessage L port (env (attempt + i)) m s = (Some e, s, ms) \<and> \<not> isPermanent e) \<and> cancel (attempt + i) = None"
    and "HandleMessage L port (env (attempt + j)) m s = (None, s', ms')" and "j < left"
  shows "ro_attempts (retry_loop L port env cancel mb m attempt left b s) = int attempt + int j
    \<and> ro_err (retry_loop L port env cancel mb m attempt left b s) = None
    \<and> ro_state (retry_loop L port env cancel mb m attempt left b s) = s'
    \<and> length (ro_waits (retry_loop L port env cancel mb m attempt left b s)) = j"
  using assms
proof (induction left arbitrary: j attempt b)
  case (Suc left)
  show ?case
  proof (cases j)
    case 0
    with Suc.prems(2) show ?thesis by simp
  next
    case (Suc j')
    with Suc.prems(1) obtain e ms where h: "HandleMessage L port (env attempt) m s = (Some e, s, ms)" "\<not> isPermanent e"
      and c: "cancel attempt = None" by (metis add_0_right zero_less_Suc)
    have pre: "\<forall>i < j'. (\<exists>e ms. HandleMessage L port (env (attempt + 1 + i)) m s = (Some e, s, ms) \<and> \<not> isPermanent e) \<and> cancel (attempt + 1 + i) = None"
    proof (intro allI impI)
      fix i assume "i < j'"
      with Suc have "Suc i < j" by simp
      with Suc.prems(1) [rule_format, of "Suc i"] show "(\<exists>e ms. HandleMessage L port (env (attempt + 1 + i)) m s = (Some e, s, ms) \<and> \<not> isPermanent e) \<and> cancel (attempt + 1 + i) = None"
        by simp
    qed
    have last: "HandleMessage L port (env (attempt + 1 + j')) m s = (None, s', ms')" using Suc.prems(2) Suc by simp
    have left: "j' < left" "left \<noteq> 0" using Suc.prems(3) Suc by simp_all
    from Suc.IH [OF pre last left(1), of "next_backoff mb b"] h c left(2) Suc show ?thesis by (simp add: Let_def)
  qed
qed simp

end
