(* ===== verification/Dead_Letter_Replay.thy ===== *)
theory Dead_Letter_Replay
  imports Dead_Letter Ledger_Repo
begin

text \<open>
  Replaying a dead letter: the audit table of \<open>repository/replay_repository.go\<close>, the replayer of
  \<open>replay/replayer.go\<close> over the \<open>AuditStore\<close> interface, and the checks of
  \<open>cmd/replay-dead-letter/main.go\<close>.
\<close>

section \<open>The audit table\<close>

record replay_source =
  rs_EventID :: string
  rs_Operator :: string
  rs_Reason :: string
  rs_Topic :: string
  rs_Partition :: i64
  rs_Offset :: i64

definition ReplayStarted :: string where
  "ReplayStarted = ''started''"

definition ReplaySucceeded :: string where
  "ReplaySucceeded = ''succeeded''"

definition ReplayFailed :: string where
  "ReplayFailed = ''failed''"

lemmas replay_status_defs = ReplayStarted_def ReplaySucceeded_def ReplayFailed_def

text \<open>
  \<open>INSERT INTO dead_letter_replays ... ON CONFLICT (event_id) DO UPDATE ... WHERE status =
  'failed' RETURNING id\<close>: the id of the row that is now started, or no row. The column
  \<open>source_partition\<close> is a 32-bit integer.
\<close>

definition claim_replay ::
  "'x ctx_scheme \<Rightarrow> string \<Rightarrow> replay_source \<Rightarrow> led_db \<Rightarrow> err + string option \<times> led_db"
where
  "claim_replay cx ident src db =
     (case pg_uuid cx ident of
        None \<Rightarrow> Inl (ErrText ''cannot encode id as uuid'')
      | Some u \<Rightarrow>
          if \<not> list_all pg_text_ok [rs_EventID src, rs_Operator src, rs_Reason src, rs_Topic src]
          then Inl (ErrText ''invalid byte sequence for encoding UTF8'')
          else if sint (rs_Partition src) < - (2 ^ 31) \<or> sint (rs_Partition src) \<ge> 2 ^ 31
          then Inl (ErrText ''source_partition is out of range for int4'')
          else (case sql_find dr_event_id (rs_EventID src) (replays db) of
                  None \<Rightarrow>
                    if u \<in> set (map dr_id (replays db)) then Inl (ErrText ''duplicate key value'')
                    else Inr (Some u, db\<lparr>replays := replays db @
                           [\<lparr>dr_id = u, dr_event_id = rs_EventID src, dr_operator_name = rs_Operator src,
                             dr_reason = rs_Reason src, dr_source_topic = rs_Topic src,
                             dr_source_partition = sint (rs_Partition src), dr_source_offset = rs_Offset src,
                             dr_status = ReplayStarted, dr_last_error = None, dr_started_at = cx_now cx,
                             dr_completed_at = None\<rparr>]\<rparr>)
                | Some row \<Rightarrow>
                    if dr_status row \<noteq> ReplayFailed then Inr (None, db)
                    else Inr (Some (dr_id row), db\<lparr>replays := sql_update (\<lambda>r. dr_event_id r = rs_EventID src)
                           (\<lambda>r. r\<lparr>dr_operator_name := rs_Operator src, dr_reason := rs_Reason src,
                                   dr_source_topic := rs_Topic src, dr_source_partition := sint (rs_Partition src),
                                   dr_source_offset := rs_Offset src, dr_status := ReplayStarted,
                                   dr_last_error := None, dr_started_at := cx_now cx,
                                   dr_completed_at := None\<rparr>) (replays db)\<rparr>)))"

definition StartReplay :: "'x ctx_scheme \<Rightarrow> replay_source \<Rightarrow> led_db \<Rightarrow> (err + string) \<times> led_db" where
  "StartReplay cx src db =
     (case auto_tx cx (claim_replay cx (cx_uuid cx 0) src db) db of
        (Inl e, db') \<Rightarrow> (Inl (wrap ''start dead-letter replay audit'' e), db')
      | (Inr None, db') \<Rightarrow> (Inl ErrReplayAlreadyClaimed, db')
      | (Inr (Some ident), db') \<Rightarrow> (Inr ident, db'))"

text \<open>\<open>UPDATE dead_letter_replays SET status = $2, last_error = NULLIF($3, ''), ...\<close>.\<close>

definition finish_update ::
  "'x ctx_scheme \<Rightarrow> string \<Rightarrow> bool \<Rightarrow> string \<Rightarrow> led_db \<Rightarrow> err + nat \<times> led_db"
where
  "finish_update cx ident succeeded failure db =
     (case pg_uuid cx ident of
        None \<Rightarrow> Inl (ErrText ''cannot encode id as uuid'')
      | Some u \<Rightarrow>
          if \<not> pg_text_ok failure then Inl (ErrText ''invalid byte sequence for encoding UTF8'')
          else Inr (length (filter (\<lambda>r. dr_id r = u) (replays db)),
                 db\<lparr>replays := sql_update (\<lambda>r. dr_id r = u)
                      (\<lambda>r. r\<lparr>dr_status := (if succeeded then ReplaySucceeded else ReplayFailed),
                              dr_last_error := (if failure = [] then None else Some failure),
                              dr_completed_at := Some (cx_now cx)\<rparr>) (replays db)\<rparr>))"

definition FinishReplay ::
  "'x ctx_scheme \<Rightarrow> string \<Rightarrow> bool \<Rightarrow> string \<Rightarrow> led_db \<Rightarrow> err option \<times> led_db"
where
  "FinishReplay cx ident succeeded failure db =
     (case auto_tx cx (finish_update cx ident succeeded failure db) db of
        (Inl e, db') \<Rightarrow> (Some (wrap ''finish dead-letter replay audit'' e), db')
      | (Inr n, db') \<Rightarrow>
          if n \<noteq> 1
          then (Some (ErrText (''finish dead-letter replay audit: audit '' @ ident @ '' not found'')), db')
          else (None, db'))"

section \<open>The replayer\<close>

record ('c, 's) audit_store =
  as_StartReplay :: "'c \<Rightarrow> replay_source \<Rightarrow> 's \<Rightarrow> (err + string) \<times> 's"
  as_FinishReplay :: "'c \<Rightarrow> string \<Rightarrow> bool \<Rightarrow> string \<Rightarrow> 's \<Rightarrow> err option \<times> 's"

definition PostgresAuditStore :: "('x ctx_scheme, led_db) audit_store" where
  "PostgresAuditStore = \<lparr>as_StartReplay = StartReplay, as_FinishReplay = FinishReplay\<rparr>"

lemma PostgresAuditStore_simps [simp]:
  "as_StartReplay PostgresAuditStore = StartReplay" "as_FinishReplay PostgresAuditStore = FinishReplay"
  by (simp_all add: PostgresAuditStore_def)

record 'c replay_env =
  rp_start :: 'c
  rp_finish :: 'c
  rp_now :: string
  rp_write :: "kafka_message \<Rightarrow> write_outcome"

record 's replay_state =
  rp_store :: 's
  rp_log :: "kafka_message list"

definition replay_message :: "string \<Rightarrow> string \<Rightarrow> string \<Rightarrow> dead_letter_record \<Rightarrow> kafka_message" where
  "replay_message sourceTopic now auditID record =
     outgoing sourceTopic (dl_Key record) (dl_Value record)
       (dl_Headers record @ [(''replayed_at'', now), (''replay_audit_id'', auditID)])"

definition Replay ::
  "('c, 's) audit_store \<Rightarrow> string \<Rightarrow> 'c replay_env \<Rightarrow> dead_letter_record \<Rightarrow> string \<Rightarrow> string
     \<Rightarrow> 's replay_state \<Rightarrow> err option \<times> 's replay_state"
where
  "Replay A sourceTopic env record operator reason st =
     (if dl_SchemaVersion record \<noteq> DeadLetterSchemaVersion
      then (Some (ErrText (''unsupported dead-letter schema version '' @ format_int (sint (dl_SchemaVersion record)))), st)
      else if dl_EventID record = [] then (Some (ErrText ''dead-letter record has no event_id''), st)
      else if dl_SourceTopic record \<noteq> sourceTopic
      then (Some (ErrText (''dead-letter source topic '' @ go_quote (dl_SourceTopic record) @ '' is not allowed'')), st)
      else if operator = [] \<or> reason = []
      then (Some (ErrText ''replay operator and reason are required''), st)
      else (case as_StartReplay A (rp_start env)
                   \<lparr>rs_EventID = dl_EventID record, rs_Operator = operator, rs_Reason = reason,
                    rs_Topic = dl_SourceTopic record, rs_Partition = dl_SourcePartition record,
                    rs_Offset = dl_SourceOffset record\<rparr> (rp_store st) of
              (Inl e, s1) \<Rightarrow> (Some e, st\<lparr>rp_store := s1\<rparr>)
            | (Inr auditID, s1) \<Rightarrow>
                (let m = replay_message sourceTopic (rp_now env) auditID record
                 in case write_message (rp_write env m) m (rp_log st) of
                      (Some e, log) \<Rightarrow>
                        (Some (wrap ''republish dead-letter event'' e),
                         st\<lparr>rp_store := snd (as_FinishReplay A (rp_finish env) auditID False (err_text e) s1),
                            rp_log := log\<rparr>)
                    | (None, log) \<Rightarrow>
                        (case as_FinishReplay A (rp_finish env) auditID True [] s1 of
                           (Some e, s2) \<Rightarrow>
                             (Some (wrap ''record successful dead-letter replay'' e), st\<lparr>rp_store := s2, rp_log := log\<rparr>)
                         | (None, s2) \<Rightarrow> (None, st\<lparr>rp_store := s2, rp_log := log\<rparr>)))))"

section \<open>The command\<close>

definition requiredInt64 :: "(string \<Rightarrow> string) \<Rightarrow> string \<Rightarrow> err + i64" where
  "requiredInt64 getenv key =
     (let value = trim_space (getenv key)
      in if value = [] then Inl (ErrText (key @ '' is required''))
         else (case parse_int64 value of
                 None \<Rightarrow> Inl (ErrText (key @ '' must be a non-negative integer''))
               | Some n \<Rightarrow>
                   if sint n < 0 then Inl (ErrText (key @ '' must be a non-negative integer'')) else Inr n))"

text \<open>
  \<open>run\<close> after the configuration is loaded: \<open>connect\<close>, \<open>reader\<close> and \<open>writer\<close> are the outcomes
  of building the clients, \<open>fetch\<close> that of \<open>FetchMessage\<close> on the reader of the partition and offset.
\<close>

record 'c replay_command =
  rc_getenv :: "string \<Rightarrow> string"
  rc_connect :: "err option"
  rc_reader :: "i64 \<Rightarrow> i64 \<Rightarrow> err option"
  rc_fetch :: "i64 \<Rightarrow> i64 \<Rightarrow> err + kafka_message"
  rc_writer :: "err option"
  rc_topic :: string
  rc_env :: "'c replay_env"

definition replay_run ::
  "'x lib_scheme \<Rightarrow> (json \<Rightarrow> bool) \<Rightarrow> ('c, 's) audit_store \<Rightarrow> 'c replay_command \<Rightarrow> 's replay_state
     \<Rightarrow> err option \<times> 's replay_state"
where
  "replay_run L time_ok A cmd st =
     (case requiredInt64 (rc_getenv cmd) ''REPLAY_PARTITION'' of
        Inl e \<Rightarrow> (Some e, st)
      | Inr part \<Rightarrow>
     (case requiredInt64 (rc_getenv cmd) ''REPLAY_OFFSET'' of
        Inl e \<Rightarrow> (Some e, st)
      | Inr offset \<Rightarrow>
     (let eventID = trim_space (rc_getenv cmd ''REPLAY_EVENT_ID'');
          operator = trim_space (rc_getenv cmd ''REPLAY_OPERATOR'');
          reason = trim_space (rc_getenv cmd ''REPLAY_REASON'')
      in if eventID = [] \<or> operator = [] \<or> reason = []
         then (Some (ErrText ''REPLAY_EVENT_ID, REPLAY_OPERATOR, and REPLAY_REASON are required''), st)
         else (case rc_connect cmd of
                 Some e \<Rightarrow> (Some (wrap ''connect database'' e), st)
               | None \<Rightarrow>
              (case rc_reader cmd part offset of
                 Some e \<Rightarrow> (Some (wrap ''configure Kafka replay reader'' e), st)
               | None \<Rightarrow>
              (case rc_fetch cmd part offset of
                 Inl e \<Rightarrow> (Some (wrap ''fetch dead-letter record'' e), st)
               | Inr m \<Rightarrow>
                   if km_Offset m \<noteq> offset
                   then (Some (ErrText (''dead-letter offset mismatch: received '' @ format_int (sint (km_Offset m))
                           @ '', expected '' @ format_int (sint offset))), st)
                   else (case json_parse L (km_Value m) of
                           None \<Rightarrow> (Some (wrap ''decode dead-letter record'' (ErrText (json_error L (km_Value m)))), st)
                         | Some j \<Rightarrow>
                        (case decode_dead_letter time_ok j of
                           None \<Rightarrow> (Some (wrap ''decode dead-letter record'' (ErrText (json_error L (km_Value m)))), st)
                         | Some record \<Rightarrow>
                             if dl_EventID record \<noteq> eventID
                             then (Some (ErrText (''dead-letter event mismatch: record event_id ''
                                     @ go_quote (dl_EventID record) @ '' does not match requested event_id'')), st)
                             else (case rc_writer cmd of
                                     Some e \<Rightarrow> (Some (wrap ''configure Kafka replay writer'' e), st)
                                   | None \<Rightarrow>
                                       (case Replay A (rc_topic cmd) (rc_env cmd) record operator reason st of
                                          (Some e, st') \<Rightarrow> (Some e, st')
                                        | (None, st') \<Rightarrow> (None, st')))))))))))"

section \<open>What the replayer needs of the audit\<close>

text \<open>
  \<open>status s i\<close> is the state of the audit of the event \<open>i\<close> and \<open>owner s a\<close> the event of
  the audit with the id \<open>a\<close>. An audit is only started for an event that is not started and not
  succeeded, and is only finished through its own id.
\<close>

locale audit_log =
  fixes A :: "('c, 's) audit_store"
    and status :: "'s \<Rightarrow> string \<Rightarrow> string option"
    and owner :: "'s \<Rightarrow> string \<Rightarrow> string option"
    and invar :: "'s \<Rightarrow> bool"
    and fine :: "'c \<Rightarrow> bool"
  assumes start: "\<lbrakk>fine c; invar s; as_StartReplay A c src s = (res, s')\<rbrakk>
      \<Longrightarrow> invar s' \<and> (\<forall>i. i \<noteq> rs_EventID src \<longrightarrow> status s' i = status s i)
        \<and> (status s (rs_EventID src) \<in> {Some ReplayStarted, Some ReplaySucceeded}
             \<longrightarrow> (\<exists>e. res = Inl e) \<and> status s' (rs_EventID src) = status s (rs_EventID src))
        \<and> (\<forall>a. res = Inr a \<longrightarrow> owner s' a = Some (rs_EventID src))"
    and finish: "\<lbrakk>fine c; invar s; as_FinishReplay A c a ok f s = (failure, s')\<rbrakk>
      \<Longrightarrow> invar s' \<and> (\<forall>i. owner s a \<noteq> Some i \<longrightarrow> status s' i = status s i)
        \<and> (\<forall>i. failure = None \<longrightarrow> owner s a = Some i \<longrightarrow> status s' i = Some (if ok then ReplaySucceeded else ReplayFailed))"
begin

abbreviation event_status where
  "event_status st i \<equiv> status (rp_store st) i"

lemma Replay_status:
  assumes fine: "fine (rp_start env)" "fine (rp_finish env)" and inv: "invar (rp_store st)"
    and run: "Replay A topic env record operator reason st = (res, st')"
  shows "invar (rp_store st')
    \<and> (\<forall>i. i \<noteq> dl_EventID record \<longrightarrow> event_status st' i = event_status st i)
    \<and> (event_status st (dl_EventID record) \<in> {Some ReplayStarted, Some ReplaySucceeded}
         \<longrightarrow> res \<noteq> None \<and> rp_log st' = rp_log st \<and> event_status st' (dl_EventID record) = event_status st (dl_EventID record))
    \<and> (res = None \<longrightarrow> event_status st' (dl_EventID record) = Some ReplaySucceeded)"
proof (cases "dl_SchemaVersion record \<noteq> DeadLetterSchemaVersion \<or> dl_EventID record = []
    \<or> dl_SourceTopic record \<noteq> topic \<or> operator = [] \<or> reason = []")
  case True
  with run inv show ?thesis by (auto simp: Replay_def split: if_splits)
next
  case False
  let ?src = "\<lparr>rs_EventID = dl_EventID record, rs_Operator = operator, rs_Reason = reason,
                rs_Topic = dl_SourceTopic record, rs_Partition = dl_SourcePartition record,
                rs_Offset = dl_SourceOffset record\<rparr>"
  obtain r1 s1 where one: "as_StartReplay A (rp_start env) ?src (rp_store st) = (r1, s1)" by force
  note st1 = start [OF fine(1) inv one]
  show ?thesis
  proof (cases r1)
    case (Inl e)
    with run False one st1 show ?thesis by (auto simp: Replay_def)
  next
    case (Inr a)
    let ?m = "replay_message topic (rp_now env) a record"
    obtain w log where w: "write_message (rp_write env ?m) ?m (rp_log st) = (w, log)" by force
    define ok where "ok = (w = None)"
    define f where "f = (case w of None \<Rightarrow> [] | Some e \<Rightarrow> err_text e)"
    obtain r2 s2 where two: "as_FinishReplay A (rp_finish env) a ok f s1 = (r2, s2)" by force
    note st2 = finish [OF fine(2) _ two]
    have "rp_store st' = s2" "rp_log st' = log" "res = None \<longleftrightarrow> w = None \<and> r2 = None"
      using run False one Inr w two
      by (auto simp: Replay_def Let_def ok_def f_def split: option.splits if_splits prod.splits)
    with st1 st2 Inr show ?thesis by (auto simp: ok_def)
  qed
qed

end

section \<open>The audit table as the audit\<close>

definition replay_status :: "led_db \<Rightarrow> string \<Rightarrow> string option" where
  "replay_status db i = map_option dr_status (sql_find dr_event_id i (replays db))"

definition replay_owner :: "'x lib_scheme \<Rightarrow> led_db \<Rightarrow> string \<Rightarrow> string option" where
  "replay_owner L db a =
     (case pg_uuid L a of
        None \<Rightarrow> None
      | Some u \<Rightarrow> map_option dr_event_id (sql_find dr_id u (replays db)))"

text \<open>The keys of the table, and ids in the server's form.\<close>

definition replays_ok :: "'x lib_scheme \<Rightarrow> led_db \<Rightarrow> bool" where
  "replays_ok L db \<longleftrightarrow> distinct (map dr_id (replays db)) \<and> distinct (map dr_event_id (replays db))
     \<and> (\<forall>r \<in> set (replays db). pg_uuid L (dr_id r) = Some (dr_id r))"

definition audit_env_ok :: "'y lib_scheme \<Rightarrow> 'x ctx_scheme \<Rightarrow> bool" where
  "audit_env_ok L cx \<longleftrightarrow> lib.truncate cx = lib.truncate L \<and> (\<forall>x u. pg_uuid L x = Some u \<longrightarrow> pg_uuid L u = Some u)"

lemma ball_image_cong:
  assumes "map f xs = map f ys"
  shows "(\<forall>x \<in> set xs. P (f x)) = (\<forall>x \<in> set ys. P (f x))"
proof -
  have "(\<forall>y \<in> set (map f xs). P y) = (\<forall>y \<in> set (map f ys). P y)" by (simp only: assms)
  then show ?thesis by simp
qed

lemma claim_replay_row:
  assumes "claim_replay cx ident src db = Inr (Some a, db')" and "replays_ok L db" and "audit_env_ok L cx"
  shows "replays_ok L db' \<and> (\<forall>i. i \<noteq> rs_EventID src \<longrightarrow> replay_status db' i = replay_status db i)
    \<and> replay_status db (rs_EventID src) \<notin> {Some ReplayStarted, Some ReplaySucceeded}
    \<and> replay_owner L db' a = Some (rs_EventID src)"
proof -
  have L: "pg_uuid cx = pg_uuid L" and canon: "\<forall>x u. pg_uuid L x = Some u \<longrightarrow> pg_uuid L u = Some u"
    using assms(3) lib_eq(4) [of cx L] by (auto simp: audit_env_ok_def)
  have ids: "distinct (map dr_id (replays db))" "distinct (map dr_event_id (replays db))"
    "\<forall>r \<in> set (replays db). pg_uuid L (dr_id r) = Some (dr_id r)" using assms(2) by (simp_all add: replays_ok_def)
  from assms(1) consider
      (fresh) u row where "pg_uuid L ident = Some u" "a = u" "sql_find dr_event_id (rs_EventID src) (replays db) = None"
        "u \<notin> set (map dr_id (replays db))" "replays db' = replays db @ [row]" "dr_id row = u" "dr_event_id row = rs_EventID src"
    | (retry) row f where "sql_find dr_event_id (rs_EventID src) (replays db) = Some row" "dr_status row = ReplayFailed"
        "a = dr_id row" "replays db' = sql_update (\<lambda>r. dr_event_id r = rs_EventID src) f (replays db)"
        "\<forall>r. dr_id (f r) = dr_id r" "\<forall>r. dr_event_id (f r) = dr_event_id r"
    unfolding L [symmetric] by (auto simp: claim_replay_def split: option.splits if_splits)
  then show ?thesis
  proof cases
    case fresh
    have "pg_uuid L u = Some u" using canon fresh(1) by blast
    moreover have "rs_EventID src \<notin> dr_event_id ` set (replays db)" "sql_find dr_id u (replays db) = None"
      using fresh(3,4) by (simp_all add: sql_find_None)
    moreover have "replay_status db (rs_EventID src) = None" using fresh(3) by (simp add: replay_status_def)
    ultimately show ?thesis using fresh ids
      by (auto simp: replays_ok_def replay_status_def replay_owner_def sql_find_append sql_simps split: option.splits)
  next
    case retry
    have row: "row \<in> set (replays db)" "dr_event_id row = rs_EventID src" using sql_find_Some [OF retry(1)] by simp_all
    have maps: "map dr_id (replays db') = map dr_id (replays db)" "map dr_event_id (replays db') = map dr_event_id (replays db)"
      unfolding retry(4) using retry(5,6) by (simp_all add: map_sql_update)
    have find: "sql_find dr_event_id i (replays db') = map_option (\<lambda>r. if dr_event_id r = rs_EventID src then f r else r)
        (sql_find dr_event_id i (replays db))" for i
      unfolding retry(4) by (rule sql_find_update) (simp add: retry(6))
    have status: "i \<noteq> rs_EventID src \<Longrightarrow> replay_status db' i = replay_status db i" for i
      unfolding replay_status_def find by (cases "sql_find dr_event_id i (replays db)") (auto dest: sql_find_Some)
    have "sql_find dr_id (dr_id row) (replays db') = map_option (\<lambda>r. if dr_event_id r = rs_EventID src then f r else r)
        (sql_find dr_id (dr_id row) (replays db))"
      unfolding retry(4) by (rule sql_find_update) (simp add: retry(5))
    then have owner: "replay_owner L db' a = Some (rs_EventID src)"
      using row ids sql_find_unique [OF ids(1) row(1)] retry(3,6) by (simp add: replay_owner_def)
    have "\<forall>r \<in> set (replays db'). pg_uuid L (dr_id r) = Some (dr_id r)"
      using ids(3) ball_image_cong [OF maps(1), of "\<lambda>x. pg_uuid L x = Some x"] by simp
    with maps ids owner status retry(1,2) show ?thesis
      by (auto simp: replays_ok_def replay_status_def replay_status_defs)
  qed
qed

lemma finish_update_rows:
  assumes "finish_update cx ident ok f db = Inr (n, db')" and "replays_ok L db" and "audit_env_ok L cx"
  shows "replays_ok L db' \<and> (\<forall>i. replay_owner L db ident \<noteq> Some i \<longrightarrow> replay_status db' i = replay_status db i)
    \<and> (\<forall>i. replay_owner L db ident = Some i \<longrightarrow> replay_status db' i = Some (if ok then ReplaySucceeded else ReplayFailed))"
proof -
  have L: "pg_uuid cx = pg_uuid L" using assms(3) lib_eq(4) [of cx L] by (auto simp: audit_env_ok_def)
  obtain u g where u: "pg_uuid L ident = Some u" and upd: "replays db' = sql_update (\<lambda>r. dr_id r = u) g (replays db)"
    and g: "\<forall>r. dr_id (g r) = dr_id r" "\<forall>r. dr_event_id (g r) = dr_event_id r"
      "\<forall>r. dr_status (g r) = (if ok then ReplaySucceeded else ReplayFailed)"
    using assms(1) unfolding L [symmetric] by (auto simp: finish_update_def split: option.splits if_splits)
  have ids: "distinct (map dr_id (replays db))" "distinct (map dr_event_id (replays db))"
    "\<forall>r \<in> set (replays db). pg_uuid L (dr_id r) = Some (dr_id r)" using assms(2) by (simp_all add: replays_ok_def)
  have maps: "map dr_id (replays db') = map dr_id (replays db)" "map dr_event_id (replays db') = map dr_event_id (replays db)"
    unfolding upd using g by (simp_all add: map_sql_update)
  have ok': "replays_ok L db'"
    using maps ids ball_image_cong [OF maps(1), of "\<lambda>x. pg_uuid L x = Some x"] by (simp add: replays_ok_def)
  have find: "sql_find dr_event_id i (replays db') = map_option (\<lambda>r. if dr_id r = u then g r else r)
      (sql_find dr_event_id i (replays db))" for i
    unfolding upd by (rule sql_find_update) (simp add: g)
  have own: "replay_owner L db ident = Some i \<longleftrightarrow> (\<exists>r. sql_find dr_event_id i (replays db) = Some r \<and> dr_id r = u)" for i
  proof
    assume "replay_owner L db ident = Some i"
    then obtain r where "sql_find dr_id u (replays db) = Some r" "dr_event_id r = i" by (auto simp: replay_owner_def u)
    with sql_find_unique [OF ids(2)] sql_find_Some [of dr_id u] show "\<exists>r. sql_find dr_event_id i (replays db) = Some r \<and> dr_id r = u"
      by blast
  next
    assume "\<exists>r. sql_find dr_event_id i (replays db) = Some r \<and> dr_id r = u"
    with sql_find_unique [OF ids(1)] sql_find_Some [of dr_event_id i] show "replay_owner L db ident = Some i"
      by (fastforce simp: replay_owner_def u)
  qed
  have "replay_status db' i = replay_status db i" if "replay_owner L db ident \<noteq> Some i" for i
    using that find own by (cases "sql_find dr_event_id i (replays db)") (auto simp: replay_status_def)
  moreover have "replay_status db' i = Some (if ok then ReplaySucceeded else ReplayFailed)"
    if "replay_owner L db ident = Some i" for i
    using that find own g(3) by (auto simp: replay_status_def)
  ultimately show ?thesis using ok' by blast
qed

lemma claim_replay_none:
  "claim_replay cx ident src db = Inr (None, db') \<Longrightarrow> db' = db"
  by (auto simp: claim_replay_def split: option.splits if_splits)

interpretation pg_audit: audit_log PostgresAuditStore replay_status "replay_owner L" "replays_ok L" "audit_env_ok L"
  for L :: "'y lib_scheme"
proof unfold_locales
  fix cx :: "'x ctx_scheme" and db src res db'
  assume fine: "audit_env_ok L cx" and inv: "replays_ok L db" and "as_StartReplay PostgresAuditStore cx src db = (res, db')"
  then have run: "StartReplay cx src db = (res, db')" by simp
  obtain r0 db0 where tx: "auto_tx cx (claim_replay cx (cx_uuid cx 0) src db) db = (r0, db0)" by force
  with run have db0: "db' = db0" and res: "\<And>a. res = Inr a \<Longrightarrow> r0 = Inr (Some a)"
    by (auto simp: StartReplay_def split: sum.splits option.splits)
  from tx show "replays_ok L db' \<and> (\<forall>i. i \<noteq> rs_EventID src \<longrightarrow> replay_status db' i = replay_status db i)
        \<and> (replay_status db (rs_EventID src) \<in> {Some ReplayStarted, Some ReplaySucceeded}
             \<longrightarrow> (\<exists>e. res = Inl e) \<and> replay_status db' (rs_EventID src) = replay_status db (rs_EventID src))
        \<and> (\<forall>a. res = Inr a \<longrightarrow> replay_owner L db' a = Some (rs_EventID src))"
  proof (cases rule: auto_tx_cases)
    case (unchanged e)
    with inv db0 res show ?thesis by (cases res) auto
  next
    case (installed a)
    show ?thesis
    proof (cases a)
      case None
      with installed(1) claim_replay_none db0 have "db' = db" by blast
      with installed(2) None inv res show ?thesis by (cases res) auto
    next
      case (Some u)
      with installed(1) claim_replay_row [OF _ inv fine] db0
      have "replays_ok L db' \<and> (\<forall>i. i \<noteq> rs_EventID src \<longrightarrow> replay_status db' i = replay_status db i)
        \<and> replay_status db (rs_EventID src) \<notin> {Some ReplayStarted, Some ReplaySucceeded}
        \<and> replay_owner L db' u = Some (rs_EventID src)" by blast
      with installed(2) res Some show ?thesis by auto
    qed
  qed
next
  fix cx :: "'x ctx_scheme" and db a ok f res db'
  assume fine: "audit_env_ok L cx" and inv: "replays_ok L db" and "as_FinishReplay PostgresAuditStore cx a ok f db = (res, db')"
  then have run: "FinishReplay cx a ok f db = (res, db')" by simp
  obtain r0 db0 where tx: "auto_tx cx (finish_update cx a ok f db) db = (r0, db0)" by force
  with run have db0: "db' = db0" and res: "res = None \<Longrightarrow> isl r0 = False"
    by (auto simp: FinishReplay_def split: sum.splits if_splits)
  from tx show "replays_ok L db' \<and> (\<forall>i. replay_owner L db a \<noteq> Some i \<longrightarrow> replay_status db' i = replay_status db i)
        \<and> (\<forall>i. res = None \<longrightarrow> replay_owner L db a = Some i \<longrightarrow> replay_status db' i = Some (if ok then ReplaySucceeded else ReplayFailed))"
  proof (cases rule: auto_tx_cases)
    case (unchanged e)
    with inv db0 res show ?thesis by auto
  next
    case (installed n)
    with finish_update_rows [OF _ inv fine] db0 show ?thesis by blast
  qed
qed

end
