(* ===== verification/Ledger_Properties.thy ===== *)
theory Ledger_Properties
  imports Ledger_Consumer Dead_Letter_Replay Samples
begin

text \<open>
  The properties of the ledger service: the double entry, the consumer and the dead letters.
\<close>

section \<open>Samples\<close>

text \<open>Three environments for the three repository calls of a movement.\<close>

definition sample_ledger_ctx :: "nat \<Rightarrow> ctx" where
  "sample_ledger_ctx i =
     (sample_ctx [])\<lparr>cx_uuid := (\<lambda>k. if i = 0 then ''a'' else if i = 1 then ''b''
        else if k = 0 then ''t'' else if k = 1 then ''x'' else ''y'')\<rparr>"

definition sample_movement :: payment_movement_request where
  "sample_movement = \<lparr>mr_PaymentID = ''p'', mr_AmountCents = 5, mr_Currency = ''usd''\<rparr>"

lemma sample_ledger_lib: "lib.truncate (sample_ledger_ctx i) = lib.truncate sample_lib"
  by (simp add: sample_ledger_ctx_def sample_ctx_def sample_lib_def lib.defs)

lemma sample_uuid_canonical: "\<forall>x u. pg_uuid sample_lib x = Some u \<longrightarrow> pg_uuid sample_lib u = Some u"
  by (simp add: sample_lib_def)

abbreviation record_once where
  "record_once cx others eid et req db \<equiv> RecordPaymentMovementOnce PostgresLedgerRepository cx others eid et req db"

definition sample_ledger :: led_db where
  "sample_ledger =
     \<lparr>accounts = [\<lparr>a_ID = ''a'', a_Name = ''finflow_cash'', a_Currency = ''USD'', a_NormalBalance = ''debit'', a_CreatedAt = 1000\<rparr>,
                  \<lparr>a_ID = ''b'', a_Name = ''merchant_payable'', a_Currency = ''USD'', a_NormalBalance = ''credit'', a_CreatedAt = 1000\<rparr>],
      entries = [\<lparr>en_ID = ''x'', en_TransactionID = ''t'', en_AccountID = ''a'', en_Direction = ''debit'', en_AmountCents = 5,
                   en_Currency = ''USD'', en_ReferenceType = ''payment'', en_ReferenceID = ''p'', en_CreatedAt = 1000\<rparr>,
                 \<lparr>en_ID = ''y'', en_TransactionID = ''t'', en_AccountID = ''b'', en_Direction = ''credit'', en_AmountCents = 5,
                   en_Currency = ''USD'', en_ReferenceType = ''payment'', en_ReferenceID = ''p'', en_CreatedAt = 1000\<rparr>],
      consumed = [\<lparr>ce_event_id = ''e'', ce_event_type = ''payment.created'', ce_aggregate_id = ''p'', ce_consumed_at = 1000\<rparr>],
      replays = []\<rparr>"

lemma sample_recorded:
  "record_once sample_ledger_ctx (\<lambda>s. s) ''e'' ''payment.created'' sample_movement empty_led_db = (Inr (entries sample_ledger, True), sample_ledger)"
  by code_simp

lemma sample_ledger_inv: "led_inv sample_lib sample_ledger"
  using record_once_inv [OF sample_recorded led_inv_empty harmless_id(1) _ sample_uuid_canonical] sample_ledger_lib by blast

section \<open>Double entry\<close>

text \<open>
  C16. The ledger invariant. Recording a payment movement for an event, with any faults and with any
  well-behaved transactions in between, keeps: every entry stands on the normal side of an existing account of its
  currency; every transaction is balanced in every currency; and each payment
  has exactly as many debits, and as many credits, as it has consumed events.
\<close>

theorem movement_keeps_ledger:
  assumes "led_inv L db" and "harmless L others" and "\<forall>i. lib.truncate (cx i) = lib.truncate L"
    and "\<forall>x u. pg_uuid L x = Some u \<longrightarrow> pg_uuid L u = Some u"
  shows "case record_once cx others eid et request db of (res, db') \<Rightarrow>
      (\<forall>t c. net (\<lambda>e. en_TransactionID e = t \<and> en_Currency e = c) (entries db') = 0)
    \<and> (\<forall>e \<in> set (entries db'). \<exists>a \<in> set (accounts db'). a_ID a = en_AccountID e
         \<and> a_Currency a = en_Currency e \<and> a_NormalBalance a = en_Direction e)
    \<and> (\<forall>p. length (entries_for DirectionDebit p (entries db')) = length (filter (\<lambda>c. ce_aggregate_id c = p) (consumed db'))
         \<and> length (entries_for DirectionCredit p (entries db')) = length (filter (\<lambda>c. ce_aggregate_id c = p) (consumed db')))
    \<and> led_inv L db'"
proof -
  obtain res db' where run: "record_once cx others eid et request db = (res, db')" by force
  have inv: "led_inv L db'" by (rule record_once_inv [OF run assms])
  have count: "length (filter (\<lambda>(_, q). q = p) (seen_events db')) = length (filter (\<lambda>c. ce_aggregate_id c = p) (consumed db'))" for p
    by (simp add: seen_events_def filter_map comp_def)
  from inv show ?thesis
    unfolding run by (auto simp: led_inv_def balanced_def once_each_def list_all_iff entry_ok_def count)
qed

theorem movement_keeps_ledger_witness: "led_inv sample_lib sample_ledger"
  using movement_keeps_ledger [OF led_inv_empty harmless_id(1), of sample_ledger_ctx sample_lib "''e''" "''payment.created''" sample_movement]
    sample_ledger_lib sample_uuid_canonical sample_recorded by simp

text \<open>The same event delivered several times, each time with its own environment and faults.\<close>

fun redeliver ::
  "(nat \<Rightarrow> 'x ctx_scheme) list \<Rightarrow> string \<Rightarrow> string \<Rightarrow> payment_movement_request \<Rightarrow> led_db
     \<Rightarrow> (err + entry list \<times> bool) list \<times> led_db"
where
  "redeliver [] eid et req db = ([], db)"
| "redeliver (cx # cxs) eid et req db =
     (case record_once cx (\<lambda>s. s) eid et req db of
        (r, db1) \<Rightarrow> (case redeliver cxs eid et req db1 of (rs, db2) \<Rightarrow> (r # rs, db2)))"

definition delivered_to ::
  "led_db \<Rightarrow> string \<Rightarrow> payment_movement_request \<Rightarrow> led_db \<Rightarrow> bool \<Rightarrow> bool"
where
  "delivered_to db u req db' ok \<longleftrightarrow>
     (entries db' = entries db \<and> seen_events db' = seen_events db \<and> \<not> ok)
   \<or> (\<exists>d k. entries db' = entries db @ [d, k] \<and> u \<in> fst ` set (seen_events db')
        \<and> double_entry (accounts db') (mr_AmountCents req) (trim_space (mr_PaymentID req)) d k)"

lemma double_entry_mono:
  "double_entry as amount p d k \<Longrightarrow> set as \<subseteq> set as' \<Longrightarrow> double_entry as' amount p d k"
  by (auto simp: double_entry_def intro: entry_ok_mono)

lemma redeliver_once:
  assumes "\<forall>cx \<in> set cxs. \<forall>i. lib.truncate (cx i) = lib.truncate L"
    and "\<forall>x u. pg_uuid L x = Some u \<longrightarrow> pg_uuid L u = Some u"
    and "pg_uuid L (trim_space eid) = Some u" and "u \<notin> fst ` set (seen_events db0)"
    and "led_inv L db" and "delivered_to db0 u req db ok"
    and "redeliver cxs eid et req db = (rs, db')"
  shows "led_inv L db' \<and> delivered_to db0 u req db' (ok \<or> (\<exists>x. Inr x \<in> set rs))"
  using assms(1,5,6,7)
proof (induction cxs arbitrary: db rs ok)
  case (Cons cx cxs)
  obtain r db1 rs1 where one: "record_once cx (\<lambda>s. s) eid et req db = (r, db1)"
    and rest: "redeliver cxs eid et req db1 = (rs1, db')" and rs: "rs = r # rs1"
    using Cons.prems(4) by (auto split: prod.splits)
  have lib: "\<forall>i. lib.truncate (cx i) = lib.truncate L" using Cons.prems(1) by simp
  note inv1 = record_once_inv [OF one Cons.prems(2) harmless_id(1) lib assms(2)]
  have grow: "set (accounts db) \<subseteq> set (accounts db1)"
  proof -
    obtain b s1 where build: "buildPaymentMovement PostgresLedgerRepository cx req db = (b, s1)" by force
    note g = pg_ledger.build_effect [OF build]
    show ?thesis
    proof (cases "\<not> uuid_parse (cx 0) (trim_space eid) \<or> trim_space et = []")
      case False
      show ?thesis
      proof (cases b)
        case (Inr es)
        with one False build have "CreateTransactionOnce (cx 2) (trim_space eid) (trim_space et)
            (trim_space (mr_PaymentID req)) es s1 = (r, db1)"
          by (auto simp: RecordPaymentMovementOnce_def Let_def split: prod.splits sum.splits)
        with pg_ledger.once [of "cx 2"] g show ?thesis by simp
      qed (use one False build g in \<open>auto simp: RecordPaymentMovementOnce_def Let_def\<close>)
    qed (use one in \<open>auto simp: RecordPaymentMovementOnce_def Let_def split: if_splits\<close>)
  qed
  from one Cons.prems(2) harmless_id(1) lib assms(2)
  have "delivered_to db0 u req db1 (ok \<or> (\<exists>x. r = Inr x))"
  proof (cases rule: record_once_steps)
    case (stopped er)
    from Cons.prems(3) have "delivered_to db0 u req db1 ok"
      unfolding delivered_to_def stopped(3,4) using grow double_entry_mono by blast
    with stopped(1) show ?thesis by simp
  next
    case (wrote s1)
    have acc: "set (accounts s1) = set (accounts db1)" using wrote(4) by (simp add: delivery_def)
    from wrote(4) consider (failed) er where "r = Inl er" "entries db1 = entries db" "seen_events db1 = seen_events db"
      | (dup) "u \<in> fst ` set (seen_events db)" "entries db1 = entries db" "seen_events db1 = seen_events db"
      | (new) d k where "u \<notin> fst ` set (seen_events db)" "u \<in> fst ` set (seen_events db1)" "entries db1 = entries db @ [d, k]"
          "double_entry (accounts db1) (mr_AmountCents req) (trim_space (mr_PaymentID req)) d k"
      unfolding delivery_def wrote(2,3) assms(3) by fastforce
    then show ?thesis
    proof cases
      case failed
      from Cons.prems(3) have "delivered_to db0 u req db1 ok"
        unfolding delivered_to_def failed(2,3) using grow double_entry_mono by blast
      with failed(1) show ?thesis by simp
    next
      case dup
      with Cons.prems(3) assms(4) obtain d k where "entries db = entries db0 @ [d, k]"
        "double_entry (accounts db) (mr_AmountCents req) (trim_space (mr_PaymentID req)) d k"
        by (auto simp: delivered_to_def)
      with dup double_entry_mono [OF _ grow] show ?thesis unfolding delivered_to_def by auto
    next
      case new
      with Cons.prems(3) have "entries db = entries db0" by (auto simp: delivered_to_def)
      with new show ?thesis unfolding delivered_to_def by auto
    qed
  qed
  from Cons.IH [OF _ inv1 this rest] Cons.prems(1)
  have "led_inv L db' \<and> delivered_to db0 u req db' ((ok \<or> (\<exists>x. r = Inr x)) \<or> (\<exists>x. Inr x \<in> set rs1))" by simp
  moreover have "((ok \<or> (\<exists>x. r = Inr x)) \<or> (\<exists>x. Inr x \<in> set rs1)) = (ok \<or> (\<exists>x. Inr x \<in> set rs))"
    unfolding rs by (metis list.set_intros(1,2) set_ConsD)
  ultimately show ?case by simp
qed simp

text \<open>
  C17. Exactly once. The same event is delivered any number of times, each delivery with its own
  environment and faults: over all of them, at most one double entry of the
  requested amount is added to the ledger, and exactly one as soon as one delivery has succeeded.
\<close>

theorem event_recorded_once:
  assumes inv: "led_inv L db" and lib: "\<forall>cx \<in> set cxs. \<forall>i. lib.truncate (cx i) = lib.truncate L"
    and canon: "\<forall>x u. pg_uuid L x = Some u \<longrightarrow> pg_uuid L u = Some u"
    and fresh: "pg_uuid L (trim_space eid) = Some u" "u \<notin> set (map ce_event_id (consumed db))"
  shows "case redeliver cxs eid et request db of (rs, db') \<Rightarrow>
      (entries db' = entries db \<and> (\<forall>r \<in> set rs. isl r))
    \<or> (\<exists>d k. entries db' = entries db @ [d, k]
         \<and> en_Direction d = DirectionDebit \<and> en_Direction k = DirectionCredit
         \<and> en_AmountCents d = mr_AmountCents request \<and> en_AmountCents k = mr_AmountCents request
         \<and> en_ReferenceID d = trim_space (mr_PaymentID request) \<and> en_ReferenceID k = trim_space (mr_PaymentID request))"
proof -
  obtain rs db' where run: "redeliver cxs eid et request db = (rs, db')" by force
  have "u \<notin> fst ` set (seen_events db)" using fresh(2) by (simp add: fst_seen_events)
  from redeliver_once [OF lib canon fresh(1) this inv _ run, of False]
  have "delivered_to db u request db' (\<exists>x. Inr x \<in> set rs)" by (simp add: delivered_to_def)
  moreover have "\<forall>r \<in> set rs. isl r" if "\<not> (\<exists>x. Inr x \<in> set rs)"
    using that by (metis isl_def sum.exhaust)
  ultimately show ?thesis unfolding run by (auto simp: delivered_to_def double_entry_def)
qed

theorem event_recorded_once_witness:
  "\<exists>d k. entries (snd (redeliver [sample_ledger_ctx, sample_ledger_ctx] ''e'' ''payment.created'' sample_movement empty_led_db)) = [d, k]
    \<and> en_AmountCents d = 5 \<and> en_AmountCents k = 5"
proof -
  have again: "record_once sample_ledger_ctx (\<lambda>s. s) ''e'' ''payment.created'' sample_movement sample_ledger = (Inr ([], False), sample_ledger)"
    by code_simp
  have run: "redeliver [sample_ledger_ctx, sample_ledger_ctx] ''e'' ''payment.created'' sample_movement empty_led_db
      = ([Inr (entries sample_ledger, True), Inr ([], False)], sample_ledger)"
    by (simp add: sample_recorded again)
  have u: "pg_uuid sample_lib (trim_space ''e'') = Some ''e''" "''e'' \<notin> set (map ce_event_id (consumed empty_led_db))"
    by code_simp+
  from event_recorded_once [OF led_inv_empty, where cxs = "[sample_ledger_ctx, sample_ledger_ctx]" and L = sample_lib
        and eid = "''e''" and u = "''e''" and et = "''payment.created''" and request = sample_movement] sample_ledger_lib sample_uuid_canonical u
  have "(entries sample_ledger = entries empty_led_db \<and> (\<forall>r \<in> set [Inr (entries sample_ledger, True), Inr ([], False) :: err + entry list \<times> bool]. isl r))
    \<or> (\<exists>d k. entries sample_ledger = entries empty_led_db @ [d, k] \<and> en_AmountCents d = mr_AmountCents sample_movement
        \<and> en_AmountCents k = mr_AmountCents sample_movement)"
    unfolding run by (simp del: redeliver.simps) blast
  then show ?thesis unfolding run by (auto simp: sample_movement_def empty_led_db_def)
qed

text \<open>
  C18. The trial balance. Whatever list of balances the service returns, the cash balance
  and the merchant balance of one currency in it are the same number, namely the sum of all
  debits of that currency.
\<close>

theorem balances_agree:
  assumes inv: "led_inv L db" and list: "LedgerService_ListBalances PostgresLedgerRepository cx db = Inr bs"
    and cash: "b \<in> set bs" "b_AccountName b = cashAccountName"
    and payable: "b' \<in> set bs" "b_AccountName b' = merchantPayableAccountName" "b_Currency b' = b_Currency b"
  shows "b_AmountCents b = b_AmountCents b'
    \<and> sint (b_AmountCents b) = side_sum DirectionDebit (b_Currency b) (entries db)"
proof -
  have bal: "\<exists>a \<in> set (accounts db). a_Name a = b_AccountName x \<and> a_Currency a = b_Currency x
      \<and> account_sum db a = sint (b_AmountCents x)" if x: "x \<in> set bs" for x
  proof -
    from list have "map (scan_balance cx db) (sort_by (account_before cx) (accounts db)) = map Inr bs"
      unfolding LedgerService_ListBalances_def by (auto simp: ListBalances_def dest: query_rows_Inr)
    then have "Inr x \<in> scan_balance cx db ` set (accounts db)"
      using x by (metis image_eqI list.set_map set_sort_by)
    then obtain a where "a \<in> set (accounts db)" "scan_balance cx db a = Inr x" by auto
    then show ?thesis
      by (auto simp: scan_balance_def to_i64_def in_i64_def split: option.splits if_splits intro!: bexI [of _ a])
  qed
  from bal [OF cash(1)] obtain a where a: "a \<in> set (accounts db)" "a_Name a = cashAccountName" "a_Currency a = b_Currency b"
    "account_sum db a = sint (b_AmountCents b)" using cash(2) by auto
  from bal [OF payable(1)] obtain a' where a': "a' \<in> set (accounts db)" "a_Name a' = merchantPayableAccountName"
    "a_Currency a' = b_Currency b" "account_sum db a' = sint (b_AmountCents b')" using payable(2,3) by auto
  have sides: "a_NormalBalance a = DirectionDebit" "a_NormalBalance a' = DirectionCredit"
    using inv a a' normal_side unfolding led_inv_def by blast+
  from account_sum_side [OF inv a(1)] account_sum_side [OF inv a'(1)] sides a a' sides_equal [OF inv]
  have "sint (b_AmountCents b) = sint (b_AmountCents b')"
    "sint (b_AmountCents b) = side_sum DirectionDebit (b_Currency b) (entries db)" by simp_all
  then show ?thesis by (simp add: sint_eq_iff)
qed

theorem balances_agree_witness:
  "\<exists>b b'. LedgerService_ListBalances PostgresLedgerRepository (sample_ctx []) sample_ledger = Inr [b, b'] \<and> b_AmountCents b = b_AmountCents b'"
proof -
  let ?b = "\<lambda>i n. \<lparr>b_AccountID = i, b_AccountName = n, b_Currency = ''USD'', b_AmountCents = 5, b_AsOf = 1000\<rparr>"
  have l: "LedgerService_ListBalances PostgresLedgerRepository (sample_ctx []) sample_ledger
      = Inr [?b ''a'' ''finflow_cash'', ?b ''b'' ''merchant_payable'']" by code_simp
  from balances_agree [OF sample_ledger_inv l, of "?b ''a'' ''finflow_cash''" "?b ''b'' ''merchant_payable''"]
  have "b_AmountCents (?b ''a'' ''finflow_cash'') = b_AmountCents (?b ''b'' ''merchant_payable'')"
    by (simp add: cashAccountName_def merchantPayableAccountName_def)
  with l show ?thesis by blast
qed

section \<open>Validation of a transaction\<close>

lemma net_bound:
  assumes "list_all (entry_valid ut) es"
  shows "\<bar>net P es\<bar> \<le> (\<Sum>e\<leftarrow>es. sint (en_AmountCents e))"
  using assms by (induction es) (auto simp: net_Cons signed_amount_def entry_valid_def)

text \<open>
  C19. The balance check against its specification: as long as the amounts add up to less than 2 to the
  63, \<open>ValidateBalanced\<close> accepts a transaction exactly when it has at least two entries, every entry
  has a positive amount, a known direction and a currency of the accepted form, and in every currency the
  debits equal the credits as integers.
\<close>

theorem validate_balanced_exact:
  assumes "(\<Sum>e\<leftarrow>es. sint (en_AmountCents e)) < 2 ^ 63"
  shows "ValidateBalanced ut es = None \<longleftrightarrow>
    2 \<le> length es
    \<and> (\<forall>e \<in> set es. 0 < sint (en_AmountCents e) \<and> (en_Direction e = DirectionDebit \<or> en_Direction e = DirectionCredit)
         \<and> isCurrency ut (en_Currency e))
    \<and> (\<forall>c. (\<Sum>e\<leftarrow>filter (\<lambda>e. en_Currency e = c \<and> en_Direction e = DirectionDebit) es. sint (en_AmountCents e))
         = (\<Sum>e\<leftarrow>filter (\<lambda>e. en_Currency e = c \<and> en_Direction e = DirectionCredit) es. sint (en_AmountCents e)))"
proof (cases "list_all (entry_valid ut) es")
  case False
  then obtain e where "tally ut es [] = Inl e" using tally_result(1) [of ut es "[]"] by (cases "tally ut es []") auto
  then show ?thesis using False
    by (auto simp: ValidateBalanced_def list_all_iff entry_valid_def isKnownDirection_def)
next
  case True
  then obtain totals where t: "tally ut es [] = Inr totals" using tally_result(1) by blast
  have sides: "net (\<lambda>e. en_Currency e = c) es
      = (\<Sum>e\<leftarrow>filter (\<lambda>e. en_Currency e = c \<and> en_Direction e = DirectionDebit) es. sint (en_AmountCents e))
        - (\<Sum>e\<leftarrow>filter (\<lambda>e. en_Currency e = c \<and> en_Direction e = DirectionCredit) es. sint (en_AmountCents e))" for c
    using True by (induction es) (auto simp: net_Cons signed_amount_def entry_valid_def isKnownDirection_def)
  have small: "- (2 ^ 63) \<le> net (\<lambda>e. en_Currency e = c) es" "net (\<lambda>e. en_Currency e = c) es < 2 ^ 63" for c
    using net_bound [OF True, of "\<lambda>e. en_Currency e = c"] assms by auto
  have "i64_of (net (\<lambda>e. en_Currency e = c) es) = 0 \<longleftrightarrow> net (\<lambda>e. en_Currency e = c) es = 0" for c
    using sint_i64_of [OF small] by (metis i64_of_def signed_0 of_int_0)
  moreover have "total_of c totals = i64_of (net (\<lambda>e. en_Currency e = c) es)" for c
    using tally_Inr [OF t, of c] by (simp add: total_of_def)
  moreover have "distinct (map fst totals)" using tally_Inr [OF t] by simp
  ultimately have "list_all (\<lambda>(_, t). t = 0) totals \<longleftrightarrow> (\<forall>c. net (\<lambda>e. en_Currency e = c) es = 0)"
    using totals_zero by simp
  with t True show ?thesis
    by (auto simp: ValidateBalanced_def sides list_all_iff entry_valid_def isKnownDirection_def)
qed

theorem validate_balanced_exact_witness:
  "ValidateBalanced sample_lib (entries sample_ledger) = None
    \<and> (\<Sum>e\<leftarrow>filter (\<lambda>e. en_Currency e = ''USD'' \<and> en_Direction e = DirectionDebit) (entries sample_ledger). sint (en_AmountCents e)) = 5
    \<and> (\<Sum>e\<leftarrow>filter (\<lambda>e. en_Currency e = ''USD'' \<and> en_Direction e = DirectionCredit) (entries sample_ledger). sint (en_AmountCents e)) = 5"
proof -
  have small: "(\<Sum>e\<leftarrow>entries sample_ledger. sint (en_AmountCents e)) < 2 ^ 63" by (simp add: sample_ledger_def)
  have accepted: "ValidateBalanced sample_lib (entries sample_ledger) = None" by code_simp
  have "(\<Sum>e\<leftarrow>filter (\<lambda>e. en_Currency e = ''USD'' \<and> en_Direction e = DirectionDebit) (entries sample_ledger). sint (en_AmountCents e)) = 5"
    by (simp add: sample_ledger_def DirectionDebit_def)
  moreover from validate_balanced_exact [OF small, of sample_lib, THEN iffD1, OF accepted, THEN conjunct2, THEN conjunct2]
  have "(\<Sum>e\<leftarrow>filter (\<lambda>e. en_Currency e = ''USD'' \<and> en_Direction e = DirectionDebit) (entries sample_ledger). sint (en_AmountCents e))
    = (\<Sum>e\<leftarrow>filter (\<lambda>e. en_Currency e = ''USD'' \<and> en_Direction e = DirectionCredit) (entries sample_ledger). sint (en_AmountCents e))"
    by (rule spec)
  ultimately show ?thesis using accepted by (intro conjI) (assumption, assumption, simp only:)
qed

definition debit_of :: "i64 \<Rightarrow> entry" where
  "debit_of amount =
     \<lparr>en_ID = ''x'', en_TransactionID = ''t'', en_AccountID = ''a'', en_Direction = DirectionDebit,
      en_AmountCents = amount, en_Currency = ''USD'', en_ReferenceType = ''payment'', en_ReferenceID = ''p'',
      en_CreatedAt = 0\<rparr>"

text \<open>
  Without that bound the check is wrong: the running totals are \<open>int64\<close> and wrap around. Three debits
  and no credit pass, although the sum of the debits is 2 to the 64.
\<close>

theorem unbalanced_accepted_on_overflow:
  "ValidateBalanced sample_lib [debit_of 0x7FFFFFFFFFFFFFFF, debit_of 0x7FFFFFFFFFFFFFFF, debit_of 2] = None
    \<and> net (\<lambda>e. en_Currency e = ''USD'') [debit_of 0x7FFFFFFFFFFFFFFF, debit_of 0x7FFFFFFFFFFFFFFF, debit_of 2] = 2 ^ 64"
proof -
  have cur: "isCurrency sample_lib ''USD''" by code_simp
  show ?thesis by (simp add: ValidateBalanced_def debit_of_def isKnownDirection_def cur signed_amount_def)
qed

end
