(* ===== verification/Consumer_Properties.thy ===== *)
theory Consumer_Properties
  imports Ledger_Properties
begin

text \<open>
  The properties of the consumer of payment events and of its dead letters.
\<close>

section \<open>Samples\<close>

definition sample_message :: kafka_message where
  "sample_message =
     \<lparr>km_Topic = ''payments'', km_Partition = 0, km_Offset = 7, km_HighWaterMark = 8, km_Key = ''p'', km_Value = ''{}'',
      km_Headers = [(''event_id'', ''e''), (''event_type'', ''payment.created'')]\<rparr>"

definition sample_consumer :: consumer_config where
  "sample_consumer =
     \<lparr>cc_maxAttempts = 3, cc_retryInitialBackoff = 100, cc_retryMaxBackoff = 150, cc_deadLetterTopic = ''dead''\<rparr>"

text \<open>A parser that reads every document as the sample payload.\<close>

definition sample_parser :: lib where
  "sample_parser = sample_lib\<lparr>json_parse := (\<lambda>_. Some (JObj [(''schema_version'', JInt 1), (''payment_id'', JStr ''p''),
     (''amount_cents'', JInt 5), (''currency'', JStr ''usd'')]))\<rparr>"

definition sample_dead_letters :: dead_letter_env where
  "sample_dead_letters = \<lparr>dp_now = Some ''2026-01-01T00:00:00Z'', dp_text = (\<lambda>_. ''{}''), dp_write = (\<lambda>_. WriteOk)\<rparr>"

definition no_state :: "led_db \<Rightarrow> led_db consumer_state" where
  "no_state db = \<lparr>cs_ledger = db, cs_dead_letters = [], cs_committed = [], cs_metrics = []\<rparr>"

abbreviation sample_turn where
  "sample_turn m \<equiv> Fetched m (\<lambda>_. (sample_ledger_ctx, \<lambda>s. s)) (\<lambda>_. None) sample_dead_letters None"

lemma sample_headers:
  "headerValue (km_Headers sample_message) ''event_id'' = ''e''"
  "headerValue (km_Headers sample_message) ''event_type'' = PaymentCreatedEventName"
  by code_simp+

lemma sample_handled:
  "HandleMessage sample_parser postgres_port (sample_ledger_ctx, \<lambda>s. s) sample_message empty_led_db
     = (None, sample_ledger, [KafkaConsumed ''payment.created'' ''success'', KafkaLag ''payments'' 0 0])"
proof -
  have d: "map_option movement_of (decode_payment_created sample_parser (km_Value sample_message)) = Some sample_movement"
    by code_simp
  then obtain pc where pc: "decode_payment_created sample_parser (km_Value sample_message) = Some pc" "movement_of pc = sample_movement"
    by auto
  have name: "PaymentCreatedEventName = ''payment.created''" by (rule PaymentCreatedEventName_def)
  show ?thesis
    unfolding HandleMessage_def sample_headers Let_def
    by (simp add: handlePaymentCreated_def pc name postgres_port_def sample_recorded)
       (simp add: sample_message_def RecordKafkaConsume_def event_label_def result_label_def)
qed

section \<open>Commits\<close>

fun fetched :: "'c turn list \<Rightarrow> kafka_message list" where
  "fetched [] = []"
| "fetched (FetchFails e w # ts) = fetched ts"
| "fetched (Fetched m env cancel dle commit # ts) = m # fetched ts"

lemma commit_message_committed:
  assumes "commit_message f m st = (e, st')"
  shows "cs_committed st' = cs_committed st @ (if e = None then [m] else [])"
  using assms by (auto simp: commit_message_def split: option.splits)

lemma consume_turn_committed:
  assumes "consume_turn L port cfg t st = (e, st')"
  shows "cs_committed st' = cs_committed st @ (if e = None then fetched [t] else [])"
proof (cases t)
  case (FetchFails er w)
  with assms show ?thesis by (auto simp: consume_turn_def split: if_splits option.splits)
next
  case (Fetched m env cancel dle commit)
  with assms show ?thesis
    by (auto simp: consume_turn_def Let_def split: if_splits option.splits prod.splits dest!: commit_message_committed)
qed

lemma fetched_append: "fetched (ts @ us) = fetched ts @ fetched us"
  by (induction ts rule: fetched.induct) simp_all

lemma run_committed:
  assumes "Consumer_Run L port cfg ts st = (e, st')"
  shows "\<exists>k \<le> length ts. cs_committed st' = cs_committed st @ fetched (take k ts) \<and> (e = None \<longrightarrow> k = length ts)"
  using assms
proof (induction ts arbitrary: st)
  case (Cons t ts)
  obtain e1 st1 where t: "consume_turn L port cfg t st = (e1, st1)" by force
  note c = consume_turn_committed [OF t]
  show ?case
  proof (cases e1)
    case None
    with Cons t obtain k where k: "k \<le> length ts" "cs_committed st' = cs_committed st1 @ fetched (take k ts)" "e = None \<longrightarrow> k = length ts"
      by fastforce
    have "fetched (t # take k ts) = fetched [t] @ fetched (take k ts)"
      using fetched_append [of "[t]" "take k ts"] by simp
    with k c None show ?thesis by (intro exI [of _ "Suc k"]) simp
  next
    case (Some er)
    with Cons.prems t c show ?thesis by (intro exI [of _ 0]) auto
  qed
qed simp



section \<open>Retries\<close>


definition sample_poison :: kafka_message where
  "sample_poison = sample_message\<lparr>km_Headers := []\<rparr>"


text \<open>A message that the consumer can never handle: no event id, or an undecodable payment.\<close>

definition poison :: "'x lib_scheme \<Rightarrow> kafka_message \<Rightarrow> bool" where
  "poison L m \<longleftrightarrow> headerValue (km_Headers m) ''event_id'' = []
     \<or> (headerValue (km_Headers m) ''event_type'' = PaymentCreatedEventName \<and> decode_payment_created L (km_Value m) = None)"

lemma poison_permanent:
  assumes "poison L m"
  shows "\<exists>e ms. HandleMessage L port c m s = (Some (permanent e), s, ms)"
  using assms by (auto simp: poison_def HandleMessage_def handlePaymentCreated_def Let_def)

lemma poison_retry:
  assumes "poison L m" and "0 < sint (cc_maxAttempts cfg)"
  shows "\<exists>e ms. handleWithRetry L port cfg env cancel m s
    = \<lparr>ro_attempts = 1, ro_err = Some (permanent e), ro_state = s, ro_metrics = ms, ro_waits = []\<rparr>"
proof -
  obtain left where left: "nat (sint (cc_maxAttempts cfg)) = Suc left" using assms(2) by (metis gr0_implies_Suc zero_less_nat_eq)
  obtain e ms where "HandleMessage L port (env 1) m s = (Some (permanent e), s, ms)" using poison_permanent [OF assms(1)] by metis
  then show ?thesis using assms(2) left by (auto simp: handleWithRetry_def permanent_def Let_def)
qed

lemma permanent_runs_on: "\<not> stops (permanent e)"
  by (simp add: stops_def permanent_def)



end
