(* ===== verification/Replay_Properties.thy ===== *)
theory Replay_Properties
  imports Consumer_Properties
begin

text \<open>
  The properties of the replay of dead letters.
\<close>

section \<open>What is republished\<close>

text \<open>The record the command reads is the one the consumer wrote for the message.\<close>

definition reads_dead_letter_of ::
  "'x lib_scheme \<Rightarrow> (json \<Rightarrow> bool) \<Rightarrow> 'c replay_command \<Rightarrow> kafka_message \<Rightarrow> bool"
where
  "reads_dead_letter_of L time_ok cmd m \<longleftrightarrow>
     (\<forall>p o' fm. rc_fetch cmd p o' = Inr fm \<longrightarrow>
        (\<exists>cause n now. time_ok (JStr now)
           \<and> json_parse L (km_Value fm) = Some (dead_letter_json (dead_letter_of m cause n (JStr now)))))"

lemma replay_run_reads:
  assumes "reads_dead_letter_of L time_ok cmd m" and "replay_run L time_ok A cmd st = (None, st')"
  obtains cause n now operator reason where
    "Replay A (rc_topic cmd) (rc_env cmd) (dead_letter_of m cause n (JStr now)) operator reason st = (None, st')"
proof -
  from assms(2) obtain p o' fm j r where fm: "rc_fetch cmd p o' = Inr fm" "json_parse L (km_Value fm) = Some j"
    and rec: "decode_dead_letter time_ok j = Some r"
    and run: "Replay A (rc_topic cmd) (rc_env cmd) r (trim_space (rc_getenv cmd ''REPLAY_OPERATOR''))
      (trim_space (rc_getenv cmd ''REPLAY_REASON'')) st = (None, st')"
    by (auto simp: replay_run_def Let_def split: sum.splits option.splits if_splits prod.splits)
  from assms(1) fm obtain cause n now where "time_ok (JStr now)" "j = dead_letter_json (dead_letter_of m cause n (JStr now))"
    unfolding reads_dead_letter_of_def by (metis option.inject)
  with rec decode_dead_letter_json [of time_ok "dead_letter_of m cause n (JStr now)"]
  have "r = dead_letter_of m cause n (JStr now)" by (simp add: dead_letter_of_def)
  with run that show thesis by blast
qed

lemma Replay_log:
  assumes "Replay A topic env r operator reason st = (None, st')"
  obtains a where "rp_log st' = rp_log st @ [replay_message topic (rp_now env) a r]" "dl_SourceTopic r = topic"
    "dl_EventID r \<noteq> []"
proof -
  from assms obtain a s1 s2 log where "dl_SourceTopic r = topic" "dl_EventID r \<noteq> []"
    "write_message (rp_write env (replay_message topic (rp_now env) a r)) (replay_message topic (rp_now env) a r) (rp_log st) = (None, log)"
    "st' = st\<lparr>rp_store := s2, rp_log := log\<rparr>"
    by (auto simp: Replay_def Let_def split: if_splits sum.splits option.splits prod.splits)
  then show thesis
    using that [of a] write_message_None [of "rp_write env (replay_message topic (rp_now env) a r)"
        "replay_message topic (rp_now env) a r" "rp_log st"] by simp
qed

text \<open>The outcome and the ledger depend on the two headers and the value only.\<close>

lemma HandleMessage_same:
  assumes "headerValue (km_Headers m) ''event_id'' = headerValue (km_Headers m') ''event_id''"
    and "headerValue (km_Headers m) ''event_type'' = headerValue (km_Headers m') ''event_type''"
    and "km_Value m = km_Value m'"
  shows "fst (HandleMessage L port c m s) = fst (HandleMessage L port c m' s)
    \<and> fst (snd (HandleMessage L port c m s)) = fst (snd (HandleMessage L port c m' s))"
  by (simp add: HandleMessage_def Let_def assms split_beta)

text \<open>
  C23. Replaying restores the message. When the replay command succeeds on the dead letter the consumer wrote
  for a message, exactly one message is published: to the topic it came from, with the same key and value, and with
  every header as it was (except the two the replayer adds); and the consumer treats it exactly as the original.
\<close>

theorem replay_restores_message:
  assumes "reads_dead_letter_of L time_ok cmd m" and "replay_run L time_ok A cmd st = (None, st')"
    and "km_Topic m = rc_topic cmd"
  shows "\<exists>out. rp_log st' = rp_log st @ [out] \<and> km_Topic out = km_Topic m \<and> km_Key out = km_Key m \<and> km_Value out = km_Value m
    \<and> (\<forall>k. k \<noteq> ''replayed_at'' \<and> k \<noteq> ''replay_audit_id'' \<longrightarrow> headerValue (km_Headers out) k = headerValue (km_Headers m) k)
    \<and> (\<forall>L' port c s. fst (HandleMessage L' port c out s) = fst (HandleMessage L' port c m s)
         \<and> fst (snd (HandleMessage L' port c out s)) = fst (snd (HandleMessage L' port c m s)))"
proof -
  obtain cause n now operator reason where
    run: "Replay A (rc_topic cmd) (rc_env cmd) (dead_letter_of m cause n (JStr now)) operator reason st = (None, st')"
    by (rule replay_run_reads [OF assms(1,2)])
  obtain a where log: "rp_log st' = rp_log st @ [replay_message (rc_topic cmd) (rp_now (rc_env cmd)) a (dead_letter_of m cause n (JStr now))]"
    by (rule Replay_log [OF run])
  let ?out = "replay_message (rc_topic cmd) (rp_now (rc_env cmd)) a (dead_letter_of m cause n (JStr now))"
  have h: "k \<noteq> ''replayed_at'' \<and> k \<noteq> ''replay_audit_id'' \<Longrightarrow> headerValue (km_Headers ?out) k = headerValue (km_Headers m) k" for k
  proof -
    have "headerValue hs k = []" if "k \<notin> set (map fst hs)" for hs
      using that by (induction hs) auto
    then show "k \<noteq> ''replayed_at'' \<and> k \<noteq> ''replay_audit_id'' \<Longrightarrow> headerValue (km_Headers ?out) k = headerValue (km_Headers m) k"
      by (auto simp: replay_message_def dead_letter_of_def headerValue_append)
  qed
  have parts: "km_Topic ?out = km_Topic m" "km_Key ?out = km_Key m" "km_Value ?out = km_Value m"
    using assms(3) by (simp_all add: replay_message_def dead_letter_of_def)
  have "headerValue (km_Headers ?out) ''event_id'' = headerValue (km_Headers m) ''event_id''"
    "headerValue (km_Headers ?out) ''event_type'' = headerValue (km_Headers m) ''event_type''"
    by (rule h; simp)+
  note same = HandleMessage_same [OF this parts(3)]
  from log parts h same show ?thesis by blast
qed

definition sample_failed :: dead_letter_record where
  "sample_failed = dead_letter_of sample_message ErrCanceled 3 (JStr ''2026-01-01T00:00:00Z'')"

definition sample_command :: "(string \<Rightarrow> string) \<Rightarrow> ctx replay_command" where
  "sample_command env =
     \<lparr>rc_getenv = env, rc_connect = None, rc_reader = (\<lambda>_ _. None),
      rc_fetch = (\<lambda>p o'. Inr ((outgoing ''dead'' ''p'' ''{}'' [])\<lparr>km_Offset := o'\<rparr>)), rc_writer = None, rc_topic = ''payments'',
      rc_env = \<lparr>rp_start = sample_ctx ''1'', rp_finish = sample_ctx ''2'', rp_now = ''now'', rp_write = (\<lambda>_. WriteOk)\<rparr>\<rparr>"

definition sample_variables :: "string \<Rightarrow> string" where
  "sample_variables k = (if k = ''REPLAY_EVENT_ID'' then ''e'' else if k = ''REPLAY_PARTITION'' \<or> k = ''REPLAY_OFFSET'' then ''3''
     else ''x'')"

definition sample_replay_lib :: lib where
  "sample_replay_lib = sample_lib\<lparr>json_parse := (\<lambda>_. Some (dead_letter_json sample_failed))\<rparr>"

definition sample_store :: "led_db \<Rightarrow> led_db replay_state" where
  "sample_store db = \<lparr>rp_store = db, rp_log = []\<rparr>"

lemma sample_replay:
  "\<exists>st'. replay_run sample_replay_lib (\<lambda>_. True) PostgresAuditStore (sample_command sample_variables) (sample_store empty_led_db) = (None, st')
     \<and> length (rp_log st') = 1 \<and> map dr_status (replays (rp_store st')) = [ReplaySucceeded]"
proof -
  have nums: "requiredInt64 sample_variables ''REPLAY_PARTITION'' = Inr 3" "requiredInt64 sample_variables ''REPLAY_OFFSET'' = Inr 3"
    by code_simp+
  have vars: "trim_space (sample_variables ''REPLAY_EVENT_ID'') = ''e''" "trim_space (sample_variables ''REPLAY_OPERATOR'') = ''x''"
    "trim_space (sample_variables ''REPLAY_REASON'') = ''x''" by code_simp+
  have dec: "decode_dead_letter (\<lambda>_. True) (dead_letter_json sample_failed) = Some sample_failed"
    by (rule decode_dead_letter_json) (simp_all add: sample_failed_def dead_letter_of_def)
  have id: "dl_EventID sample_failed = ''e''" by (simp add: sample_failed_def dead_letter_of_def sample_headers)
  let ?r = "Replay PostgresAuditStore ''payments'' (rc_env (sample_command sample_variables)) sample_failed ''x'' ''x'' (sample_store empty_led_db)"
  have "fst ?r = None" "length (rp_log (snd ?r)) = 1" "map dr_status (replays (rp_store (snd ?r))) = [ReplaySucceeded]"
    by code_simp+
  then have "\<exists>st'. ?r = (None, st') \<and> length (rp_log st') = 1 \<and> map dr_status (replays (rp_store st')) = [ReplaySucceeded]"
    by (metis prod.collapse)
  then show ?thesis
    by (auto simp: replay_run_def nums vars dec id sample_command_def sample_replay_lib_def Let_def)
qed

lemma sample_reads: "reads_dead_letter_of sample_replay_lib (\<lambda>_. True) (sample_command v) sample_message"
  unfolding reads_dead_letter_of_def sample_replay_lib_def sample_failed_def by auto

theorem replay_restores_message_witness:
  "\<exists>st' out. replay_run sample_replay_lib (\<lambda>_. True) PostgresAuditStore (sample_command sample_variables) (sample_store empty_led_db) = (None, st')
     \<and> rp_log st' = [out] \<and> km_Key out = ''p'' \<and> headerValue (km_Headers out) ''event_id'' = ''e''"
proof -
  obtain st' where run: "replay_run sample_replay_lib (\<lambda>_. True) PostgresAuditStore (sample_command sample_variables) (sample_store empty_led_db) = (None, st')"
    using sample_replay by blast
  have topic: "km_Topic sample_message = rc_topic (sample_command sample_variables)"
    by (simp add: sample_message_def sample_command_def)
  from replay_restores_message [OF sample_reads run topic] show ?thesis
  proof (elim exE conjE)
    fix out
    assume out: "rp_log st' = rp_log (sample_store empty_led_db) @ [out]" "km_Key out = km_Key sample_message"
      "\<forall>k. k \<noteq> ''replayed_at'' \<and> k \<noteq> ''replay_audit_id'' \<longrightarrow> headerValue (km_Headers out) k = headerValue (km_Headers sample_message) k"
  from out(3) [rule_format, of "''event_id''"] have "headerValue (km_Headers out) ''event_id'' = ''e''" by (simp add: sample_headers)
  moreover have "rp_log st' = [out]" "km_Key out = ''p''" using out(1,2) by (simp_all add: sample_store_def sample_message_def)
  ultimately show ?thesis using run by blast
  qed
qed

text \<open>
  A message without an event id is dead-lettered, but its dead letter can never be replayed: whatever
  the variables of the command, it fails and neither publishes anything nor starts an audit.
\<close>

theorem missing_event_id_never_replayed:
  assumes "reads_dead_letter_of L time_ok cmd m" and "headerValue (km_Headers m) ''event_id'' = []"
  shows "\<exists>e. replay_run L time_ok A cmd st = (Some e, st)"
proof -
  have "\<exists>e. replay_run L time_ok A cmd st = (Some e, st)
      \<or> (\<exists>p o' fm j r. rc_fetch cmd p o' = Inr fm \<and> json_parse L (km_Value fm) = Some j
           \<and> decode_dead_letter time_ok j = Some r \<and> dl_EventID r = trim_space (rc_getenv cmd ''REPLAY_EVENT_ID'')
           \<and> dl_EventID r \<noteq> [])"
    by (auto simp: replay_run_def Let_def split: sum.split option.split)
  moreover have False if fm: "rc_fetch cmd p o' = Inr fm" "json_parse L (km_Value fm) = Some j"
      and r: "decode_dead_letter time_ok j = Some r" "dl_EventID r \<noteq> []" for p o' fm j r
  proof -
    from assms(1) fm obtain cause n now where "time_ok (JStr now)" "j = dead_letter_json (dead_letter_of m cause n (JStr now))"
      unfolding reads_dead_letter_of_def by (metis option.inject)
    with r decode_dead_letter_json [of time_ok "dead_letter_of m cause n (JStr now)"] assms(2) show False
      by (auto simp: dead_letter_of_def)
  qed
  ultimately show ?thesis by blast
qed

definition sample_lost_lib :: lib where
  "sample_lost_lib = sample_lib\<lparr>json_parse := (\<lambda>_. Some (dead_letter_json (dead_letter_of sample_poison ErrCanceled 1 (JStr ''t''))))\<rparr>"

theorem missing_event_id_never_replayed_witness:
  "fst (replay_run sample_lost_lib (\<lambda>_. True) PostgresAuditStore (sample_command sample_variables) (sample_store empty_led_db)) \<noteq> None"
proof -
  have "reads_dead_letter_of sample_lost_lib (\<lambda>_. True) (sample_command sample_variables) sample_poison"
    unfolding reads_dead_letter_of_def sample_lost_lib_def by auto
  moreover have "headerValue (km_Headers sample_poison) ''event_id'' = []" by (simp add: sample_poison_def)
  ultimately show ?thesis
    using missing_event_id_never_replayed [of sample_lost_lib "\<lambda>_. True" "sample_command sample_variables" sample_poison
        PostgresAuditStore "sample_store empty_led_db"] by auto
qed

section \<open>At most one successful replay\<close>

text \<open>Replays one after another: the environment, the record, the operator and the reason of each.\<close>

type_synonym 'c replay_job = "'c replay_env \<times> dead_letter_record \<times> string \<times> string"

fun replay_all ::
  "('c, 's) audit_store \<Rightarrow> string \<Rightarrow> 'c replay_job list \<Rightarrow> 's replay_state \<Rightarrow> err option list \<times> 's replay_state"
where
  "replay_all A topic [] st = ([], st)"
| "replay_all A topic ((env, r, operator, reason) # jobs) st =
     (case Replay A topic env r operator reason st of
        (e, st1) \<Rightarrow> (case replay_all A topic jobs st1 of (es, st2) \<Rightarrow> (e # es, st2)))"

definition replayed_events :: "'c replay_job list \<Rightarrow> err option list \<Rightarrow> string list" where
  "replayed_events jobs rs = map (\<lambda>((env, r, operator, reason), _). dl_EventID r) (filter (\<lambda>(_, e). e = None) (zip jobs rs))"

context audit_log
begin

lemma replay_all_status:
  assumes "\<forall>(env, _) \<in> set jobs. fine (rp_start env) \<and> fine (rp_finish env)" and "invar (rp_store st)"
    and "replay_all A topic jobs st = (rs, st')"
  shows "invar (rp_store st') \<and> distinct (replayed_events jobs rs)
    \<and> (\<forall>i \<in> set (replayed_events jobs rs). status (rp_store st) i \<noteq> Some ReplaySucceeded \<and> status (rp_store st') i = Some ReplaySucceeded)
    \<and> (\<forall>i. status (rp_store st) i = Some ReplaySucceeded \<longrightarrow> status (rp_store st') i = Some ReplaySucceeded)"
  using assms
proof (induction jobs arbitrary: st rs)
  case (Cons job jobs)
  obtain env r operator reason where job: "job = (env, r, operator, reason)" by (cases job)
  obtain e st1 where one: "Replay A topic env r operator reason st = (e, st1)" by force
  obtain rs1 where rest: "replay_all A topic jobs st1 = (rs1, st')" and rs: "rs = e # rs1"
    using Cons.prems(3) job one by (auto split: prod.splits)
  have "fine (rp_start env)" "fine (rp_finish env)" using Cons.prems(1) job by auto
  note st1 = Replay_status [OF this Cons.prems(2) one]
  have ih: "invar (rp_store st') \<and> distinct (replayed_events jobs rs1)
    \<and> (\<forall>i \<in> set (replayed_events jobs rs1). status (rp_store st1) i \<noteq> Some ReplaySucceeded \<and> status (rp_store st') i = Some ReplaySucceeded)
    \<and> (\<forall>i. status (rp_store st1) i = Some ReplaySucceeded \<longrightarrow> status (rp_store st') i = Some ReplaySucceeded)"
    by (rule Cons.IH [OF _ _ rest]) (use Cons.prems(1) st1 in auto)
  have keep: "status (rp_store st) i = Some ReplaySucceeded \<Longrightarrow> status (rp_store st1) i = Some ReplaySucceeded" for i
    using st1 by (cases "i = dl_EventID r") auto
  show ?case
  proof (cases e)
    case None
    have evs: "replayed_events (job # jobs) rs = dl_EventID r # replayed_events jobs rs1"
      by (simp add: replayed_events_def rs None job)
    show ?thesis unfolding evs using st1 ih keep None by auto
  next
    case (Some x)
    have "replayed_events (job # jobs) rs = replayed_events jobs rs1" by (simp add: replayed_events_def rs Some)
    with ih keep show ?thesis by auto
  qed
qed (simp add: replayed_events_def)

end

text \<open>
  C24. A dead letter is replayed at most once. Over any sequence of replays, with any faults, against the audit
  table: the events of the successful ones are different, none of them had been replayed before, and the audit of each
  says succeeded at the end.
\<close>

theorem replayed_at_most_once:
  assumes "\<forall>(env, _) \<in> set jobs. audit_env_ok L (rp_start env) \<and> audit_env_ok L (rp_finish env)"
    and "replays_ok L (rp_store st)" and "replay_all PostgresAuditStore topic jobs st = (rs, st')"
  shows "distinct (replayed_events jobs rs)
    \<and> (\<forall>i \<in> set (replayed_events jobs rs). replay_status (rp_store st) i \<noteq> Some ReplaySucceeded
         \<and> replay_status (rp_store st') i = Some ReplaySucceeded)
    \<and> replays_ok L (rp_store st')"
  using pg_audit.replay_all_status [OF assms] by blast

theorem replayed_at_most_once_witness:
  "\<exists>r2 st'. replay_all PostgresAuditStore ''payments'' [(rc_env (sample_command sample_variables), sample_failed, ''x'', ''x''),
      (rc_env (sample_command sample_variables), sample_failed, ''x'', ''x'')] (sample_store empty_led_db) = ([None, Some r2], st')
    \<and> replay_status (rp_store st') ''e'' = Some ReplaySucceeded"
proof -
  let ?jobs = "[(rc_env (sample_command sample_variables), sample_failed, ''x'', ''x''),
      (rc_env (sample_command sample_variables), sample_failed, ''x'', ''x'')]"
  obtain rs st' where run: "replay_all PostgresAuditStore ''payments'' ?jobs (sample_store empty_led_db) = (rs, st')" by force
  have "map (\<lambda>e. e = None) (fst (replay_all PostgresAuditStore ''payments'' ?jobs (sample_store empty_led_db))) = [True, False]"
    by code_simp
  then obtain r2 where rs: "rs = [None, Some r2]" unfolding run by auto
  have env: "\<forall>(env, _) \<in> set ?jobs. audit_env_ok sample_lib (rp_start env) \<and> audit_env_ok sample_lib (rp_finish env)"
    by (simp add: sample_command_def audit_env_ok_def sample_uuid_canonical)
  have ok: "replays_ok sample_lib (rp_store (sample_store empty_led_db))"
    by (simp add: replays_ok_def sample_store_def empty_led_db_def)
  have "''e'' \<in> set (replayed_events ?jobs rs)"
    by (simp add: rs replayed_events_def sample_failed_def dead_letter_of_def sample_headers)
  with replayed_at_most_once [OF env ok run] have "replay_status (rp_store st') ''e'' = Some ReplaySucceeded" by blast
  with run rs show ?thesis by blast
qed

end
