(* ===== verification/Delivery_Properties.thy ===== *)
theory Delivery_Properties
  imports Ledger_Progress Replay_Properties
begin

text \<open>
  What the consumer achieves in the end: an outage of the database that is shorter than the retries
  loses nothing.
\<close>

text \<open>
  C25. An outage is survived. When the database does not answer the first attempts on a well-formed payment.created
  message, fewer of them than are configured, and answers the next one, the message is recorded in the ledger after
  exactly that many retries, nothing is dead-lettered, and the message is committed.
\<close>

theorem outage_survived:
  assumes headers: "headerValue (km_Headers m) ''event_id'' = eid" "eid \<noteq> []"
      "headerValue (km_Headers m) ''event_type'' = PaymentCreatedEventName"
    and payload: "decode_payment_created L' (km_Value m) = Some pc"
    and outage: "\<forall>i < j. (\<forall>k. down (fst (env (1 + i)) k)) \<and> cancel (1 + i) = None" "int j < sint (cc_maxAttempts cfg)"
    and again: "movement_ready L (fst (env (1 + j))) eid PaymentCreatedEventName (movement_of pc)"
      "ids_fresh L (fst (env (1 + j))) (cs_ledger st)" "snd (env (1 + j)) = (\<lambda>s. s)"
    and inv: "led_inv L (cs_ledger st)" and canon: "\<forall>x u. pg_uuid L x = Some u \<longrightarrow> pg_uuid L u = Some u"
  shows "\<exists>st'. consume_turn L' postgres_port cfg (Fetched m env cancel dle None) st = (None, st')
    \<and> length (ro_waits (handleWithRetry L' postgres_port cfg env cancel m (cs_ledger st))) = j
    \<and> cs_committed st' = cs_committed st @ [m] \<and> cs_dead_letters st' = cs_dead_letters st
    \<and> event_recorded L (cs_ledger st') eid \<and> led_inv L (cs_ledger st')"
proof -
  let ?db = "cs_ledger st"
  have handle: "HandleMessage L' postgres_port c m db = (case RecordPaymentMovementOnce PostgresLedgerRepository (fst c) (snd c) eid
      PaymentCreatedEventName (movement_of pc) db of
        (Inl e, db') \<Rightarrow> (Some e, db', RecordKafkaConsume PaymentCreatedEventName (km_Topic m) (km_Partition m)
                   (km_HighWaterMark m - km_Offset m - 1) (Some e))
      | (Inr x, db') \<Rightarrow> (None, db', RecordKafkaConsume PaymentCreatedEventName (km_Topic m) (km_Partition m)
                   (km_HighWaterMark m - km_Offset m - 1) None))" for c db
    using headers payload
    by (auto simp: HandleMessage_def handlePaymentCreated_def postgres_port_def Let_def split: prod.split sum.split)
  obtain x db' where rec: "RecordPaymentMovementOnce PostgresLedgerRepository (fst (env (1 + j))) (\<lambda>s. s) eid PaymentCreatedEventName
      (movement_of pc) ?db = (Inr x, db')"
    using record_once_ok [OF again(1,2) _ canon] inv unfolding led_inv_def by blast
  have lib: "\<forall>i. lib.truncate (fst (env (1 + j)) i) = lib.truncate L" using again(1) by (simp add: movement_ready_def)
  have ok: "port_env_ok L (env (1 + j))" using lib canon again(3) by (simp add: port_env_ok_def)
  have "postgres_port (env (1 + j)) eid PaymentCreatedEventName (movement_of pc) ?db = (Inr x, db')"
    using rec again(3) by (simp add: postgres_port_def)
  note recorded = pg_port.port [OF ok inv this]
  have fails: "\<forall>i < j. (\<exists>e ms. HandleMessage L' postgres_port (env (1 + i)) m ?db = (Some e, ?db, ms) \<and> \<not> isPermanent e) \<and> cancel (1 + i) = None"
  proof (intro allI impI)
    fix i assume "i < j"
    with outage(1) have "\<forall>k. down (fst (env (1 + i)) k)" "cancel (1 + i) = None" by blast+
    moreover from this(1) obtain e where "RecordPaymentMovementOnce PostgresLedgerRepository (fst (env (1 + i))) (snd (env (1 + i))) eid
        PaymentCreatedEventName (movement_of pc) ?db = (Inl e, ?db)" "\<not> isPermanent e"
      using down_record by blast
    ultimately show "(\<exists>e ms. HandleMessage L' postgres_port (env (1 + i)) m ?db = (Some e, ?db, ms) \<and> \<not> isPermanent e) \<and> cancel (1 + i) = None"
      unfolding handle by simp
  qed
  have succeeds: "\<exists>ms. HandleMessage L' postgres_port (env (1 + j)) m ?db = (None, db', ms)"
    unfolding handle again(3) rec by simp
  then obtain ms where ms: "HandleMessage L' postgres_port (env (1 + j)) m ?db = (None, db', ms)" ..
  have left: "j < nat (sint (cc_maxAttempts cfg))" using outage(2) by linarith
  note r = retry_outage [OF fails ms left, of "cc_retryMaxBackoff cfg" "cc_retryInitialBackoff cfg"]
  have h: "ro_err (handleWithRetry L' postgres_port cfg env cancel m ?db) = None"
    "ro_state (handleWithRetry L' postgres_port cfg env cancel m ?db) = db'"
    "length (ro_waits (handleWithRetry L' postgres_port cfg env cancel m ?db)) = j"
    unfolding handleWithRetry_simps using r by simp_all
  show ?thesis using recorded by (simp add: consume_turn_def Let_def h commit_message_def)
qed

definition sample_down :: ctx where
  "sample_down = (sample_ctx [])\<lparr>cx_begin := Some (Fault ''refused''), cx_stmt := (\<lambda>_. Some (Fault ''refused''))\<rparr>"

text \<open>The first attempt fails, the second succeeds.\<close>

definition sample_outage :: "nat \<Rightarrow> (nat \<Rightarrow> ctx) \<times> (led_db \<Rightarrow> led_db)" where
  "sample_outage k = (if k = 1 then (\<lambda>_. sample_down, \<lambda>s. s) else (sample_ledger_ctx, \<lambda>s. s))"

theorem outage_survived_witness:
  "\<exists>st'. consume_turn sample_parser postgres_port sample_consumer (Fetched sample_message sample_outage (\<lambda>_. None) sample_dead_letters None)
      (no_state empty_led_db) = (None, st') \<and> event_recorded sample_lib (cs_ledger st') ''e''"
proof -
  obtain pc where pc: "decode_payment_created sample_parser (km_Value sample_message) = Some pc" "movement_of pc = sample_movement"
  proof -
    have "map_option movement_of (decode_payment_created sample_parser (km_Value sample_message)) = Some sample_movement" by code_simp
    then show thesis using that by auto
  qed
  have env2: "sample_outage (1 + 1) = (sample_ledger_ctx, \<lambda>s. s)" by (simp add: sample_outage_def)
  have nf: "no_faults (sample_ledger_ctx i)" for i by (simp add: sample_ledger_ctx_def no_faults_def)
  have texts: "trim_space ''e'' = ''e''" "trim_space PaymentCreatedEventName = PaymentCreatedEventName" "PaymentCreatedEventName \<noteq> []"
    "pg_text_ok PaymentCreatedEventName" "pg_text_ok (trim_space (mr_PaymentID sample_movement))"
    "validatePaymentMovement (sample_ledger_ctx 0) (normalize_movement (sample_ledger_ctx 0) sample_movement) = None"
    "pg_char3 (mr_Currency (normalize_movement (sample_ledger_ctx 0) sample_movement)) = Some ''USD''"
    by code_simp+
  have ready: "movement_ready sample_lib (fst (sample_outage (1 + 1))) ''e'' PaymentCreatedEventName (movement_of pc)"
    unfolding env2 pc(2) movement_ready_def fst_conv texts using nf sample_ledger_lib
    by (simp add: texts sample_lib_def)
  have fresh: "ids_fresh sample_lib (fst (sample_outage (1 + 1))) (cs_ledger (no_state empty_led_db))"
    unfolding env2 by (simp add: ids_fresh_def sample_ledger_ctx_def sample_lib_def no_state_def empty_led_db_def)
  have outage: "\<forall>i < 1. (\<forall>k. down (fst (sample_outage (1 + i)) k)) \<and> (\<lambda>_. None :: fault option) (1 + i) = None"
    "int 1 < sint (cc_maxAttempts sample_consumer)"
    by (simp_all add: sample_outage_def down_def sample_down_def sample_consumer_def)
  from outage_survived [OF sample_headers(1) _ sample_headers(2) pc(1) outage ready fresh _ _ sample_uuid_canonical, of sample_dead_letters]
    env2 show ?thesis by (auto simp: no_state_def)
qed

end
