(* ===== verification/End_To_End.thy ===== *)
theory End_To_End
  imports Payment_System Ledger_Consumer Dead_Letter_Replay
begin

text \<open>
  The two services together: payments are created and published, the ledger's consumer handles
  messages of the topic in any order and any number of times, and operators replay dead letters
  into the topic. The invariant relates the ledger's entries to the payments.
\<close>

section \<open>The flow\<close>

record flow =
  fl_pay :: pay_system
  fl_cons :: "led_db consumer_state"

definition initial_flow :: flow where
  "initial_flow = \<lparr>fl_pay = initial_system,
     fl_cons = \<lparr>cs_ledger = empty_led_db, cs_dead_letters = [], cs_committed = [], cs_metrics = []\<rparr>\<rparr>"

text \<open>What the broker delivers: a message of the topic, with a partition and an offset.\<close>

definition delivers :: "kafka_message list \<Rightarrow> kafka_message \<Rightarrow> bool" where
  "delivers log m \<longleftrightarrow> (\<exists>m' \<in> set log. km_Topic m = km_Topic m' \<and> km_Key m = km_Key m'
     \<and> km_Value m = km_Value m' \<and> km_Headers m = km_Headers m')"

inductive flow_step :: "lib \<Rightarrow> string \<Rightarrow> consumer_config \<Rightarrow> flow \<Rightarrow> flow \<Rightarrow> bool" for L topic cfg where
  payment: "pay_step L topic (fl_pay w) s' \<Longrightarrow> flow_step L topic cfg w (w\<lparr>fl_pay := s'\<rparr>)"
| consume: "\<lbrakk>delivers (ps_log (fl_pay w)) m;
      \<forall>k. (\<forall>i. lib.truncate (fst (env k) i :: ctx) = L) \<and> snd (env k) = (\<lambda>s. s);
      consume_turn L postgres_port cfg (Fetched m env cancel dle commit) (fl_cons w) = (e, c')\<rbrakk>
    \<Longrightarrow> flow_step L topic cfg w (w\<lparr>fl_cons := c'\<rparr>)"
| replay: "\<lbrakk>delivers (ps_log (fl_pay w)) m;
      lib.truncate (rp_start (env' :: ctx replay_env)) = L; lib.truncate (rp_finish env') = L;
      Replay PostgresAuditStore topic env' (dead_letter_of m cause n j) operator reason
        \<lparr>rp_store = cs_ledger (fl_cons w), rp_log = ps_log (fl_pay w)\<rparr> = (res, \<lparr>rp_store = db, rp_log = log\<rparr>)\<rbrakk>
    \<Longrightarrow> flow_step L topic cfg w
          (w\<lparr>fl_pay := (fl_pay w)\<lparr>ps_log := log\<rparr>, fl_cons := (fl_cons w)\<lparr>cs_ledger := db\<rparr>\<rparr>)"

abbreviation flow_steps :: "lib \<Rightarrow> string \<Rightarrow> consumer_config \<Rightarrow> flow \<Rightarrow> flow \<Rightarrow> bool" where
  "flow_steps L topic cfg \<equiv> (flow_step L topic cfg)\<^sup>*\<^sup>*"

section \<open>What replays leave alone\<close>

definition same_ledger :: "led_db \<Rightarrow> led_db \<Rightarrow> bool" where
  "same_ledger db db' \<longleftrightarrow> accounts db' = accounts db \<and> entries db' = entries db \<and> consumed db' = consumed db"

lemma claim_replay_ledger:
  "claim_replay cx ident src db = Inr (r, db') \<Longrightarrow> same_ledger db db'"
  by (auto simp: same_ledger_def claim_replay_def split: option.splits if_splits)

lemma finish_update_ledger:
  "finish_update cx ident ok f db = Inr (n, db') \<Longrightarrow> same_ledger db db'"
  by (auto simp: same_ledger_def finish_update_def split: option.splits if_splits)

lemma auto_tx_ledger:
  assumes "auto_tx cx r db = (res, db')" and "\<And>a d. r = Inr (a, d) \<Longrightarrow> same_ledger db d"
  shows "same_ledger db db'"
  using assms(1)
proof (cases rule: auto_tx_cases)
  case (installed a)
  with assms(2) show ?thesis by blast
qed (simp add: same_ledger_def)

lemma StartReplay_ledger:
  assumes "StartReplay cx src db = (res, db')"
  shows "same_ledger db db'"
proof -
  obtain r where "auto_tx cx (claim_replay cx (cx_uuid cx 0) src db) db = (r, db')"
    using assms by (auto simp: StartReplay_def split: prod.splits sum.splits option.splits)
  then show ?thesis by (rule auto_tx_ledger) (use claim_replay_ledger in blast)
qed

lemma FinishReplay_ledger:
  assumes "FinishReplay cx a ok f db = (res, db')"
  shows "same_ledger db db'"
proof -
  obtain r where "auto_tx cx (finish_update cx a ok f db) db = (r, db')"
    using assms by (auto simp: FinishReplay_def split: prod.splits sum.splits if_splits)
  then show ?thesis by (rule auto_tx_ledger) (use finish_update_ledger in blast)
qed

lemma same_ledger_trans: "same_ledger a b \<Longrightarrow> same_ledger b c \<Longrightarrow> same_ledger a c"
  by (simp add: same_ledger_def)

text \<open>A replay adds nothing to the topic, or the message again.\<close>

lemma write_message_cases:
  assumes "write_message w m log = (e, log')"
  shows "log' = log \<or> log' = log @ [m]"
  using assms by (auto simp: write_message_def split: write_outcome.splits)

lemma Replay_effect:
  assumes "Replay PostgresAuditStore topic env' r operator reason st = (res, st')"
  shows "same_ledger (rp_store st) (rp_store st')
    \<and> (rp_log st' = rp_log st \<or> (\<exists>a. dl_SourceTopic r = topic \<and> rp_log st' = rp_log st @ [replay_message topic (rp_now env') a r]))"
proof (cases "dl_SchemaVersion r \<noteq> DeadLetterSchemaVersion \<or> dl_EventID r = []
    \<or> dl_SourceTopic r \<noteq> topic \<or> operator = [] \<or> reason = []")
  case True
  with assms show ?thesis by (auto simp: Replay_def same_ledger_def split: if_splits)
next
  case False
  let ?src = "\<lparr>rs_EventID = dl_EventID r, rs_Operator = operator, rs_Reason = reason,
                rs_Topic = dl_SourceTopic r, rs_Partition = dl_SourcePartition r, rs_Offset = dl_SourceOffset r\<rparr>"
  obtain r1 s1 where one: "StartReplay (rp_start env') ?src (rp_store st) = (r1, s1)" by force
  note l1 = StartReplay_ledger [OF one]
  show ?thesis
  proof (cases r1)
    case (Inl e)
    with assms False one l1 show ?thesis by (auto simp: Replay_def)
  next
    case (Inr a)
    let ?m = "replay_message topic (rp_now env') a r"
    obtain w log where w: "write_message (rp_write env' ?m) ?m (rp_log st) = (w, log)" by force
    define ok where "ok = (w = None)"
    define f where "f = (case w of None \<Rightarrow> [] | Some e \<Rightarrow> err_text e)"
    obtain r2 s2 where two: "FinishReplay (rp_finish env') a ok f s1 = (r2, s2)" by force
    have "rp_store st' = s2" "rp_log st' = log"
      using assms False one Inr w two
      by (auto simp: Replay_def Let_def ok_def f_def split: option.splits if_splits prod.splits)
    with same_ledger_trans [OF l1 FinishReplay_ledger [OF two]] write_message_cases [OF w] False show ?thesis by auto
  qed
qed

text \<open>What a replayed message keeps of the headers.\<close>

lemma headerValue_absent: "key \<notin> set (map fst hs) \<Longrightarrow> headerValue hs key = []"
  by (induction hs) auto

lemma replay_headers:
  assumes "k \<noteq> ''replayed_at''" and "k \<noteq> ''replay_audit_id''"
  shows "headerValue (km_Headers (replay_message topic now a (dead_letter_of m cause n j))) k = headerValue (km_Headers m) k"
  using assms by (auto simp: replay_message_def dead_letter_of_def headerValue_append headerValue_absent)

lemma replay_carries:
  assumes "carries topic e m" and "dl_SourceTopic (dead_letter_of m cause n j) = topic"
  shows "carries topic e (replay_message topic now a (dead_letter_of m cause n j))"
  using assms unfolding carries_def
  by (simp add: replay_headers) (simp add: replay_message_def dead_letter_of_def)

section \<open>The payment side\<close>

text \<open>
  The server's form of a UUID: ASCII, without blanks around it, and read back as itself.
\<close>

definition uuid_text :: "lib \<Rightarrow> bool" where
  "uuid_text L \<longleftrightarrow> (\<forall>x u. pg_uuid L x = Some u \<longrightarrow> pg_uuid L u = Some u \<and> is_ascii u \<and> trim_space u = u)"

lemma uuid_text_canonical: "uuid_text L \<Longrightarrow> uuid_canonical L"
  by (auto simp: uuid_text_def uuid_canonical_def)

definition payments_canonical :: "lib \<Rightarrow> pay_db \<Rightarrow> bool" where
  "payments_canonical L db \<longleftrightarrow> (\<forall>r \<in> set (payments db). pg_uuid L (pr_id r) = Some (pr_id r))"

text \<open>Every message of the topic carries an outbox row.\<close>

definition log_carries :: "string \<Rightarrow> pay_system \<Rightarrow> bool" where
  "log_carries topic s \<longleftrightarrow> (\<forall>m \<in> set (ps_log s). \<exists>e \<in> set (outbox (ps_db s)). carries topic (row_event e) m)"

definition outbox_grows :: "pay_db \<Rightarrow> pay_db \<Rightarrow> bool" where
  "outbox_grows db db' \<longleftrightarrow> row_content ` set (outbox db) \<subseteq> row_content ` set (outbox db')"

lemma outbox_grows_same: "map row_content (outbox db') = map row_content (outbox db) \<Longrightarrow> outbox_grows db db'"
  unfolding outbox_grows_def by (metis list.set_map order_refl)

lemma carries_row_content:
  "row_content e = row_content e' \<Longrightarrow> carries topic (row_event e) m = carries topic (row_event e') m"
  by (rule carries_content) simp

lemma outbox_growsE:
  assumes "outbox_grows db db'" and "e \<in> set (outbox db)"
  obtains e' where "e' \<in> set (outbox db')" and "row_content e' = row_content e"
proof -
  have "row_content e \<in> row_content ` set (outbox db')" using assms unfolding outbox_grows_def by blast
  then show thesis using that by (metis imageE)
qed

lemma log_carries_grows:
  assumes "log_carries topic s" and "outbox_grows (ps_db s) (ps_db s')"
    and "\<And>m. m \<in> set (ps_log s') \<Longrightarrow> m \<in> set (ps_log s) \<or> (\<exists>e \<in> set (outbox (ps_db s')). carries topic (row_event e) m)"
  shows "log_carries topic s'"
  unfolding log_carries_def
proof
  fix m assume "m \<in> set (ps_log s')"
  from assms(3) [OF this] show "\<exists>e \<in> set (outbox (ps_db s')). carries topic (row_event e) m"
  proof
    assume "m \<in> set (ps_log s)"
    with assms(1) obtain e where e: "e \<in> set (outbox (ps_db s))" "carries topic (row_event e) m" by (auto simp: log_carries_def)
    obtain e' where "e' \<in> set (outbox (ps_db s'))" "row_content e' = row_content e" by (rule outbox_growsE [OF assms(2) e(1)])
    with e(2) carries_row_content show ?thesis by metis
  qed
qed

lemma pay_step_flow:
  assumes step: "pay_step L topic s s'" and inv: "sys_inv L topic s" and canon: "uuid_canonical L"
    and pc: "payments_canonical L (ps_db s)" and log: "log_carries topic s"
  shows "payments_canonical L (ps_db s') \<and> log_carries topic s' \<and> outbox_grows (ps_db s) (ps_db s')"
  using step
proof cases
  case (create cx request ikey res db)
  from create(3) show ?thesis
  proof (cases rule: service_create_effect)
    case unchanged
    with create pc log show ?thesis by (simp add: outbox_grows_def log_carries_def)
  next
    case (created p r e)
    have pay: "payments db = payments (ps_db s) @ [r]" "outbox db = outbox (ps_db s) @ [e]"
      "pg_uuid cx (p_ID p) = Some (pr_id r)"
      using created(2) by (auto simp: appends_def dest: payment_values_Inr)
    then have "pg_uuid L (pr_id r) = Some (pr_id r)"
      using canon lib_eq(4) [of cx L] create(2) by (auto simp: uuid_canonical_def)
    with pay pc log create(1) show ?thesis
      by (auto simp: payments_canonical_def outbox_grows_def log_carries_def)
  qed
next
  case (update cx pid prev new res db)
  from update(4) show ?thesis
  proof (cases rule: service_update_effect)
    case unchanged
    with update pc log show ?thesis by (simp add: outbox_grows_def log_carries_def)
  next
    case (moved r e)
    have "pr_id ` set (payments db) \<subseteq> pr_id ` set (payments (ps_db s))" "outbox db = outbox (ps_db s) @ [e]"
      using moved by (auto simp: moves_def set_sql_update)
    with pc log update(1) show ?thesis
      by (auto simp: payments_canonical_def outbox_grows_def log_carries_def)
  qed
next
  case (claim cx n res db)
  note eff = claim_effect [OF claim(3)]
  have "outbox_grows (ps_db s) (ps_db s')" using claim(1) outbox_grows_same [OF eff(2)] by simp
  moreover from log_carries_grows [OF log this] claim(1) have "log_carries topic s'" by simp
  ultimately show ?thesis using claim(1) eff(1) pc by (simp add: payments_canonical_def)
next
  case (publish env e db log' ms)
  let ?st = "\<lparr>pub_store = ps_db s, pub_log = ps_log s, pub_metrics = []\<rparr>"
  note eff = publish_step_effect [of topic env e ?st, unfolded publish(4), simplified]
  have grow: "outbox_grows (ps_db s) (ps_db s')" using publish(1) outbox_grows_same [OF eff(2)] by simp
  have here: "content e \<in> row_content ` set (outbox (ps_db s))" using publish(3) inv by (auto simp: sys_inv_def)
  then have "content e \<in> row_content ` set (outbox (ps_db s'))" using grow unfolding outbox_grows_def by blast
  then obtain x where x: "x \<in> set (outbox (ps_db s'))" "content e = row_content x" by (metis imageE)
  have "log' = snd (env_write topic env e (ps_log s))"
    using arg_cong [OF publish(4), of pub_log] by simp
  then have "m \<in> set log' \<Longrightarrow> m \<in> set (ps_log s) \<or> m = env_message topic env e" for m
    by (auto simp: write_message_def split: write_outcome.splits)
  moreover have "carries topic (row_event x) (env_message topic env e)"
    using carries_content [of e "row_event x" topic "env_message topic env e"] x(2) by simp
  ultimately have "log_carries topic s'"
    by (intro log_carries_grows [OF log grow]) (use publish(1) x(1) in auto)
  with grow publish(1) eff(1) pc show ?thesis by (simp add: payments_canonical_def)
qed (use pc log in \<open>simp_all add: outbox_grows_def log_carries_def\<close>)

section \<open>The ledger side\<close>

text \<open>A message changes the ledger only through \<open>HandleMessage\<close>.\<close>

lemma retry_loop_keeps:
  assumes "\<And>k s. P s \<Longrightarrow> P (fst (snd (HandleMessage L port (env k) m s)))" and "P s"
  shows "P (ro_state (retry_loop L port env cancel mb m attempt left b s))"
  using assms(2)
proof (induction left arbitrary: attempt b s)
  case (Suc left)
  obtain e s' ms where h: "HandleMessage L port (env attempt) m s = (e, s', ms)" by (cases "HandleMessage L port (env attempt) m s")
  with assms(1) [OF Suc.prems, of attempt] have "P s'" by simp
  with Suc.IH [of s' "attempt + 1" "next_backoff mb b"] h show ?case by (auto simp: Let_def split: option.splits)
qed simp

lemma consume_turn_keeps:
  assumes "\<And>k s. P s \<Longrightarrow> P (fst (snd (HandleMessage L port (env k) m s)))" and "P (cs_ledger c)"
    and "consume_turn L port cfg (Fetched m env cancel dle commit) c = (e, c')"
  shows "P (cs_ledger c')"
proof -
  have commit: "commit_message f m st = (e', st') \<Longrightarrow> cs_ledger st' = cs_ledger st" for f st e' st'
    by (auto simp: commit_message_def split: option.splits)
  have "cs_ledger c' = ro_state (handleWithRetry L port cfg env cancel m (cs_ledger c))"
    using assms(3)
    by (auto simp: consume_turn_def Let_def split: option.splits if_splits prod.splits dest!: commit)
  then show ?thesis unfolding handleWithRetry_simps using retry_loop_keeps [of P, OF assms(1,2)] by simp
qed

text \<open>
  Every consumed event is the creation of the payment it was consumed for, and every entry
  stands for a payment, with its amount.
\<close>

definition entries_match :: "pay_db \<Rightarrow> led_db \<Rightarrow> bool" where
  "entries_match pdb db \<longleftrightarrow>
     (\<forall>(u, p) \<in> set (seen_events db). \<exists>e \<in> set (outbox pdb). ob_id e = u \<and> ob_event_type e = PaymentCreatedEvent \<and> ob_aggregate_id e = p)
   \<and> (\<forall>en \<in> set (entries db). \<exists>r \<in> set (payments pdb). en_ReferenceID en = pr_id r \<and> en_AmountCents en = pr_amount_cents r)"

text \<open>
  JSON and JSONB keep the integer and the ASCII text that the consumer reads back.
\<close>

definition payload_decodes :: "lib \<Rightarrow> bool" where
  "payload_decodes L \<longleftrightarrow> (\<forall>p t v pc. is_ascii (p_ID p) \<and> pg_jsonb L (json_text L (payment_created_payload p t)) = Some v
     \<and> decode_payment_created L v = Some pc \<longrightarrow> pc_PaymentID pc = p_ID p \<and> pc_AmountCents pc = p_AmountCents p)"

lemma created_names: "PaymentCreatedEventName = PaymentCreatedEvent"
  by (simp add: PaymentCreatedEventName_def PaymentCreatedEvent_def)

lemma entries_match_append:
  assumes "entries_match pdb db" and "seen_events db' = seen_events db @ [(u, p)]" and "entries db' = entries db @ [d, k]"
    and "e \<in> set (outbox pdb)" "ob_id e = u" "ob_event_type e = PaymentCreatedEvent" "ob_aggregate_id e = p"
    and "r \<in> set (payments pdb)" "pr_id r = p" "en_ReferenceID d = p" "en_ReferenceID k = p"
    and "en_AmountCents d = pr_amount_cents r" "en_AmountCents k = pr_amount_cents r"
  shows "entries_match pdb db'"
proof -
  have "\<exists>x \<in> set (payments pdb). en_ReferenceID d = pr_id x \<and> en_AmountCents d = pr_amount_cents x"
    "\<exists>x \<in> set (payments pdb). en_ReferenceID k = pr_id x \<and> en_AmountCents k = pr_amount_cents x"
    by (intro bexI [of _ r]; use assms(8-) in simp)+
  moreover have "\<exists>x \<in> set (outbox pdb). ob_id x = u \<and> ob_event_type x = PaymentCreatedEvent \<and> ob_aggregate_id x = p"
    using assms(4-7) by blast
  ultimately show ?thesis using assms(1) unfolding entries_match_def assms(2,3) by auto
qed

lemma created_movement:
  assumes pay: "pay_inv L pdb" "payments_canonical L pdb" and uuids: "uuid_text L" and json: "payload_decodes L"
    and e: "e \<in> set (outbox pdb)" "ob_event_type e = PaymentCreatedEvent"
    and dec: "decode_payment_created L (ob_payload e) = Some pc"
  obtains r where "r \<in> set (payments pdb)" "pr_id r = ob_aggregate_id e" "pc_AmountCents pc = pr_amount_cents r"
    "trim_space (pc_PaymentID pc) = ob_aggregate_id e"
proof -
  obtain r where r: "r \<in> set (payments pdb)" "pr_id r = ob_aggregate_id e" using pay(1) e(1) by (auto simp: pay_inv_def)
  have ev: "e \<in> set (events_of PaymentCreatedEvent (pr_id r) pdb)" using e r(2) by (simp add: events_of_def)
  with pay(1) r(1) have "created_row_event L r e" by (auto simp: pay_inv_def row_inv_def)
  then obtain p t where p: "p_ID p = pr_id r" "p_AmountCents p = pr_amount_cents r"
    "pg_jsonb L (json_text L (payment_created_payload p t)) = Some (ob_payload e)"
    by (auto simp: created_row_event_def)
  have id: "is_ascii (pr_id r)" "trim_space (pr_id r) = pr_id r"
    using pay(2) r(1) uuids unfolding payments_canonical_def uuid_text_def by blast+
  with json p dec have "pc_PaymentID pc = p_ID p" "pc_AmountCents pc = p_AmountCents p"
    unfolding payload_decodes_def by metis+
  with p id r that show thesis by simp
qed

text \<open>
  What the handling of the message of the outbox row \<open>e\<close> does to the ledger: nothing, or the double entry
  of its payment.
\<close>

definition ledger_delta :: "pay_db \<Rightarrow> outbox_row \<Rightarrow> led_db \<Rightarrow> led_db \<Rightarrow> bool" where
  "ledger_delta pdb e db db' \<longleftrightarrow>
     (entries db' = entries db \<and> seen_events db' = seen_events db)
   \<or> (ob_event_type e = PaymentCreatedEvent \<and> ob_id e \<notin> fst ` set (seen_events db)
        \<and> seen_events db' = seen_events db @ [(ob_id e, ob_aggregate_id e)]
        \<and> (\<exists>r \<in> set (payments pdb). \<exists>d k. pr_id r = ob_aggregate_id e \<and> entries db' = entries db @ [d, k]
             \<and> double_entry (accounts db') (pr_amount_cents r) (ob_aggregate_id e) d k))"

lemma ledger_delta_refl [simp]: "ledger_delta pdb e db db"
  by (simp add: ledger_delta_def)

lemma delta_matches:
  assumes delta: "ledger_delta pdb e db db'" and e: "e \<in> set (outbox pdb)" and match: "entries_match pdb db"
  shows "entries_match pdb db'"
  using delta unfolding ledger_delta_def
proof (elim disjE conjE bexE exE)
  assume "entries db' = entries db" and "seen_events db' = seen_events db"
  with match show ?thesis by (simp add: entries_match_def)
next
  fix r d k
  assume et: "ob_event_type e = PaymentCreatedEvent" and seen: "seen_events db' = seen_events db @ [(ob_id e, ob_aggregate_id e)]"
    and r: "r \<in> set (payments pdb)" "pr_id r = ob_aggregate_id e" and ents: "entries db' = entries db @ [d, k]"
    and de: "double_entry (accounts db') (pr_amount_cents r) (ob_aggregate_id e) d k"
  from de show ?thesis
    by (intro entries_match_append [OF match seen ents e refl et refl r]) (simp_all add: double_entry_def)
qed

lemma delivery_delta:
  assumes del: "delivery L (ob_id e) (movement_of pc) db res db'"
    and pay: "pay_inv L pdb" "outbox_canonical L pdb" "payments_canonical L pdb"
    and uuids: "uuid_text L" and json: "payload_decodes L"
    and e: "e \<in> set (outbox pdb)" "ob_event_type e = PaymentCreatedEvent"
    and dec: "decode_payment_created L (ob_payload e) = Some pc"
  shows "ledger_delta pdb e db db'"
proof -
  have key: "pg_uuid L (trim_space (ob_id e)) = Some (ob_id e)"
    using pay(2) e(1) uuids unfolding outbox_canonical_def uuid_text_def by metis
  have pid: "mr_PaymentID (movement_of pc) = pc_PaymentID pc" "mr_AmountCents (movement_of pc) = pc_AmountCents pc"
    by (simp_all add: movement_of_def)
  from del consider (same) "entries db' = entries db" "seen_events db' = seen_events db"
    | (new) d k where "ob_id e \<notin> fst ` set (seen_events db)"
      "seen_events db' = seen_events db @ [(ob_id e, trim_space (pc_PaymentID pc))]" "entries db' = entries db @ [d, k]"
      "double_entry (accounts db') (pc_AmountCents pc) (trim_space (pc_PaymentID pc)) d k"
    unfolding delivery_def key pid by fastforce
  then show ?thesis
  proof cases
    case same
    then show ?thesis by (simp add: ledger_delta_def)
  next
    case new
    from pay(1,3) uuids json e dec show ?thesis
    proof (rule created_movement)
      fix r
      assume r: "r \<in> set (payments pdb)" "pr_id r = ob_aggregate_id e" "pc_AmountCents pc = pr_amount_cents r"
        "trim_space (pc_PaymentID pc) = ob_aggregate_id e"
      with new e(2) show "ledger_delta pdb e db db'" unfolding ledger_delta_def by auto
    qed
  qed
qed

lemma record_delta:
  assumes run: "RecordPaymentMovementOnce PostgresLedgerRepository cx (\<lambda>s. s) (ob_id e) et (movement_of pc) db = (res, db')"
    and lib: "\<forall>i. lib.truncate (cx i) = lib.truncate L"
    and pay: "pay_inv L pdb" "outbox_canonical L pdb" "payments_canonical L pdb"
    and uuids: "uuid_text L" and json: "payload_decodes L"
    and e: "e \<in> set (outbox pdb)" "ob_event_type e = PaymentCreatedEvent"
    and dec: "decode_payment_created L (ob_payload e) = Some pc"
    and inv: "led_inv L db"
  shows "led_inv L db' \<and> ledger_delta pdb e db db'"
proof -
  have canon: "\<forall>x u. pg_uuid L x = Some u \<longrightarrow> pg_uuid L u = Some u" using uuids by (simp add: uuid_text_def)
  from run inv harmless_id(1) lib canon have "ledger_delta pdb e db db'"
  proof (cases rule: record_once_steps)
    case (stopped er)
    then show ?thesis by (simp add: ledger_delta_def)
  next
    case (wrote s1)
    from delivery_delta [OF wrote(4) pay uuids json e dec] wrote(2,3) show ?thesis by (simp add: ledger_delta_def)
  qed
  with record_once_inv [OF run inv harmless_id(1) lib canon] show ?thesis by simp
qed

lemma handle_delta:
  assumes carry: "carries topic (row_event e) m" and e: "e \<in> set (outbox pdb)"
    and env: "\<forall>i. lib.truncate (fst c i) = lib.truncate L" "snd c = (\<lambda>s. s)"
    and pay: "pay_inv L pdb" "outbox_canonical L pdb" "payments_canonical L pdb"
    and uuids: "uuid_text L" and json: "payload_decodes L"
    and inv: "led_inv L db" and run: "db' = fst (snd (HandleMessage L postgres_port c m db))"
  shows "led_inv L db' \<and> ledger_delta pdb e db db'"
proof -
  have h: "headerValue (km_Headers m) ''event_id'' = ob_id e" "headerValue (km_Headers m) ''event_type'' = ob_event_type e"
    "km_Value m = ob_payload e"
    using carry by (simp_all add: carries_def row_event_def)
  have "led_inv L s \<and> ledger_delta pdb e db s"
    if hp: "handlePaymentCreated L postgres_port c (ob_id e) (ob_event_type e) (ob_payload e) db = (er, s)"
      and et: "ob_event_type e = PaymentCreatedEventName" for er s
  proof (cases "decode_payment_created L (ob_payload e)")
    case None
    with hp inv show ?thesis by (simp add: handlePaymentCreated_def)
  next
    case (Some pc)
    obtain r where "RecordPaymentMovementOnce PostgresLedgerRepository (fst c) (\<lambda>s. s) (ob_id e) (ob_event_type e) (movement_of pc) db = (r, s)"
      using hp Some env(2) by (auto simp: handlePaymentCreated_def postgres_port_def split: prod.splits sum.splits)
    from record_delta [OF this env(1) pay uuids json e et [unfolded created_names] Some inv] show ?thesis .
  qed
  with inv h run show ?thesis by (auto simp: HandleMessage_def Let_def split: prod.split)
qed

lemma handle_matches:
  assumes carry: "carries topic (row_event e) m" and e: "e \<in> set (outbox pdb)"
    and env: "\<forall>i. lib.truncate (fst c i) = lib.truncate L" "snd c = (\<lambda>s. s)"
    and pay: "pay_inv L pdb" "outbox_canonical L pdb" "payments_canonical L pdb"
    and uuids: "uuid_text L" and json: "payload_decodes L"
    and inv: "led_inv L db \<and> entries_match pdb db"
  shows "led_inv L (fst (snd (HandleMessage L postgres_port c m db))) \<and> entries_match pdb (fst (snd (HandleMessage L postgres_port c m db)))"
  using handle_delta [OF carry e env pay uuids json _ refl] delta_matches [OF _ e] inv by blast

section \<open>The invariant of the flow\<close>

definition flow_inv :: "lib \<Rightarrow> string \<Rightarrow> flow \<Rightarrow> bool" where
  "flow_inv L topic w \<longleftrightarrow>
     sys_inv L topic (fl_pay w) \<and> payments_canonical L (ps_db (fl_pay w)) \<and> log_carries topic (fl_pay w)
     \<and> led_inv L (cs_ledger (fl_cons w)) \<and> entries_match (ps_db (fl_pay w)) (cs_ledger (fl_cons w))"

lemma flow_inv_initial: "flow_inv L topic initial_flow"
  using sys_inv_initial [of L topic]
  by (simp add: flow_inv_def initial_flow_def payments_canonical_def log_carries_def entries_match_def
      initial_system_def empty_pay_db_def empty_led_db_def seen_events_def)
     (simp add: led_inv_empty [unfolded empty_led_db_def])

lemma entries_match_grows:
  assumes "entries_match pdb db" and "outbox_grows pdb pdb'" and "all_kept pdb pdb'"
  shows "entries_match pdb' db"
proof -
  have out: "\<exists>e \<in> set (outbox pdb'). ob_id e = u \<and> ob_event_type e = t \<and> ob_aggregate_id e = a"
    if "\<exists>e \<in> set (outbox pdb). ob_id e = u \<and> ob_event_type e = t \<and> ob_aggregate_id e = a" for u t a
  proof -
    from that obtain e where e: "e \<in> set (outbox pdb)" "ob_id e = u" "ob_event_type e = t" "ob_aggregate_id e = a" by blast
    obtain e' where "e' \<in> set (outbox pdb')" "row_content e' = row_content e" by (rule outbox_growsE [OF assms(2) e(1)])
    with e show ?thesis by (auto simp: row_content_def)
  qed
  have pay: "\<exists>r \<in> set (payments pdb'). i = pr_id r \<and> a = pr_amount_cents r"
    if "\<exists>r \<in> set (payments pdb). i = pr_id r \<and> a = pr_amount_cents r" for i a
  proof -
    from that obtain r where r: "r \<in> set (payments pdb)" "i = pr_id r" "a = pr_amount_cents r" by blast
    with assms(3) obtain r' where "r' \<in> set (payments pdb')" "kept r r'" unfolding all_kept_def by blast
    with r kept_simps(1,2) [of r r'] show ?thesis by (intro bexI [of _ r']) auto
  qed
  show ?thesis unfolding entries_match_def
  proof (intro conjI ballI)
    fix x assume x: "x \<in> set (seen_events db)"
    obtain u q where uq: "x = (u, q)" by force
    with x assms(1) have "\<exists>e \<in> set (outbox pdb). ob_id e = u \<and> ob_event_type e = PaymentCreatedEvent \<and> ob_aggregate_id e = q"
      by (auto simp: entries_match_def)
    from out [OF this] show "case x of (u, q) \<Rightarrow> \<exists>e \<in> set (outbox pdb'). ob_id e = u \<and> ob_event_type e = PaymentCreatedEvent \<and> ob_aggregate_id e = q"
      by (simp add: uq)
  next
    fix en assume "en \<in> set (entries db)"
    with assms(1) have "\<exists>r \<in> set (payments pdb). en_ReferenceID en = pr_id r \<and> en_AmountCents en = pr_amount_cents r"
      by (simp add: entries_match_def)
    from pay [OF this] show "\<exists>r \<in> set (payments pdb'). en_ReferenceID en = pr_id r \<and> en_AmountCents en = pr_amount_cents r" .
  qed
qed

lemma flow_inv_step:
  assumes step: "flow_step L topic cfg w w'" and inv: "flow_inv L topic w"
    and uuids: "uuid_text L" and json: "payload_decodes L"
  shows "flow_inv L topic w'"
proof -
  note canon = uuid_text_canonical [OF uuids]
  have sys: "sys_inv L topic (fl_pay w)" "payments_canonical L (ps_db (fl_pay w))" "log_carries topic (fl_pay w)"
    and led: "led_inv L (cs_ledger (fl_cons w))" "entries_match (ps_db (fl_pay w)) (cs_ledger (fl_cons w))"
    using inv by (simp_all add: flow_inv_def)
  have pay: "pay_inv L (ps_db (fl_pay w))" "outbox_canonical L (ps_db (fl_pay w))" using sys(1) by (simp_all add: sys_inv_def)
  have source: "\<exists>e \<in> set (outbox (ps_db (fl_pay w))). carries topic (row_event e) m" if "delivers (ps_log (fl_pay w)) m" for m
    using that sys(3) unfolding delivers_def log_carries_def carries_def by metis
  from step show ?thesis
  proof cases
    case (payment s')
    from pay_step_flow [OF payment(2) sys(1) canon sys(2,3)] sys_inv_step [OF payment(2) sys(1) canon]
      pay_step_kept [OF payment(2) sys(1)] led entries_match_grows [OF led(2)] payment(1)
    show ?thesis by (simp add: flow_inv_def)
  next
    case (consume m env cancel dle commit e c')
    obtain ev where ev: "ev \<in> set (outbox (ps_db (fl_pay w)))" "carries topic (row_event ev) m" using source [OF consume(2)] by blast
    let ?P = "\<lambda>db. led_inv L db \<and> entries_match (ps_db (fl_pay w)) db"
    have "?P (fst (snd (HandleMessage L postgres_port (env k) m db)))" if "?P db" for k db
      by (rule handle_matches [OF ev(2,1) _ _ pay sys(2) uuids json that]) (use consume(3) in simp_all)
    then have "?P (cs_ledger c')"
      using consume_turn_keeps [of ?P L postgres_port env m "fl_cons w", OF _ _ consume(4)] led by blast
    with consume(1) sys show ?thesis by (simp add: flow_inv_def)
  next
    case (replay m env' cause n j operator reason res db log)
    note eff = Replay_effect [OF replay(5)]
    have same: "same_ledger (cs_ledger (fl_cons w)) db" using eff by simp
    have grow: "set (ps_log (fl_pay w)) \<subseteq> set log" using eff by auto
    have "\<exists>e \<in> set (outbox (ps_db (fl_pay w))). carries topic (row_event e) x" if "x \<in> set log" for x
    proof (cases "x \<in> set (ps_log (fl_pay w))")
      case True
      with sys(3) show ?thesis by (simp add: log_carries_def)
    next
      case False
      with eff that obtain a where "x = replay_message topic (rp_now env') a (dead_letter_of m cause n j)"
        "dl_SourceTopic (dead_letter_of m cause n j) = topic" by auto
      with source [OF replay(2)] replay_carries show ?thesis by blast
    qed
    then have "log_carries topic ((fl_pay w)\<lparr>ps_log := log\<rparr>)" by (simp add: log_carries_def)
    moreover have "sys_inv L topic ((fl_pay w)\<lparr>ps_log := log\<rparr>)"
      using sys(1) grow published_in_mono by (auto simp: sys_inv_def)
    moreover have "led_inv L db" "entries_match (ps_db (fl_pay w)) db"
      using led same by (simp_all add: led_inv_def entries_match_def same_ledger_def seen_events_def)
    ultimately show ?thesis using replay(1) sys(2) by (simp add: flow_inv_def)
  qed
qed

lemma flow_inv_steps:
  "flow_steps L topic cfg w w' \<Longrightarrow> flow_inv L topic w \<Longrightarrow> uuid_text L \<Longrightarrow> payload_decodes L \<Longrightarrow> flow_inv L topic w'"
  by (induction rule: rtranclp_induct) (auto intro: flow_inv_step)

section \<open>One double entry per payment\<close>

definition creation_recorded :: "pay_db \<Rightarrow> led_db \<Rightarrow> string \<Rightarrow> bool" where
  "creation_recorded pdb db pid \<longleftrightarrow> (\<exists>e \<in> set (outbox pdb). ob_event_type e = PaymentCreatedEvent
     \<and> ob_aggregate_id e = pid \<and> ob_id e \<in> set (map ce_event_id (consumed db)))"

lemma seen_count:
  assumes pay: "pay_inv L pdb" and led: "led_inv L db" and match: "entries_match pdb db" and r: "r \<in> set (payments pdb)"
  shows "length (filter (\<lambda>(_, q). q = pr_id r) (seen_events db)) = (if creation_recorded pdb db (pr_id r) then 1 else 0)"
proof -
  have "length (events_of PaymentCreatedEvent (pr_id r) pdb) = 1" using pay r by (auto simp: pay_inv_def row_inv_def)
  then obtain e where e: "events_of PaymentCreatedEvent (pr_id r) pdb = [e]" by (auto simp: length_Suc_conv)
  have only: "x \<in> set (outbox pdb) \<and> ob_event_type x = PaymentCreatedEvent \<and> ob_aggregate_id x = pr_id r \<longleftrightarrow> x = e" for x
  proof -
    have "x \<in> set (events_of PaymentCreatedEvent (pr_id r) pdb) \<longleftrightarrow> x = e" by (simp add: e)
    then show ?thesis by (simp add: events_of_def)
  qed
  let ?F = "filter (\<lambda>(_, q). q = pr_id r) (seen_events db)"
  have keys: "distinct (map fst (seen_events db))" using led by (simp add: led_inv_def)
  have mem: "x \<in> set ?F \<Longrightarrow> x = (ob_id e, pr_id r)" for x
    using match only unfolding entries_match_def by fastforce
  have dist: "distinct ?F" using keys by (simp add: distinct_map)
  have len: "length ?F = card (set ?F)" using distinct_card [OF dist] by simp
  show ?thesis
  proof (cases "(ob_id e, pr_id r) \<in> set (seen_events db)")
    case True
    then have "set ?F = {(ob_id e, pr_id r)}" using mem by auto
    moreover have "creation_recorded pdb db (pr_id r)"
      unfolding creation_recorded_def using True only [of e] by (intro bexI [of _ e]) (auto simp: seen_events_def)
    ultimately show ?thesis using len by simp
  next
    case False
    have none: "x \<notin> set ?F" for x
    proof
      assume x: "x \<in> set ?F"
      then have "x \<in> set (seen_events db)" by simp
      with mem [OF x] False show False by simp
    qed
    have "set ?F = {}" by (rule equals0I) (rule notE [OF none])
    moreover have "\<not> creation_recorded pdb db (pr_id r)"
    proof
      assume "creation_recorded pdb db (pr_id r)"
      then obtain e0 where e0: "e0 \<in> set (outbox pdb)" "ob_event_type e0 = PaymentCreatedEvent" "ob_aggregate_id e0 = pr_id r"
        "ob_id e0 \<in> set (map ce_event_id (consumed db))" unfolding creation_recorded_def by blast
      with only [of e0] have "ob_id e \<in> fst ` set (seen_events db)" unfolding fst_seen_events by simp
      then obtain q where q: "(ob_id e, q) \<in> set (seen_events db)" by force
      with match obtain e' where e': "e' \<in> set (outbox pdb)" "ob_id e' = ob_id e" "ob_aggregate_id e' = q"
        unfolding entries_match_def by fastforce
      have "e' = e" using e'(1,2) only [of e] pay by (auto simp: pay_inv_def distinct_map inj_on_def)
      with e' only [of e] q False show False by simp
    qed
    ultimately show ?thesis using len by simp
  qed
qed

lemma one_double_entry:
  assumes inv: "flow_inv L topic w" and r: "r \<in> set (payments (ps_db (fl_pay w)))" and d: "d \<in> {DirectionDebit, DirectionCredit}"
  shows "length (entries_for d (pr_id r) (entries (cs_ledger (fl_cons w))))
      = (if creation_recorded (ps_db (fl_pay w)) (cs_ledger (fl_cons w)) (pr_id r) then 1 else 0)
    \<and> (\<forall>x \<in> set (entries_for d (pr_id r) (entries (cs_ledger (fl_cons w)))). en_AmountCents x = pr_amount_cents r)"
proof -
  have pay: "pay_inv L (ps_db (fl_pay w))" and led: "led_inv L (cs_ledger (fl_cons w))"
    and match: "entries_match (ps_db (fl_pay w)) (cs_ledger (fl_cons w))" using inv by (simp_all add: flow_inv_def sys_inv_def)
  have "en_AmountCents x = pr_amount_cents r" if "x \<in> set (entries (cs_ledger (fl_cons w)))" "en_ReferenceID x = pr_id r" for x
  proof -
    from match that obtain r' where r': "r' \<in> set (payments (ps_db (fl_pay w)))" "pr_id r = pr_id r'" "en_AmountCents x = pr_amount_cents r'"
      unfolding entries_match_def by metis
    with pay r have "r' = r" by (auto simp: pay_inv_def distinct_map inj_on_def)
    with r' show ?thesis by simp
  qed
  moreover have "length (entries_for d (pr_id r) (entries (cs_ledger (fl_cons w))))
      = length (filter (\<lambda>(_, q). q = pr_id r) (seen_events (cs_ledger (fl_cons w))))"
    using led d by (auto simp: led_inv_def once_each_def)
  ultimately show ?thesis unfolding seen_count [OF pay led match r] by (auto simp: entries_for_def)
qed

end
