(* ===== verification/Books.thy ===== *)
theory Books
  imports End_To_End
begin

text \<open>
  What the two services promise together, as an abstract machine: a set of payments with their
  terms and status, and the payments that are booked. The tables of both services refine it.
\<close>

section \<open>The abstract machine\<close>

type_synonym terms = "i64 \<times> string \<times> payment_status"

record books =
  bk_payments :: "string \<rightharpoonup> terms"
  bk_booked :: "string set"

definition no_books :: books where
  "no_books = \<lparr>bk_payments = (\<lambda>_. None), bk_booked = {}\<rparr>"

inductive books_step :: "books \<Rightarrow> books \<Rightarrow> bool" where
  open_payment: "\<lbrakk>bk_payments b p = None; 0 < sint a\<rbrakk>
    \<Longrightarrow> books_step b (b\<lparr>bk_payments := (bk_payments b)(p \<mapsto> (a, c, PaymentStatusPending))\<rparr>)"
| settle_payment: "\<lbrakk>bk_payments b p = Some (a, c, PaymentStatusPending); st \<in> {PaymentStatusSucceeded, PaymentStatusFailed}\<rbrakk>
    \<Longrightarrow> books_step b (b\<lparr>bk_payments := (bk_payments b)(p \<mapsto> (a, c, st))\<rparr>)"
| book_payment: "\<lbrakk>bk_payments b p \<noteq> None; p \<notin> bk_booked b\<rbrakk>
    \<Longrightarrow> books_step b (b\<lparr>bk_booked := insert p (bk_booked b)\<rparr>)"

text \<open>The abstraction of the tables.\<close>

definition row_terms :: "payment_row \<Rightarrow> terms" where
  "row_terms r = (pr_amount_cents r, pr_currency r, pr_status r)"

definition payments_of :: "payment_row list \<Rightarrow> string \<rightharpoonup> terms" where
  "payments_of rs = map_of (map (\<lambda>r. (pr_id r, row_terms r)) rs)"

definition booked_of :: "led_db \<Rightarrow> string set" where
  "booked_of db = en_ReferenceID ` set (entries db)"

definition books_of :: "flow \<Rightarrow> books" where
  "books_of w = \<lparr>bk_payments = payments_of (payments (ps_db (fl_pay w))), bk_booked = booked_of (cs_ledger (fl_cons w))\<rparr>"

lemma books_of_initial: "books_of initial_flow = no_books"
  by (simp add: books_of_def no_books_def initial_flow_def initial_system_def empty_pay_db_def empty_led_db_def
      payments_of_def booked_of_def)

section \<open>The payment side\<close>

lemma payments_of_None: "payments_of rs p = None \<longleftrightarrow> p \<notin> pr_id ` set rs"
  by (simp add: payments_of_def map_of_eq_None_iff image_image)

lemma payments_of_Some: "distinct (map pr_id rs) \<Longrightarrow> r \<in> set rs \<Longrightarrow> payments_of rs (pr_id r) = Some (row_terms r)"
  unfolding payments_of_def by (rule map_of_is_SomeI) (auto simp: comp_def)

lemma payments_of_append:
  "p \<notin> pr_id ` set rs \<Longrightarrow> pr_id r = p \<Longrightarrow> payments_of (rs @ [r]) = (payments_of rs)(p \<mapsto> row_terms r)"
proof (induction rs)
  case (Cons x rs)
  then show ?case by (auto simp: payments_of_def fun_upd_twist)
qed (simp add: payments_of_def)

lemma payments_of_update:
  assumes "distinct (map pr_id rs)" and "r \<in> set rs" and "pr_status r = prev"
  shows "payments_of (sql_update (\<lambda>x. pr_id x = pr_id r \<and> pr_status x = prev) (\<lambda>x. x\<lparr>pr_status := new, pr_updated_at := t\<rparr>) rs)
    = (payments_of rs)(pr_id r \<mapsto> (pr_amount_cents r, pr_currency r, new))"
  using assms
proof (induction rs)
  case (Cons x rs)
  show ?case
  proof (cases "x = r")
    case True
    with Cons.prems have "sql_update (\<lambda>x. pr_id x = pr_id r \<and> pr_status x = prev) (\<lambda>x. x\<lparr>pr_status := new, pr_updated_at := t\<rparr>) rs = rs"
      by (intro sql_update_none) (auto simp: image_iff)
    with True Cons.prems(3) show ?thesis
      by (intro ext) (simp add: payments_of_def sql_update_def row_terms_def)
  next
    case False
    with Cons.prems have "pr_id x \<noteq> pr_id r" "r \<in> set rs" by auto
    with Cons show ?thesis by (intro ext) (simp add: payments_of_def sql_update_def)
  qed
qed simp

lemma pay_step_books:
  assumes step: "pay_step L topic s s'" and inv: "sys_inv L topic s"
  shows "payments_of (payments (ps_db s')) = payments_of (payments (ps_db s))
    \<or> (\<exists>p a c. payments_of (payments (ps_db s)) p = None \<and> 0 < sint a
         \<and> payments_of (payments (ps_db s')) = (payments_of (payments (ps_db s)))(p \<mapsto> (a, c, PaymentStatusPending)))
    \<or> (\<exists>p a c st. payments_of (payments (ps_db s)) p = Some (a, c, PaymentStatusPending)
         \<and> st \<in> {PaymentStatusSucceeded, PaymentStatusFailed}
         \<and> payments_of (payments (ps_db s')) = (payments_of (payments (ps_db s)))(p \<mapsto> (a, c, st)))"
  using step
proof cases
  case (create cx request ikey res db)
  from create(3) show ?thesis
  proof (cases rule: service_create_effect)
    case (created p r e)
    have new: "payments db = payments (ps_db s) @ [r]" "pr_id r \<notin> pr_id ` set (payments (ps_db s))"
      and row: "payment_values cx p (key_of p) (hash_of p) = Inr r" "payment_checks r"
      using created(2) by (auto simp: appends_def)
    have "row_terms r = (pr_amount_cents r, pr_currency r, PaymentStatusPending)"
      using row(1) created(1) by (auto simp: row_terms_def new_payment_def dest: payment_values_Inr)
    with payments_of_append [OF new(2) refl]
    have "payments_of (payments (ps_db s')) = (payments_of (payments (ps_db s)))(pr_id r \<mapsto> (pr_amount_cents r, pr_currency r, PaymentStatusPending))"
      by (simp add: create(1) new(1))
    moreover have "payments_of (payments (ps_db s)) (pr_id r) = None" "0 < sint (pr_amount_cents r)"
      using new(2) row(2) by (simp_all add: payments_of_None payment_checks_def)
    ultimately show ?thesis by blast
  qed (simp add: create(1))
next
  case (update cx pid prev new res db)
  have st: "prev = PaymentStatusPending" "new \<noteq> PaymentStatusPending" using inv update(3) by (auto simp: sys_inv_def)
  have ids: "distinct (map pr_id (payments (ps_db s)))" using inv by (simp add: sys_inv_def pay_inv_def)
  from update(4) show ?thesis
  proof (cases rule: service_update_effect)
    case (moved r e)
    then have r: "r \<in> set (payments (ps_db s))" "pr_status r = prev" "new \<in> {PaymentStatusSucceeded, PaymentStatusFailed}"
      and db: "payments db = sql_update (\<lambda>x. pr_id x = pr_id r \<and> pr_status x = prev)
                (\<lambda>x. x\<lparr>pr_status := new, pr_updated_at := cx_now cx\<rparr>) (payments (ps_db s))"
      using st(2) by (auto simp: moves_def payment_checks_def)
    have "payments_of (payments (ps_db s)) (pr_id r) = Some (pr_amount_cents r, pr_currency r, PaymentStatusPending)"
      using payments_of_Some [OF ids r(1)] r(2) st(1) by (simp add: row_terms_def)
    moreover have "payments_of (payments (ps_db s')) = (payments_of (payments (ps_db s)))(pr_id r \<mapsto> (pr_amount_cents r, pr_currency r, new))"
      using payments_of_update [OF ids r(1,2)] by (simp add: update(1) db)
    ultimately show ?thesis using r(3) by blast
  qed (simp add: update(1))
next
  case (claim cx n res db)
  with claim_effect(1) [OF claim(3)] show ?thesis by simp
next
  case (publish env e db log ms)
  with publish_step_effect(1) [of topic env e "\<lparr>pub_store = ps_db s, pub_log = ps_log s, pub_metrics = []\<rparr>"]
  show ?thesis by simp
qed simp_all

section \<open>The ledger side\<close>

text \<open>All attempts of a turn together have the effect of one: the second finds the event consumed.\<close>

definition delta_from :: "pay_db \<Rightarrow> outbox_row \<Rightarrow> led_db \<Rightarrow> led_db \<Rightarrow> bool" where
  "delta_from pdb e db db' \<longleftrightarrow> (\<exists>db1. ledger_delta pdb e db db1 \<and> entries db' = entries db1 \<and> seen_events db' = seen_events db1)"

lemma delta_from_step:
  assumes "delta_from pdb e db db1" and "ledger_delta pdb e db1 db2"
  shows "delta_from pdb e db db2"
proof -
  obtain s where s: "ledger_delta pdb e db s" "entries db1 = entries s" "seen_events db1 = seen_events s"
    using assms(1) by (auto simp: delta_from_def)
  show ?thesis
  proof (cases "entries db2 = entries db1 \<and> seen_events db2 = seen_events db1")
    case True
    with s show ?thesis by (auto simp: delta_from_def)
  next
    case False
    with assms(2) have "ob_id e \<notin> fst ` set (seen_events db1)" unfolding ledger_delta_def by auto
    with s have "entries s = entries db" "seen_events s = seen_events db" unfolding ledger_delta_def by auto
    with s assms(2) have "ledger_delta pdb e db db2" by (simp add: ledger_delta_def)
    then show ?thesis by (auto simp: delta_from_def)
  qed
qed

lemma consume_delta:
  assumes ev: "e \<in> set (outbox pdb)" "carries topic (row_event e) m"
    and env: "\<forall>k. (\<forall>i. lib.truncate (fst (env k) i) = lib.truncate L) \<and> snd (env k) = (\<lambda>s. s)"
    and pay: "pay_inv L pdb" "outbox_canonical L pdb" "payments_canonical L pdb"
    and uuids: "uuid_text L" and json: "payload_decodes L"
    and inv: "led_inv L (cs_ledger c)"
    and run: "consume_turn L postgres_port cfg (Fetched m env cancel dle commit) c = (er, c')"
  shows "delta_from pdb e (cs_ledger c) (cs_ledger c')"
proof -
  let ?P = "\<lambda>db. led_inv L db \<and> delta_from pdb e (cs_ledger c) db"
  have "?P (fst (snd (HandleMessage L postgres_port (env k) m db)))" if "?P db" for k db
  proof -
    have "led_inv L (fst (snd (HandleMessage L postgres_port (env k) m db)))
        \<and> ledger_delta pdb e db (fst (snd (HandleMessage L postgres_port (env k) m db)))"
      by (rule handle_delta [OF ev(2,1) _ _ pay uuids json _ refl]) (use env that in simp_all)
    with that delta_from_step show ?thesis by blast
  qed
  moreover have "?P (cs_ledger c)" using inv by (auto simp: delta_from_def intro: ledger_delta_refl)
  ultimately show ?thesis
    using consume_turn_keeps [of ?P L postgres_port env m c, OF _ _ run] by blast
qed

text \<open>A payment whose event was not consumed is not booked.\<close>

lemma unbooked:
  assumes pay: "pay_inv L pdb" and led: "led_inv L db" and match: "entries_match pdb db"
    and e: "e \<in> set (outbox pdb)" "ob_event_type e = PaymentCreatedEvent" and new: "ob_id e \<notin> fst ` set (seen_events db)"
  shows "ob_aggregate_id e \<notin> booked_of db"
proof
  assume "ob_aggregate_id e \<in> booked_of db"
  then obtain x where x: "x \<in> set (entries db)" "en_ReferenceID x = ob_aggregate_id e" by (auto simp: booked_of_def)
  have "en_Direction x \<in> {DirectionDebit, DirectionCredit}"
    using led x(1) by (fastforce simp: led_inv_def accounts_ok_def list_all_iff entry_ok_def account_kind_def)
  then obtain d where d: "d \<in> {DirectionDebit, DirectionCredit}" "x \<in> set (entries_for d (ob_aggregate_id e) (entries db))"
    using x by (auto simp: entries_for_def)
  then have "entries_for d (ob_aggregate_id e) (entries db) \<noteq> []" by auto
  then have "filter (\<lambda>(_, q). q = ob_aggregate_id e) (seen_events db) \<noteq> []"
    using led d(1) unfolding led_inv_def once_each_def by (metis length_0_conv)
  then obtain u where u: "(u, ob_aggregate_id e) \<in> set (seen_events db)" by (auto simp: filter_empty_conv)
  with match obtain e' where e': "e' \<in> set (outbox pdb)" "ob_id e' = u" "ob_event_type e' = PaymentCreatedEvent"
    "ob_aggregate_id e' = ob_aggregate_id e" unfolding entries_match_def by fastforce
  obtain r where r: "r \<in> set (payments pdb)" "pr_id r = ob_aggregate_id e" using pay e(1) by (auto simp: pay_inv_def)
  have "length (events_of PaymentCreatedEvent (pr_id r) pdb) = 1" using pay r(1) by (simp add: pay_inv_def row_inv_def)
  then obtain y where "events_of PaymentCreatedEvent (pr_id r) pdb = [y]" by (auto simp: length_Suc_conv)
  moreover have "e \<in> set (events_of PaymentCreatedEvent (pr_id r) pdb)" "e' \<in> set (events_of PaymentCreatedEvent (pr_id r) pdb)"
    using e e' r(2) by (simp_all add: events_of_def)
  ultimately have "e' = e" by simp
  with u e'(2) new show False by force
qed

text \<open>What the handling of a message does to the booked payments.\<close>

lemma delta_books:
  assumes pay: "pay_inv L pdb" and led: "led_inv L db" and match: "entries_match pdb db"
    and e: "e \<in> set (outbox pdb)" and delta: "ledger_delta pdb e db db'"
  shows "booked_of db' = booked_of db
    \<or> (\<exists>p. payments_of (payments pdb) p \<noteq> None \<and> p \<notin> booked_of db \<and> booked_of db' = insert p (booked_of db))"
proof (cases "entries db' = entries db")
  case True
  then show ?thesis by (simp add: booked_of_def)
next
  case False
  with delta obtain r d k where new: "ob_event_type e = PaymentCreatedEvent" "ob_id e \<notin> fst ` set (seen_events db)"
    "r \<in> set (payments pdb)" "pr_id r = ob_aggregate_id e" "entries db' = entries db @ [d, k]"
    "en_ReferenceID d = ob_aggregate_id e" "en_ReferenceID k = ob_aggregate_id e"
    unfolding ledger_delta_def double_entry_def by blast
  have "payments_of (payments pdb) (ob_aggregate_id e) \<noteq> None" using new(3,4) by (simp add: payments_of_None rev_image_eqI)
  moreover have "ob_aggregate_id e \<notin> booked_of db" by (rule unbooked [OF pay led match e new(1,2)])
  moreover have "booked_of db' = insert (ob_aggregate_id e) (booked_of db)" using new(5-7) by (auto simp: booked_of_def)
  ultimately show ?thesis by blast
qed

lemma booked_step:
  assumes "booked_of (cs_ledger (fl_cons w')) = booked_of (cs_ledger (fl_cons w))
      \<or> (\<exists>p. payments_of (payments (ps_db (fl_pay w))) p \<noteq> None \<and> p \<notin> booked_of (cs_ledger (fl_cons w))
           \<and> booked_of (cs_ledger (fl_cons w')) = insert p (booked_of (cs_ledger (fl_cons w))))"
    and "payments (ps_db (fl_pay w')) = payments (ps_db (fl_pay w))"
  shows "books_of w' = books_of w \<or> books_step (books_of w) (books_of w')"
  using assms book_payment [of "books_of w"] by (auto simp: books_of_def)

lemma paid_step:
  assumes "pay_step L topic (fl_pay w) (fl_pay w')" and "sys_inv L topic (fl_pay w)" and "cs_ledger (fl_cons w') = cs_ledger (fl_cons w)"
  shows "books_of w' = books_of w \<or> books_step (books_of w) (books_of w')"
  using pay_step_books [OF assms(1,2)] open_payment [of "books_of w"] settle_payment [of "books_of w"]
  by (elim disjE exE conjE) (auto simp: books_of_def assms(3))

section \<open>The simulation\<close>

lemma flow_step_books:
  assumes step: "flow_step L topic cfg w w'" and inv: "flow_inv L topic w"
    and uuids: "uuid_text L" and json: "payload_decodes L"
  shows "books_of w' = books_of w \<or> books_step (books_of w) (books_of w')"
  using step
proof cases
  case (payment s')
  from inv have "sys_inv L topic (fl_pay w)" by (simp add: flow_inv_def)
  with paid_step [of L topic w w'] payment show ?thesis by simp
next
  case (consume m env cancel dle commit er c')
  let ?pdb = "ps_db (fl_pay w)" and ?db = "cs_ledger (fl_cons w)"
  have pay: "pay_inv L ?pdb" "outbox_canonical L ?pdb" "payments_canonical L ?pdb"
    and led: "led_inv L ?db" "entries_match ?pdb ?db" using inv by (simp_all add: flow_inv_def sys_inv_def)
  obtain e where e: "e \<in> set (outbox ?pdb)" "carries topic (row_event e) m"
    using consume(2) inv unfolding flow_inv_def delivers_def log_carries_def carries_def by metis
  have "delta_from ?pdb e ?db (cs_ledger c')"
    by (rule consume_delta [OF e _ pay uuids json led(1) consume(4)]) (use consume(3) in simp)
  then obtain s where s: "ledger_delta ?pdb e ?db s" "entries (cs_ledger c') = entries s" by (auto simp: delta_from_def)
  have "booked_of (cs_ledger (fl_cons w')) = booked_of s" using s(2) consume(1) by (simp add: booked_of_def)
  with delta_books [OF pay(1) led e(1) s(1)] show ?thesis
    by (intro booked_step) (simp_all add: consume(1))
next
  case (replay m env' cause n j operator reason res db log)
  from Replay_effect [OF replay(5)] have "same_ledger (cs_ledger (fl_cons w)) db" by simp
  then show ?thesis by (simp add: books_of_def replay(1) booked_of_def same_ledger_def)
qed

text \<open>The debits are the booked payments.\<close>

lemma debits_distinct:
  assumes inv: "flow_inv L topic w"
  defines "ds \<equiv> filter (\<lambda>e. en_Direction e = DirectionDebit) (entries (cs_ledger (fl_cons w)))"
  shows "distinct (map en_ReferenceID ds)" and "set (map en_ReferenceID ds) = bk_booked (books_of w)"
    and "\<And>e. e \<in> set ds \<Longrightarrow> \<exists>c st. bk_payments (books_of w) (en_ReferenceID e) = Some (en_AmountCents e, c, st)"
proof -
  let ?pdb = "ps_db (fl_pay w)" and ?db = "cs_ledger (fl_cons w)"
  have pay: "pay_inv L ?pdb" and led: "led_inv L ?db" and match: "entries_match ?pdb ?db"
    using inv by (simp_all add: flow_inv_def sys_inv_def)
  have row: "\<exists>r \<in> set (payments ?pdb). en_ReferenceID x = pr_id r \<and> en_AmountCents x = pr_amount_cents r" if "x \<in> set (entries ?db)" for x
    using match that by (simp add: entries_match_def)
  have dir: "en_Direction x = DirectionDebit \<or> en_Direction x = DirectionCredit" if "x \<in> set (entries ?db)" for x
    using led that by (fastforce simp: led_inv_def accounts_ok_def list_all_iff entry_ok_def account_kind_def)
  have fil: "filter (\<lambda>e. en_ReferenceID e = p) ds = entries_for DirectionDebit p (entries ?db)" for p
    by (simp add: ds_def entries_for_def conj_commute)
  have one: "length (filter (\<lambda>e. en_ReferenceID e = p) ds) \<le> 1" for p
  proof (cases "filter (\<lambda>e. en_ReferenceID e = p) ds")
    case (Cons x xs)
    then have "x \<in> set (filter (\<lambda>e. en_ReferenceID e = p) ds)" by simp
    then have "x \<in> set (entries ?db)" "en_ReferenceID x = p" by (auto simp: ds_def)
    with row obtain r where "r \<in> set (payments ?pdb)" "pr_id r = p" by metis
    with one_double_entry [OF inv, of r DirectionDebit] show ?thesis by (simp add: fil)
  qed simp
  have "count (mset (map en_ReferenceID ds)) p \<le> 1" for p
    using one [of p] by (simp add: count_mset count_list_eq_length_filter filter_map comp_def eq_commute del: mset_map)
  then show "distinct (map en_ReferenceID ds)"
    by (simp add: distinct_count_atmost_1 le_Suc_eq del: mset_map)
  have "en_ReferenceID x \<in> en_ReferenceID ` set ds" if x: "x \<in> set (entries ?db)" for x
  proof -
    obtain r where r: "r \<in> set (payments ?pdb)" "pr_id r = en_ReferenceID x" using row [OF x] by metis
    obtain d where d: "d \<in> {DirectionDebit, DirectionCredit}" "x \<in> set (entries_for d (pr_id r) (entries ?db))"
      using dir [OF x] x r(2) by (auto simp: entries_for_def)
    then have "entries_for d (pr_id r) (entries ?db) \<noteq> []" by auto
    with one_double_entry [OF inv r(1) d(1)] one_double_entry [OF inv r(1), of DirectionDebit]
    have "entries_for DirectionDebit (pr_id r) (entries ?db) \<noteq> []" by (auto split: if_splits)
    then obtain y where "y \<in> set ds" "en_ReferenceID y = pr_id r"
      unfolding fil [symmetric] by (auto simp: filter_empty_conv)
    with r(2) show ?thesis by (metis imageI)
  qed
  then show "set (map en_ReferenceID ds) = bk_booked (books_of w)"
    by (auto simp: books_of_def booked_of_def ds_def)
  fix e assume "e \<in> set ds"
  then obtain r where r: "r \<in> set (payments ?pdb)" "en_ReferenceID e = pr_id r" "en_AmountCents e = pr_amount_cents r"
    using row by (auto simp: ds_def)
  have "distinct (map pr_id (payments ?pdb))" using pay by (simp add: pay_inv_def)
  from payments_of_Some [OF this r(1)] r show "\<exists>c st. bk_payments (books_of w) (en_ReferenceID e) = Some (en_AmountCents e, c, st)"
    by (simp add: books_of_def row_terms_def)
qed

definition booked_total :: "books \<Rightarrow> int" where
  "booked_total b = (\<Sum>p \<in> bk_booked b. case bk_payments b p of None \<Rightarrow> 0 | Some (a, _, _) \<Rightarrow> sint a)"

lemma debit_total:
  assumes "flow_inv L topic w"
  shows "sum_list (map (\<lambda>e. sint (en_AmountCents e)) (filter (\<lambda>e. en_Direction e = DirectionDebit) (entries (cs_ledger (fl_cons w)))))
    = booked_total (books_of w)"
proof -
  let ?ds = "filter (\<lambda>e. en_Direction e = DirectionDebit) (entries (cs_ledger (fl_cons w)))"
  let ?g = "\<lambda>p. case bk_payments (books_of w) p of None \<Rightarrow> 0 | Some (a, _, _) \<Rightarrow> sint a"
  note d = debits_distinct [OF assms]
  have "map (\<lambda>e. sint (en_AmountCents e)) ?ds = map (\<lambda>e. ?g (en_ReferenceID e)) ?ds"
    by (rule map_cong [OF refl]) (use d(3) in fastforce)
  then have "sum_list (map (\<lambda>e. sint (en_AmountCents e)) ?ds) = sum_list (map ?g (map en_ReferenceID ?ds))"
    by (simp only: map_map comp_def)
  also have "\<dots> = sum ?g (set (map en_ReferenceID ?ds))" by (rule sum_list_distinct_conv_sum_set [OF d(1)])
  finally show ?thesis unfolding d(2) booked_total_def .
qed

end
