(* ===== verification/Flow_Samples.thy ===== *)
theory Flow_Samples
  imports End_To_End Samples
begin

text \<open>
  One payment through both services, evaluated: created, claimed, published, consumed. The
  payload is the amount and the identifier in decimal and plain text.
\<close>

definition flow_text :: "json \<Rightarrow> string" where
  "flow_text j =
     (case j of
        JObj kvs \<Rightarrow> (case (map_of kvs ''amount_cents'', map_of kvs ''payment_id'') of
            (Some (JInt n), Some (JStr i)) \<Rightarrow> format_int n @ '','' @ i | _ \<Rightarrow> [])
      | _ \<Rightarrow> [])"

definition flow_parse :: "string \<Rightarrow> json option" where
  "flow_parse s =
     (case (parse_int64 (takeWhile (\<lambda>c. c \<noteq> CHR '','') s), dropWhile (\<lambda>c. c \<noteq> CHR '','') s) of
        (Some n, _ # i) \<Rightarrow> Some (JObj [(''payment_id'', JStr i), (''amount_cents'', JInt (sint n)), (''currency'', JStr ''USD'')])
      | _ \<Rightarrow> None)"

definition flow_ids :: "string list" where
  "flow_ids = [''a1'', ''b1'', ''am'', ''bm'', ''bank'', ''shop'', ''tx'', ''e1'', ''e2'']"

definition flow_lib :: lib where
  "flow_lib = sample_lib\<lparr>pg_uuid := (\<lambda>x. if x \<in> set flow_ids then Some x else None), json_text := flow_text, json_parse := flow_parse\<rparr>"

definition flow_ctx :: "string \<Rightarrow> ctx" where
  "flow_ctx tag = lib.extend flow_lib
     \<lparr>cx_uuid = (\<lambda>k. (if k = 0 then CHR ''a'' else CHR ''b'') # tag), cx_now = 1000, cx_begin = None,
      cx_stmt = (\<lambda>_. None), cx_commit = CommitOk, cx_traceparent = [], cx_tracestate = [],
      cx_locked = (\<lambda>_. False), cx_returning = (\<lambda>_. [])\<rparr>"

definition flow_ledger_ctx :: "nat \<Rightarrow> ctx" where
  "flow_ledger_ctx i =
     (flow_ctx [])\<lparr>cx_uuid := (\<lambda>k. if i = 0 then ''bank'' else if i = 1 then ''shop''
        else if k = 0 then ''tx'' else if k = 1 then ''e1'' else ''e2'')\<rparr>"

lemma flow_ctx_lib: "lib.truncate (flow_ctx tag) = flow_lib" "lib.truncate (flow_ledger_ctx i) = flow_lib"
  by (simp_all add: flow_ctx_def flow_ledger_ctx_def lib.defs flow_lib_def sample_lib_def)

lemma flow_uuid_text: "uuid_text flow_lib"
proof -
  have "list_all (\<lambda>u. is_ascii u \<and> trim_space u = u) flow_ids" by code_simp
  then show ?thesis by (simp add: uuid_text_def flow_lib_def list_all_iff)
qed

lemma format_int_comma: "CHR '','' \<notin> set (format_int n)"
proof -
  have "CHR '','' \<notin> set (format_nat k)" for k
    using format_nat_digits [of k] by (auto simp: list_all_iff is_digit_def byte_def)
  then show ?thesis by (auto simp: format_int_def)
qed

lemma flow_parse_text:
  "flow_parse (format_int (sint n) @ '','' @ i)
     = Some (JObj [(''payment_id'', JStr i), (''amount_cents'', JInt (sint (n :: i64))), (''currency'', JStr ''USD'')])"
proof -
  have "takeWhile (\<lambda>c. c \<noteq> CHR '','') (format_int (sint n) @ '','' @ i) = format_int (sint n)"
    "dropWhile (\<lambda>c. c \<noteq> CHR '','') (format_int (sint n) @ '','' @ i) = '','' @ i"
    using format_int_comma [of "sint n"] by (auto simp: takeWhile_append dropWhile_append)
  then show ?thesis by (simp add: flow_parse_def parse_int64_format)
qed

lemma payment_created_names: "distinct (map (\<lambda>(n, f). fold_name n) payment_created_fields)"
proof -
  have "distinct (map fold_name [''schema_version'', ''payment_id'', ''amount_cents'', ''currency''])" by code_simp
  then show ?thesis by (simp add: payment_created_fields_def)
qed

lemma flow_decodes: "payload_decodes flow_lib"
  unfolding payload_decodes_def
proof (intro allI impI, elim conjE)
  fix p t v pc
  assume v: "pg_jsonb flow_lib (json_text flow_lib (payment_created_payload p t)) = Some v"
    and pc: "decode_payment_created flow_lib v = Some pc"
  have val: "v = format_int (sint (p_AmountCents p)) @ '','' @ p_ID p"
    using v by (simp add: flow_lib_def sample_lib_def flow_text_def payment_created_payload_def)
  have fields: "find_field payment_created_fields ''payment_id'' = Some (set_str (\<lambda>s r. r\<lparr>pc_PaymentID := s\<rparr>))"
    "find_field payment_created_fields ''amount_cents'' = Some (set_i64 (\<lambda>n r. r\<lparr>pc_AmountCents := n\<rparr>))"
    "find_field payment_created_fields ''currency'' = Some (set_str (\<lambda>s r. r\<lparr>pc_Currency := s\<rparr>))"
    by (rule find_field_names [OF payment_created_names]; simp add: payment_created_fields_def)+
  have "json_parse flow_lib v = Some (JObj [(''payment_id'', JStr (p_ID p)), (''amount_cents'', JInt (sint (p_AmountCents p))), (''currency'', JStr ''USD'')])"
    using flow_parse_text unfolding val by (simp add: flow_lib_def)
  with pc show "pc_PaymentID pc = p_ID p \<and> pc_AmountCents pc = p_AmountCents p"
    by (auto simp: decode_payment_created_def decode_struct_obj fields)
qed

section \<open>One payment\<close>

definition flow_request :: create_payment_request where
  "flow_request = \<lparr>cr_AmountCents = 2500, cr_Currency = ''usd'', cr_Description = [], cr_ExternalReference = []\<rparr>"

definition flow_row :: payment_row where
  "flow_row = \<lparr>pr_id = ''a1'', pr_amount_cents = 2500, pr_currency = ''USD'', pr_status = ''pending'',
     pr_description = None, pr_external_reference = None, pr_idempotency_key = None,
     pr_idempotency_request_hash = None, pr_created_at = 1000, pr_updated_at = 1000\<rparr>"

definition flow_outbox_row :: outbox_row where
  "flow_outbox_row = \<lparr>ob_id = ''b1'', ob_aggregate_type = ''payment'', ob_aggregate_id = ''a1'',
     ob_event_type = ''payment.created'', ob_payload = ''2500,a1'', ob_status = ''pending'', ob_attempts = 0,
     ob_last_error = None, ob_created_at = 1000, ob_published_at = None, ob_trace_parent = Some [],
     ob_trace_state = Some []\<rparr>"

abbreviation flow_event :: outbox_event where
  "flow_event \<equiv> row_event (claim_row flow_outbox_row)"

definition flow_message :: kafka_message where
  "flow_message = event_message ''t'' [] flow_event"

definition flow_db :: pay_db where
  "flow_db = \<lparr>payments = [flow_row], outbox = [flow_outbox_row]\<rparr>"

definition flow_claimed_db :: pay_db where
  "flow_claimed_db = \<lparr>payments = [flow_row], outbox = [claim_row flow_outbox_row]\<rparr>"

definition flow_env :: "ctx publish_env" where
  "flow_env = \<lparr>pe_write = (\<lambda>_. WriteOk), pe_carrier = [], pe_now = 2000, pe_mark = flow_ctx ''m''\<rparr>"

definition flow_published_db :: pay_db where
  "flow_published_db = \<lparr>payments = [flow_row], outbox = [(claim_row flow_outbox_row)
     \<lparr>ob_status := OutboxStatusPublished, ob_published_at := Some 2000, ob_last_error := None\<rparr>]\<rparr>"

definition flow_ledger :: led_db where
  "flow_ledger =
     \<lparr>accounts = [\<lparr>a_ID = ''bank'', a_Name = ''finflow_cash'', a_Currency = ''USD'', a_NormalBalance = ''debit'', a_CreatedAt = 1000\<rparr>,
                  \<lparr>a_ID = ''shop'', a_Name = ''merchant_payable'', a_Currency = ''USD'', a_NormalBalance = ''credit'', a_CreatedAt = 1000\<rparr>],
      entries = [\<lparr>en_ID = ''e1'', en_TransactionID = ''tx'', en_AccountID = ''bank'', en_Direction = ''debit'', en_AmountCents = 2500,
                   en_Currency = ''USD'', en_ReferenceType = ''payment'', en_ReferenceID = ''a1'', en_CreatedAt = 1000\<rparr>,
                 \<lparr>en_ID = ''e2'', en_TransactionID = ''tx'', en_AccountID = ''shop'', en_Direction = ''credit'', en_AmountCents = 2500,
                   en_Currency = ''USD'', en_ReferenceType = ''payment'', en_ReferenceID = ''a1'', en_CreatedAt = 1000\<rparr>],
      consumed = [\<lparr>ce_event_id = ''b1'', ce_event_type = ''payment.created'', ce_aggregate_id = ''a1'', ce_consumed_at = 1000\<rparr>],
      replays = []\<rparr>"

lemma flow_created:
  "PaymentService_Create PostgresPaymentRepository (flow_ctx ''1'') flow_request [] empty_pay_db = (Inr (row_payment flow_row, True), flow_db)"
  by code_simp

lemma flow_claim: "ClaimPending (flow_ctx ''c'') 0 flow_db = (Inr [flow_event], flow_claimed_db)"
  by code_simp

lemma flow_publish:
  "publish_step PostgresOutboxRepository ''t'' flow_env flow_event \<lparr>pub_store = flow_claimed_db, pub_log = [], pub_metrics = []\<rparr>
   = \<lparr>pub_store = flow_published_db, pub_log = [flow_message], pub_metrics = [KafkaPublished ''payment.created'' ''success'']\<rparr>"
  by code_simp

lemma flow_recorded:
  "RecordPaymentMovementOnce PostgresLedgerRepository flow_ledger_ctx (\<lambda>s. s) ''b1'' ''payment.created''
     \<lparr>mr_PaymentID = ''a1'', mr_AmountCents = 2500, mr_Currency = ''USD''\<rparr> empty_led_db = (Inr (entries flow_ledger, True), flow_ledger)"
  by code_simp

definition flow_consumer :: consumer_config where
  "flow_consumer = \<lparr>cc_maxAttempts = 1, cc_retryInitialBackoff = 1, cc_retryMaxBackoff = 1, cc_deadLetterTopic = ''dead''\<rparr>"

definition flow_dead :: dead_letter_env where
  "flow_dead = \<lparr>dp_now = None, dp_text = (\<lambda>_. []), dp_write = (\<lambda>_. WriteOk)\<rparr>"

lemma flow_handled:
  "\<exists>ms. HandleMessage flow_lib postgres_port (flow_ledger_ctx, \<lambda>s. s) flow_message empty_led_db = (None, flow_ledger, ms)"
proof -
  have h: "headerValue (km_Headers flow_message) ''event_id'' = ''b1''"
    "headerValue (km_Headers flow_message) ''event_type'' = PaymentCreatedEventName" by code_simp+
  have d: "map_option movement_of (decode_payment_created flow_lib (km_Value flow_message))
      = Some \<lparr>mr_PaymentID = ''a1'', mr_AmountCents = 2500, mr_Currency = ''USD''\<rparr>" by code_simp
  then obtain pc where "decode_payment_created flow_lib (km_Value flow_message) = Some pc"
    "movement_of pc = \<lparr>mr_PaymentID = ''a1'', mr_AmountCents = 2500, mr_Currency = ''USD''\<rparr>" by auto
  then show ?thesis
    using flow_recorded unfolding HandleMessage_def h Let_def
    by (simp add: handlePaymentCreated_def postgres_port_def PaymentCreatedEventName_def)
qed

definition flow_published :: flow where
  "flow_published = initial_flow\<lparr>fl_pay := \<lparr>ps_db = flow_published_db, ps_log = [flow_message], ps_updates = [], ps_claimed = []\<rparr>\<rparr>"

lemma flow_published_steps: "flow_steps flow_lib ''t'' flow_consumer initial_flow flow_published"
proof -
  let ?pay = "\<lambda>s. initial_flow\<lparr>fl_pay := s\<rparr>"
  let ?s1 = "initial_system\<lparr>ps_db := flow_db\<rparr>"
  let ?s2 = "?s1\<lparr>ps_db := flow_claimed_db, ps_claimed := [flow_event]\<rparr>"
  have "pay_step flow_lib ''t'' initial_system ?s1"
    using pay_step.create [OF flow_ctx_lib(1), of "''1''" flow_request "[]" initial_system _ flow_db] flow_created
    by (simp add: initial_system_def)
  then have 1: "flow_step flow_lib ''t'' flow_consumer initial_flow (?pay ?s1)"
    by (intro flow_step.payment) (simp add: initial_flow_def)
  have "pay_step flow_lib ''t'' ?s1 ?s2"
    using pay_step.claim [OF flow_ctx_lib(1), of "''c''" 0 ?s1 "Inr [flow_event]" flow_claimed_db "''t''"] flow_claim
    by (simp add: initial_system_def)
  then have 2: "flow_step flow_lib ''t'' flow_consumer (?pay ?s1) (?pay ?s2)"
    using flow_step.payment [of flow_lib "''t''" "?pay ?s1" ?s2 flow_consumer] by simp
  have "pay_step flow_lib ''t'' ?s2 (fl_pay flow_published)"
    using pay_step.publish [of flow_env flow_lib flow_event ?s2 "''t''"] flow_publish flow_ctx_lib
    by (simp add: initial_system_def flow_env_def flow_published_def)
  then have 3: "flow_step flow_lib ''t'' flow_consumer (?pay ?s2) flow_published"
    using flow_step.payment [of flow_lib "''t''" "?pay ?s2" "fl_pay flow_published" flow_consumer]
    by (simp add: flow_published_def)
  from 1 2 3 show ?thesis by (meson converse_rtranclp_into_rtranclp rtranclp.rtrancl_refl)
qed

lemma flow_consume_step:
  "\<exists>w. flow_step flow_lib ''t'' flow_consumer flow_published w \<and> ps_db (fl_pay w) = flow_published_db \<and> cs_ledger (fl_cons w) = flow_ledger"
proof -
  obtain ms where h: "HandleMessage flow_lib postgres_port (flow_ledger_ctx, \<lambda>s. s) flow_message empty_led_db = (None, flow_ledger, ms)"
    using flow_handled by blast
  let ?env = "\<lambda>_ :: nat. (flow_ledger_ctx, \<lambda>s :: led_db. s)"
  let ?turn = "Fetched flow_message ?env (\<lambda>_. None) flow_dead None"
  let ?c = "fl_cons flow_published"
  have led: "cs_ledger ?c = empty_led_db" by (simp add: flow_published_def initial_flow_def)
  have loop: "retry_loop flow_lib postgres_port ?env (\<lambda>_. None) mb flow_message (Suc 0) (Suc 0) b empty_led_db
    = \<lparr>ro_attempts = 1, ro_err = None, ro_state = flow_ledger, ro_metrics = ms, ro_waits = []\<rparr>" for mb b
    by (simp add: h)
  have "handleWithRetry flow_lib postgres_port flow_consumer ?env (\<lambda>_. None) flow_message empty_led_db
    = \<lparr>ro_attempts = 1, ro_err = None, ro_state = flow_ledger, ro_metrics = ms, ro_waits = []\<rparr>"
    using loop by (simp add: handleWithRetry_def flow_consumer_def)
  then obtain c' where c: "consume_turn flow_lib postgres_port flow_consumer ?turn ?c = (None, c')" "cs_ledger c' = flow_ledger"
    by (auto simp: consume_turn_def led Let_def commit_message_def)
  have "delivers (ps_log (fl_pay flow_published)) flow_message" by (simp add: delivers_def flow_published_def)
  from flow_step.consume [where topic = "''t''", OF this _ c(1)] flow_ctx_lib
  have "flow_step flow_lib ''t'' flow_consumer flow_published (flow_published\<lparr>fl_cons := c'\<rparr>)" by simp
  with c(2) show ?thesis by (intro exI [of _ "flow_published\<lparr>fl_cons := c'\<rparr>"]) (simp add: flow_published_def)
qed

lemma flow_reachable:
  "\<exists>w. flow_steps flow_lib ''t'' flow_consumer initial_flow w \<and> ps_db (fl_pay w) = flow_published_db \<and> cs_ledger (fl_cons w) = flow_ledger"
  using flow_consume_step flow_published_steps by (meson rtranclp.rtrancl_into_rtrancl)

end
