(* ===== verification/Flow_Properties.thy ===== *)
theory Flow_Properties
  imports Books Flow_Samples
begin

text \<open>
  The two services against their abstract specification.
\<close>

text \<open>What the invariant says of the entries.\<close>

lemma double_entries:
  assumes inv: "flow_inv L topic w"
  shows "(\<forall>r \<in> set (payments (ps_db (fl_pay w))).
      if creation_recorded (ps_db (fl_pay w)) (cs_ledger (fl_cons w)) (pr_id r)
      then \<exists>d k. entries_for DirectionDebit (pr_id r) (entries (cs_ledger (fl_cons w))) = [d]
             \<and> entries_for DirectionCredit (pr_id r) (entries (cs_ledger (fl_cons w))) = [k]
             \<and> en_AmountCents d = pr_amount_cents r \<and> en_AmountCents k = pr_amount_cents r
      else entries_for DirectionDebit (pr_id r) (entries (cs_ledger (fl_cons w))) = []
             \<and> entries_for DirectionCredit (pr_id r) (entries (cs_ledger (fl_cons w))) = [])
    \<and> (\<forall>en \<in> set (entries (cs_ledger (fl_cons w))). \<exists>r \<in> set (payments (ps_db (fl_pay w))). en_ReferenceID en = pr_id r)"
proof -
  have single: "length xs = 1 \<longleftrightarrow> (\<exists>x. xs = [x])" for xs :: "entry list" by (auto simp: length_Suc_conv)
  show ?thesis
  proof (intro conjI ballI)
    fix r assume r: "r \<in> set (payments (ps_db (fl_pay w)))"
    note one = one_double_entry [OF inv r]
    show "if creation_recorded (ps_db (fl_pay w)) (cs_ledger (fl_cons w)) (pr_id r)
      then \<exists>d k. entries_for DirectionDebit (pr_id r) (entries (cs_ledger (fl_cons w))) = [d]
             \<and> entries_for DirectionCredit (pr_id r) (entries (cs_ledger (fl_cons w))) = [k]
             \<and> en_AmountCents d = pr_amount_cents r \<and> en_AmountCents k = pr_amount_cents r
      else entries_for DirectionDebit (pr_id r) (entries (cs_ledger (fl_cons w))) = []
             \<and> entries_for DirectionCredit (pr_id r) (entries (cs_ledger (fl_cons w))) = []"
      using one [of DirectionDebit] one [of DirectionCredit] single by auto
  next
    fix en assume "en \<in> set (entries (cs_ledger (fl_cons w)))"
    with inv show "\<exists>r \<in> set (payments (ps_db (fl_pay w))). en_ReferenceID en = pr_id r"
      unfolding flow_inv_def entries_match_def by blast
  qed
qed

text \<open>
  Exactly once, end to end, with deliveries that are handled one after the other.
\<close>

theorem one_double_entry_per_payment:
  assumes "flow_steps L topic cfg initial_flow w" and "uuid_text L" and "payload_decodes L"
  shows "(\<forall>r \<in> set (payments (ps_db (fl_pay w))).
      if creation_recorded (ps_db (fl_pay w)) (cs_ledger (fl_cons w)) (pr_id r)
      then \<exists>d k. entries_for DirectionDebit (pr_id r) (entries (cs_ledger (fl_cons w))) = [d]
             \<and> entries_for DirectionCredit (pr_id r) (entries (cs_ledger (fl_cons w))) = [k]
             \<and> en_AmountCents d = pr_amount_cents r \<and> en_AmountCents k = pr_amount_cents r
      else entries_for DirectionDebit (pr_id r) (entries (cs_ledger (fl_cons w))) = []
             \<and> entries_for DirectionCredit (pr_id r) (entries (cs_ledger (fl_cons w))) = [])
    \<and> (\<forall>en \<in> set (entries (cs_ledger (fl_cons w))). \<exists>r \<in> set (payments (ps_db (fl_pay w))). en_ReferenceID en = pr_id r)"
  by (rule double_entries [OF flow_inv_steps [OF assms(1) flow_inv_initial assms(2,3)]])

theorem one_double_entry_per_payment_witness:
  "\<exists>d. entries_for DirectionDebit ''a1'' (entries flow_ledger) = [d] \<and> en_AmountCents d = 2500"
proof -
  obtain w where w: "flow_steps flow_lib ''t'' flow_consumer initial_flow w" "ps_db (fl_pay w) = flow_published_db"
    "cs_ledger (fl_cons w) = flow_ledger" using flow_reachable by blast
  have r: "flow_row \<in> set (payments (ps_db (fl_pay w)))" by (simp add: w(2) flow_published_db_def)
  have rec: "creation_recorded flow_published_db flow_ledger (pr_id flow_row)"
    by (simp add: creation_recorded_def flow_published_db_def flow_ledger_def flow_row_def claim_row_def flow_outbox_row_def PaymentCreatedEvent_def)
  from one_double_entry_per_payment [OF w(1) flow_uuid_text flow_decodes, THEN conjunct1, rule_format, OF r]
  have "\<exists>d. entries_for DirectionDebit (pr_id flow_row) (entries flow_ledger) = [d] \<and> en_AmountCents d = pr_amount_cents flow_row"
    unfolding w(2,3) by (simp add: rec) blast
  then show ?thesis by (simp add: flow_row_def)
qed

text \<open>
  The services refine an abstract set of books. Read a payment as its terms and status, and a payment as booked when the ledger has
  an entry for it. Then every step of the two services together, from every reachable state (an API call, a claim, a
  publication, a crash, a delivery with all its retries, a replay), either changes nothing in the books or is exactly one abstract step: a new
  pending payment of a positive amount, a pending payment that succeeds or fails, or the booking of an existing payment
  that was not booked. And the debits of the ledger add up to the amounts of the booked payments.
\<close>

theorem flow_refines_books:
  assumes "flow_steps L topic cfg initial_flow w" and "flow_step L topic cfg w w'"
    and "uuid_text L" and "payload_decodes L"
  shows "books_step\<^sup>*\<^sup>* no_books (books_of w)
    \<and> (books_of w' = books_of w \<or> books_step (books_of w) (books_of w'))
    \<and> sum_list (map (\<lambda>e. sint (en_AmountCents e)) (filter (\<lambda>e. en_Direction e = DirectionDebit) (entries (cs_ledger (fl_cons w)))))
       = booked_total (books_of w)"
proof -
  note inv = flow_inv_steps [OF assms(1) flow_inv_initial assms(3,4)]
  from assms(1) have "books_step\<^sup>*\<^sup>* no_books (books_of w)"
  proof (induction rule: rtranclp_induct)
    case (step y z)
    from flow_step_books [OF step(2) flow_inv_steps [OF step(1) flow_inv_initial assms(3,4)] assms(3,4)] step(3)
    show ?case by (auto intro: rtranclp.rtrancl_into_rtrancl)
  qed (simp add: books_of_initial)
  with flow_step_books [OF assms(2) inv assms(3,4)] debit_total [OF inv] show ?thesis by blast
qed

theorem flow_refines_books_witness:
  "\<exists>w. flow_step flow_lib ''t'' flow_consumer flow_published w \<and> books_step (books_of flow_published) (books_of w)
     \<and> bk_booked (books_of w) = {''a1''}"
proof -
  obtain w where w: "flow_step flow_lib ''t'' flow_consumer flow_published w" "cs_ledger (fl_cons w) = flow_ledger"
    using flow_consume_step by blast
  have b: "bk_booked (books_of flow_published) = {}" "bk_booked (books_of w) = {''a1''}"
    by (simp_all add: books_of_def booked_of_def w(2) flow_ledger_def flow_published_def initial_flow_def empty_led_db_def)
  then have "books_of w \<noteq> books_of flow_published" by (metis insert_not_empty)
  with flow_refines_books [OF flow_published_steps w(1) flow_uuid_text flow_decodes] w(1) b(2) show ?thesis by blast
qed

end
