(* ===== verification/Call_Stages.thy ===== *)
theory Call_Stages
  imports Ledger_Service Dead_Letter_Replay
begin

text \<open>
  \<open>RecordPaymentMovementOnce\<close> and \<open>Replay\<close> one call at a time: where an operation stands between two
  calls to the database or to Kafka, and what the next call does. Run without interruption the calls
  make up the operations.
\<close>

section \<open>Recording a movement\<close>

text \<open>
  The two accounts are ensured and the entries written in three transactions. \<open>cx i\<close> is the environment of
  the i-th call.
\<close>

datatype record_stage =
    EnsureCash payment_movement_request
  | EnsurePayable payment_movement_request account
  | WriteEntries "entry list"
  | Recorded "err + entry list \<times> bool"

definition record_start :: "(nat \<Rightarrow> 'x ctx_scheme) \<Rightarrow> string \<Rightarrow> string \<Rightarrow> payment_movement_request \<Rightarrow> record_stage" where
  "record_start cx eventID eventType request =
     (if \<not> uuid_parse (cx 0) (trim_space eventID) then Recorded (Inl ErrValidation)
      else if trim_space eventType = [] then Recorded (Inl ErrValidation)
      else (let req = normalize_movement (cx 0) request
            in case validatePaymentMovement (cx 0) req of
                 Some e \<Rightarrow> Recorded (Inl e)
               | None \<Rightarrow> EnsureCash req))"

definition record_call ::
  "('x ctx_scheme, 's) ledger_repository \<Rightarrow> (nat \<Rightarrow> 'x ctx_scheme) \<Rightarrow> string \<Rightarrow> string \<Rightarrow> payment_movement_request
     \<Rightarrow> record_stage \<times> 's \<Rightarrow> record_stage \<times> 's"
where
  "record_call R cx eventID eventType request p =
     (case p of (stage, s) \<Rightarrow>
        (case stage of
           EnsureCash req \<Rightarrow>
             (case led_EnsureAccount R (cx 0) cashAccountName (mr_Currency req) DirectionDebit s of
                (Inl e, s1) \<Rightarrow> (Recorded (Inl e), s1)
              | (Inr cash, s1) \<Rightarrow> (EnsurePayable req cash, s1))
         | EnsurePayable req cash \<Rightarrow>
             (case led_EnsureAccount R (cx 1) merchantPayableAccountName (mr_Currency req) DirectionCredit s of
                (Inl e, s2) \<Rightarrow> (Recorded (Inl e), s2)
              | (Inr payable, s2) \<Rightarrow>
                  (let es = [movement_entry (cx 2) 1 cash DirectionDebit req,
                             movement_entry (cx 2) 2 payable DirectionCredit req]
                   in case ValidateBalanced (cx 2) es of
                        Some e \<Rightarrow> (Recorded (Inl e), s2)
                      | None \<Rightarrow> (WriteEntries es, s2)))
         | WriteEntries es \<Rightarrow>
             (case led_CreateTransactionOnce R (cx 2) (trim_space eventID) (trim_space eventType)
                     (trim_space (mr_PaymentID request)) es s of
                (res, s3) \<Rightarrow> (Recorded res, s3))
         | Recorded res \<Rightarrow> (Recorded res, s)))"

text \<open>Three calls in a row are the operation.\<close>

lemma record_calls:
  assumes "RecordPaymentMovementOnce R cx (\<lambda>s. s) eid et request s = (res, s')"
  shows "(record_call R cx eid et request ^^ 3) (record_start cx eid et request, s) = (Recorded res, s')"
proof (cases "\<not> uuid_parse (cx 0) (trim_space eid) \<or> trim_space et = []
    \<or> validatePaymentMovement (cx 0) (normalize_movement (cx 0) request) \<noteq> None")
  case True
  with assms have "record_start cx eid et request = Recorded res" "s' = s"
    by (auto simp: record_start_def RecordPaymentMovementOnce_def buildPaymentMovement_def Let_def split: if_splits option.splits)
  then show ?thesis by (simp add: numeral_3_eq_3 record_call_def)
next
  case False
  let ?req = "normalize_movement (cx 0) request"
  obtain r1 s1 where 1: "led_EnsureAccount R (cx 0) cashAccountName (mr_Currency ?req) DirectionDebit s = (r1, s1)" by force
  have start: "record_start cx eid et request = EnsureCash ?req"
    using False by (auto simp: record_start_def Let_def)
  show ?thesis
  proof (cases r1)
    case (Inl e)
    with False 1 assms have "res = Inl e" "s' = s1"
      by (auto simp: RecordPaymentMovementOnce_def buildPaymentMovement_def Let_def)
    with Inl 1 show ?thesis by (simp add: start numeral_3_eq_3 record_call_def)
  next
    case (Inr cash)
    obtain r2 s2 where 2: "led_EnsureAccount R (cx 1) merchantPayableAccountName (mr_Currency ?req) DirectionCredit s1 = (r2, s2)"
      by force
    show ?thesis
    proof (cases r2)
      case (Inl e)
      with False 1 2 Inr assms have "res = Inl e" "s' = s2"
        by (auto simp: RecordPaymentMovementOnce_def buildPaymentMovement_def Let_def)
      with Inl Inr 1 2 show ?thesis by (simp add: start numeral_3_eq_3 record_call_def)
    next
      case (Inr payable)
      define es where "es = [movement_entry (cx 2) 1 cash DirectionDebit ?req, movement_entry (cx 2) 2 payable DirectionCredit ?req]"
      have build: "buildPaymentMovement R cx request s = (case ValidateBalanced (cx 2) es of Some e \<Rightarrow> (Inl e, s2) | None \<Rightarrow> (Inr es, s2))"
        using False 1 2 Inr \<open>r1 = Inr cash\<close> by (simp add: buildPaymentMovement_def es_def Let_def split: option.split)
      have stages: "record_call R cx eid et request (EnsurePayable ?req cash, s1)
          = (case ValidateBalanced (cx 2) es of Some e \<Rightarrow> (Recorded (Inl e), s2) | None \<Rightarrow> (WriteEntries es, s2))"
        using 2 Inr by (simp add: record_call_def es_def Let_def split: option.split)
      have first: "record_call R cx eid et request (EnsureCash ?req, s) = (EnsurePayable ?req cash, s1)"
        using 1 \<open>r1 = Inr cash\<close> by (simp add: record_call_def)
      show ?thesis
      proof (cases "ValidateBalanced (cx 2) es")
        case None
        with False build assms
        have "led_CreateTransactionOnce R (cx 2) (trim_space eid) (trim_space et) (trim_space (mr_PaymentID request)) es s2 = (res, s')"
          by (auto simp: RecordPaymentMovementOnce_def Let_def split: prod.splits sum.splits)
        then have "record_call R cx eid et request (WriteEntries es, s2) = (Recorded res, s')" by (simp add: record_call_def)
        with None first stages show ?thesis by (simp add: start numeral_3_eq_3)
      next
        case (Some e)
        with False build assms have "res = Inl e" "s' = s2" by (auto simp: RecordPaymentMovementOnce_def Let_def)
        moreover have "record_call R cx eid et request (Recorded (Inl e), s2) = (Recorded (Inl e), s2)" by (simp add: record_call_def)
        ultimately show ?thesis using Some first stages by (simp add: start numeral_3_eq_3)
      qed
    qed
  qed
qed

section \<open>Replaying a dead letter\<close>

text \<open>The checks and the start of the audit; the message; the end of the audit.\<close>

definition replay_refused :: "string \<Rightarrow> dead_letter_record \<Rightarrow> string \<Rightarrow> string \<Rightarrow> bool" where
  "replay_refused sourceTopic record operator reason \<longleftrightarrow>
     dl_SchemaVersion record \<noteq> DeadLetterSchemaVersion \<or> dl_EventID record = []
     \<or> dl_SourceTopic record \<noteq> sourceTopic \<or> operator = [] \<or> reason = []"

definition replay_begin ::
  "('c, 's) audit_store \<Rightarrow> 'c \<Rightarrow> dead_letter_record \<Rightarrow> string \<Rightarrow> string \<Rightarrow> 's \<Rightarrow> (err + string) \<times> 's"
where
  "replay_begin A c record operator reason s =
     as_StartReplay A c
       \<lparr>rs_EventID = dl_EventID record, rs_Operator = operator, rs_Reason = reason,
        rs_Topic = dl_SourceTopic record, rs_Partition = dl_SourcePartition record,
        rs_Offset = dl_SourceOffset record\<rparr> s"

definition replay_write ::
  "string \<Rightarrow> 'c replay_env \<Rightarrow> dead_letter_record \<Rightarrow> string \<Rightarrow> kafka_message list \<Rightarrow> err option \<times> kafka_message list"
where
  "replay_write sourceTopic env record auditID log =
     (let m = replay_message sourceTopic (rp_now env) auditID record in write_message (rp_write env m) m log)"

definition replay_end :: "('c, 's) audit_store \<Rightarrow> 'c \<Rightarrow> string \<Rightarrow> err option \<Rightarrow> 's \<Rightarrow> err option \<times> 's" where
  "replay_end A c auditID failure s =
     (case failure of
        Some e \<Rightarrow> (case as_FinishReplay A c auditID False (err_text e) s of
                    (_, s') \<Rightarrow> (Some (wrap ''republish dead-letter event'' e), s'))
      | None \<Rightarrow> (case as_FinishReplay A c auditID True [] s of
                    (Some e, s') \<Rightarrow> (Some (wrap ''record successful dead-letter replay'' e), s')
                  | (None, s') \<Rightarrow> (None, s')))"

lemma replay_calls:
  assumes "\<not> replay_refused sourceTopic r operator reason"
  shows "Replay A sourceTopic env r operator reason st =
    (case replay_begin A (rp_start env) r operator reason (rp_store st) of
       (Inl e, s1) \<Rightarrow> (Some e, st\<lparr>rp_store := s1\<rparr>)
     | (Inr auditID, s1) \<Rightarrow>
         (case replay_write sourceTopic env r auditID (rp_log st) of
            (failure, log) \<Rightarrow>
              (case replay_end A (rp_finish env) auditID failure s1 of
                 (res, s2) \<Rightarrow> (res, st\<lparr>rp_store := s2, rp_log := log\<rparr>))))"
  using assms
  by (auto simp: Replay_def replay_refused_def replay_begin_def replay_write_def replay_end_def Let_def
      split: option.split prod.split sum.split)

lemma replay_refused_changes_nothing:
  assumes "replay_refused sourceTopic r operator reason"
  shows "snd (Replay A sourceTopic env r operator reason st) = st"
  using assms by (auto simp: Replay_def replay_refused_def)

end
