(* ===== verification/Concurrent_Flow.thy ===== *)
theory Concurrent_Flow
  imports End_To_End Call_Stages
begin

text \<open>
  The two services with any number of consumers and replays at work at once. A step is one call: a
  transaction of the payment service, of a consumer or of a replay, or a message written to the topic. Between
  two calls of an operation all others may run.
\<close>

section \<open>Threads\<close>

text \<open>
  What an operation holds between two of its calls. A consumer that retries, or a second consumer that is handed the
  same message, is another delivery; a crash or an error ends the thread.
\<close>

datatype thread =
    Recording "nat \<Rightarrow> ctx" string string payment_movement_request record_stage
  | Publishing "ctx replay_env" dead_letter_record string
  | Finishing "ctx replay_env" string "err option"

record world =
  wd_pay :: pay_system
  wd_ledger :: led_db
  wd_threads :: "nat \<Rightarrow> thread option"

definition initial_world :: world where
  "initial_world = \<lparr>wd_pay = initial_system, wd_ledger = empty_led_db, wd_threads = (\<lambda>_. None)\<rparr>"

inductive world_step :: "lib \<Rightarrow> string \<Rightarrow> world \<Rightarrow> world \<Rightarrow> bool" for L topic where
  payment: "pay_step L topic (wd_pay w) s' \<Longrightarrow> world_step L topic w (w\<lparr>wd_pay := s'\<rparr>)"
| deliver: "\<lbrakk>wd_threads w i = None; delivers (ps_log (wd_pay w)) m; \<forall>k. lib.truncate (cx k) = L;
      headerValue (km_Headers m) ''event_id'' \<noteq> []; headerValue (km_Headers m) ''event_type'' = PaymentCreatedEventName;
      decode_payment_created L (km_Value m) = Some pc\<rbrakk>
    \<Longrightarrow> world_step L topic w
          (w\<lparr>wd_threads := (wd_threads w)(i \<mapsto> Recording cx (headerValue (km_Headers m) ''event_id'') PaymentCreatedEventName (movement_of pc)
             (record_start cx (headerValue (km_Headers m) ''event_id'') PaymentCreatedEventName (movement_of pc)))\<rparr>)"
| call: "\<lbrakk>wd_threads w i = Some (Recording cx eid et mv stage);
      record_call PostgresLedgerRepository cx eid et mv (stage, wd_ledger w) = (stage', db)\<rbrakk>
    \<Longrightarrow> world_step L topic w (w\<lparr>wd_ledger := db, wd_threads := (wd_threads w)(i \<mapsto> Recording cx eid et mv stage')\<rparr>)"
| replay: "\<lbrakk>wd_threads w i = None; delivers (ps_log (wd_pay w)) m;
      lib.truncate (rp_start env) = L; lib.truncate (rp_finish env) = L;
      \<not> replay_refused topic (dead_letter_of m cause n j) operator reason;
      replay_begin PostgresAuditStore (rp_start env) (dead_letter_of m cause n j) operator reason (wd_ledger w) = (r, db)\<rbrakk>
    \<Longrightarrow> world_step L topic w
          (w\<lparr>wd_ledger := db, wd_threads := (wd_threads w)(i := (case r of Inl e \<Rightarrow> None | Inr a \<Rightarrow> Some (Publishing env (dead_letter_of m cause n j) a)))\<rparr>)"
| republish: "\<lbrakk>wd_threads w i = Some (Publishing env dl a); replay_write topic env dl a (ps_log (wd_pay w)) = (failure, log)\<rbrakk>
    \<Longrightarrow> world_step L topic w (w\<lparr>wd_pay := (wd_pay w)\<lparr>ps_log := log\<rparr>, wd_threads := (wd_threads w)(i \<mapsto> Finishing env a failure)\<rparr>)"
| audited: "\<lbrakk>wd_threads w i = Some (Finishing env a failure); replay_end PostgresAuditStore (rp_finish env) a failure (wd_ledger w) = (res, db)\<rbrakk>
    \<Longrightarrow> world_step L topic w (w\<lparr>wd_ledger := db, wd_threads := (wd_threads w)(i := None)\<rparr>)"
| gone: "world_step L topic w (w\<lparr>wd_threads := (wd_threads w)(i := None)\<rparr>)"

abbreviation world_steps :: "lib \<Rightarrow> string \<Rightarrow> world \<Rightarrow> world \<Rightarrow> bool" where
  "world_steps L topic \<equiv> (world_step L topic)\<^sup>*\<^sup>*"

inductive_cases world_stepE: "world_step L topic w w'"

section \<open>What a thread relies on\<close>

definition ensured :: "account list \<Rightarrow> string \<Rightarrow> payment_movement_request \<Rightarrow> account \<Rightarrow> bool" where
  "ensured as name req a \<longleftrightarrow> a \<in> set as \<and> a_Name a = name \<and> pg_char3 (mr_Currency req) = Some (a_Currency a)"

definition checked :: "(nat \<Rightarrow> ctx) \<Rightarrow> payment_movement_request \<Rightarrow> payment_movement_request \<Rightarrow> bool" where
  "checked cx mv req \<longleftrightarrow> req = normalize_movement (cx 0) mv \<and> 0 < sint (mr_AmountCents req)"

fun stage_ok :: "(nat \<Rightarrow> ctx) \<Rightarrow> payment_movement_request \<Rightarrow> account list \<Rightarrow> record_stage \<Rightarrow> bool" where
  "stage_ok cx mv as (EnsureCash req) = checked cx mv req"
| "stage_ok cx mv as (EnsurePayable req cash) = (checked cx mv req \<and> ensured as cashAccountName req cash)"
| "stage_ok cx mv as (WriteEntries es) = (\<exists>req cash payable. checked cx mv req \<and> ensured as cashAccountName req cash
     \<and> ensured as merchantPayableAccountName req payable
     \<and> es = [movement_entry (cx 2) 1 cash DirectionDebit req, movement_entry (cx 2) 2 payable DirectionCredit req])"
| "stage_ok cx mv as (Recorded res) = True"

lemma ensured_mono: "ensured as name req a \<Longrightarrow> set as \<subseteq> set as' \<Longrightarrow> ensured as' name req a"
  by (auto simp: ensured_def)

lemma stage_ok_mono: "stage_ok cx mv as st \<Longrightarrow> set as \<subseteq> set as' \<Longrightarrow> stage_ok cx mv as' st"
  by (cases st) (auto dest: ensured_mono, metis ensured_mono)

lemma record_start_ok: "stage_ok cx mv as (record_start cx eid et mv)"
  by (auto simp: record_start_def Let_def checked_def validatePaymentMovement_None split: option.split)

text \<open>Every movement under way is that of a payment.created row; every replay that of a row.\<close>

fun thread_ok :: "lib \<Rightarrow> string \<Rightarrow> pay_db \<Rightarrow> account list \<Rightarrow> thread \<Rightarrow> bool" where
  "thread_ok L topic pdb as (Recording cx eid et mv st) =
     ((\<forall>k. lib.truncate (cx k) = L) \<and> stage_ok cx mv as st
      \<and> (\<exists>e \<in> set (outbox pdb). ob_id e = eid \<and> ob_event_type e = PaymentCreatedEvent
           \<and> (\<exists>pc. decode_payment_created L (ob_payload e) = Some pc \<and> mv = movement_of pc)))"
| "thread_ok L topic pdb as (Publishing env dl a) =
     (\<exists>e \<in> set (outbox pdb). \<forall>a. carries topic (row_event e) (replay_message topic (rp_now env) a dl))"
| "thread_ok L topic pdb as (Finishing env a failure) = True"

definition threads_ok :: "lib \<Rightarrow> string \<Rightarrow> pay_db \<Rightarrow> account list \<Rightarrow> (nat \<Rightarrow> thread option) \<Rightarrow> bool" where
  "threads_ok L topic pdb as ts \<longleftrightarrow> (\<forall>i t. ts i = Some t \<longrightarrow> thread_ok L topic pdb as t)"

lemma thread_ok_mono:
  assumes "thread_ok L topic pdb as t" and "outbox_grows pdb pdb'" and "set as \<subseteq> set as'"
  shows "thread_ok L topic pdb' as' t"
proof -
  have same: "row_content x = row_content y \<Longrightarrow> ob_id x = ob_id y \<and> ob_event_type x = ob_event_type y \<and> ob_payload x = ob_payload y" for x y
    by (simp add: row_content_def)
  show ?thesis
  proof (cases t)
    case (Recording cx eid et mv st)
    with assms(1) obtain e where e: "e \<in> set (outbox pdb)" "ob_id e = eid" "ob_event_type e = PaymentCreatedEvent"
      "\<exists>pc. decode_payment_created L (ob_payload e) = Some pc \<and> mv = movement_of pc" by auto
    obtain e' where "e' \<in> set (outbox pdb')" "row_content e' = row_content e" by (rule outbox_growsE [OF assms(2) e(1)])
    with e same [of e' e] have "\<exists>e \<in> set (outbox pdb'). ob_id e = eid \<and> ob_event_type e = PaymentCreatedEvent
        \<and> (\<exists>pc. decode_payment_created L (ob_payload e) = Some pc \<and> mv = movement_of pc)" by (intro bexI [of _ e']) auto
    with assms(1) Recording stage_ok_mono [OF _ assms(3)] show ?thesis by simp
  next
    case (Publishing env dl a)
    with assms(1) obtain e where e: "e \<in> set (outbox pdb)" "\<forall>a. carries topic (row_event e) (replay_message topic (rp_now env) a dl)" by auto
    obtain e' where "e' \<in> set (outbox pdb')" "row_content e' = row_content e" by (rule outbox_growsE [OF assms(2) e(1)])
    with e(2) carries_row_content [of e' e] Publishing show ?thesis by auto
  qed simp
qed

lemma threads_ok_mono:
  assumes "threads_ok L topic pdb as ts" and "outbox_grows pdb pdb'" and "set as \<subseteq> set as'"
    and "\<And>i t. ts' i = Some t \<Longrightarrow> ts i = Some t \<or> thread_ok L topic pdb' as' t"
  shows "threads_ok L topic pdb' as' ts'"
  using assms thread_ok_mono unfolding threads_ok_def by metis

section \<open>One call of a movement\<close>

lemma record_call_step:
  assumes run: "record_call PostgresLedgerRepository cx (ob_id e) et (movement_of pc) (st, db) = (st', db')"
    and stage: "stage_ok cx (movement_of pc) (accounts db) st" and lib: "\<forall>k. lib.truncate (cx k) = L"
    and pay: "pay_inv L pdb" "outbox_canonical L pdb" "payments_canonical L pdb"
    and uuids: "uuid_text L" and json: "payload_decodes L"
    and e: "e \<in> set (outbox pdb)" "ob_event_type e = PaymentCreatedEvent"
    and dec: "decode_payment_created L (ob_payload e) = Some pc"
    and inv: "led_inv L db"
  shows "led_inv L db' \<and> ledger_delta pdb e db db' \<and> set (accounts db) \<subseteq> set (accounts db')
    \<and> stage_ok cx (movement_of pc) (accounts db') st'"
proof -
  have canon: "\<forall>x u. pg_uuid L x = Some u \<longrightarrow> pg_uuid L u = Some u" using uuids by (simp add: uuid_text_def)
  have lib': "lib.truncate (cx k) = lib.truncate L" for k using lib by (simp add: lib.defs)
  have ens: "led_inv L s' \<and> ledger_delta pdb e db s' \<and> set (accounts db) \<subseteq> set (accounts s')
      \<and> (\<forall>a. r = Inr a \<longrightarrow> ensured (accounts s') name req a)"
    if "EnsureAccount (cx i) name (mr_Currency req) nb db = (r, s')"
      "(name, nb) \<in> {(cashAccountName, DirectionDebit), (merchantPayableAccountName, DirectionCredit)}" for i name req nb r s'
  proof -
    note g = EnsureAccount_grows [OF that(1)]
    have "led_inv L s'" by (rule grows_inv [OF g inv that(2) lib' canon])
    moreover have "\<forall>a. r = Inr a \<longrightarrow> ensured (accounts s') name req a"
      using EnsureAccount_Inr [of "cx i"] that(1) by (auto simp: ensured_def)
    ultimately show ?thesis using grows_facts [OF g] by (simp add: ledger_delta_def seen_events_def)
  qed
  show ?thesis
  proof (cases st)
    case (EnsureCash req)
    obtain r s' where c: "EnsureAccount (cx 0) cashAccountName (mr_Currency req) DirectionDebit db = (r, s')" by force
    with ens [OF c] run stage EnsureCash show ?thesis by (cases r) (auto simp: record_call_def)
  next
    case (EnsurePayable req cash)
    obtain r s' where c: "EnsureAccount (cx 1) merchantPayableAccountName (mr_Currency req) DirectionCredit db = (r, s')" by force
    note f = ens [OF c, simplified]
    have cash: "ensured (accounts s') cashAccountName req cash" using stage EnsurePayable f ensured_mono by auto
    show ?thesis
    proof (cases r)
      case (Inl er)
      with run EnsurePayable c f show ?thesis by (auto simp: record_call_def)
    next
      case (Inr payable)
      have "st' = WriteEntries [movement_entry (cx 2) 1 cash DirectionDebit req, movement_entry (cx 2) 2 payable DirectionCredit req]
          \<or> (\<exists>er. st' = Recorded (Inl er))" "db' = s'"
        using run EnsurePayable c Inr by (auto simp: record_call_def Let_def split: option.splits)
      moreover have "stage_ok cx (movement_of pc) (accounts s')
          (WriteEntries [movement_entry (cx 2) 1 cash DirectionDebit req, movement_entry (cx 2) 2 payable DirectionCredit req])"
        by (simp only: stage_ok.simps, intro exI [of _ req] exI [of _ cash] exI [of _ payable]) (use stage EnsurePayable cash f Inr in simp)
      ultimately show ?thesis using f by (elim disjE exE) (simp_all del: stage_ok.simps(3))
    qed
  next
    case (WriteEntries es)
    from stage WriteEntries obtain req cash payable where w: "checked cx (movement_of pc) req"
      "ensured (accounts db) cashAccountName req cash" "ensured (accounts db) merchantPayableAccountName req payable"
      "es = [movement_entry (cx 2) 1 cash DirectionDebit req, movement_entry (cx 2) 2 payable DirectionCredit req]" by auto
    obtain res where c: "CreateTransactionOnce (cx 2) (trim_space (ob_id e)) (trim_space et) (trim_space (mr_PaymentID (movement_of pc))) es db
        = (res, db')" "st' = Recorded res" using run WriteEntries by (auto simp: record_call_def split: prod.splits)
    have "accounts_ok L (accounts db)" using inv by (simp add: led_inv_def)
    then have del: "delivery L (ob_id e) (movement_of pc) db res db'"
      by (intro written_delivery [OF c(1) w(4)]) (use w(1-3) lib' in \<open>auto simp: ensured_def checked_def normalize_movement_def\<close>)
    have "accounts db' = accounts db" using del by (simp add: delivery_def)
    with delivery_inv [OF del inv] delivery_delta [OF del pay uuids json e dec] c(2) show ?thesis by simp
  next
    case (Recorded res)
    with run inv show ?thesis by (auto simp: record_call_def)
  qed
qed

section \<open>The invariant\<close>

definition flow_of :: "world \<Rightarrow> flow" where
  "flow_of w = \<lparr>fl_pay = wd_pay w,
     fl_cons = \<lparr>cs_ledger = wd_ledger w, cs_dead_letters = [], cs_committed = [], cs_metrics = []\<rparr>\<rparr>"

lemma flow_of_simps [simp]:
  "fl_pay (flow_of w) = wd_pay w" "cs_ledger (fl_cons (flow_of w)) = wd_ledger w"
  by (simp_all add: flow_of_def)

lemma flow_of_initial: "flow_of initial_world = initial_flow"
  by (simp add: flow_of_def initial_world_def initial_flow_def)

definition world_inv :: "lib \<Rightarrow> string \<Rightarrow> world \<Rightarrow> bool" where
  "world_inv L topic w \<longleftrightarrow> flow_inv L topic (flow_of w)
     \<and> threads_ok L topic (ps_db (wd_pay w)) (accounts (wd_ledger w)) (wd_threads w)"

lemma world_inv_initial: "world_inv L topic initial_world"
  unfolding world_inv_def flow_of_initial using flow_inv_initial by (simp add: threads_ok_def initial_world_def)

text \<open>What a step does to the two databases and the topic, in the terms of the flow.\<close>

lemma world_step_effect:
  assumes step: "world_step L topic w w'" and inv: "world_inv L topic w"
    and uuids: "uuid_text L" and json: "payload_decodes L"
  obtains (paid) "pay_step L topic (wd_pay w) (wd_pay w')" "wd_ledger w' = wd_ledger w" "wd_threads w' = wd_threads w"
  | (recorded) e where "wd_pay w' = wd_pay w" "e \<in> set (outbox (ps_db (wd_pay w)))"
      "ledger_delta (ps_db (wd_pay w)) e (wd_ledger w) (wd_ledger w')" "led_inv L (wd_ledger w')"
      "threads_ok L topic (ps_db (wd_pay w)) (accounts (wd_ledger w')) (wd_threads w')"
  | (replayed) log where "wd_pay w' = (wd_pay w)\<lparr>ps_log := log\<rparr>" "same_ledger (wd_ledger w) (wd_ledger w')"
      "set (ps_log (wd_pay w)) \<subseteq> set log"
      "\<forall>m \<in> set log. m \<in> set (ps_log (wd_pay w)) \<or> (\<exists>e \<in> set (outbox (ps_db (wd_pay w))). carries topic (row_event e) m)"
      "threads_ok L topic (ps_db (wd_pay w)) (accounts (wd_ledger w')) (wd_threads w')"
proof -
  let ?pdb = "ps_db (wd_pay w)"
  have sys: "sys_inv L topic (wd_pay w)" "payments_canonical L ?pdb" "log_carries topic (wd_pay w)"
    and led: "led_inv L (wd_ledger w)" and ts: "threads_ok L topic ?pdb (accounts (wd_ledger w)) (wd_threads w)"
    using inv by (simp_all add: world_inv_def flow_inv_def)
  have pay: "pay_inv L ?pdb" "outbox_canonical L ?pdb" using sys(1) by (simp_all add: sys_inv_def)
  have source: "\<exists>e \<in> set (outbox ?pdb). carries topic (row_event e) m" if "delivers (ps_log (wd_pay w)) m" for m
    using that sys(3) unfolding delivers_def log_carries_def carries_def by metis
  have keep: "threads_ok L topic ?pdb as (wd_threads w')"
    if "set (accounts (wd_ledger w)) \<subseteq> set as" "\<And>i t. wd_threads w' i = Some t \<Longrightarrow> wd_threads w i = Some t \<or> thread_ok L topic ?pdb as t" for as
    by (rule threads_ok_mono [OF ts _ that]) (simp_all add: outbox_grows_def)
  have quiet: thesis if "wd_pay w' = wd_pay w" "same_ledger (wd_ledger w) (wd_ledger w')"
      "\<And>i t. wd_threads w' i = Some t \<Longrightarrow> wd_threads w i = Some t \<or> thread_ok L topic ?pdb (accounts (wd_ledger w')) t"
    by (rule replayed [of "ps_log (wd_pay w)"]) (use that keep in \<open>simp_all add: same_ledger_def\<close>)
  from step show thesis
  proof cases
    case (payment s')
    then show thesis by (intro paid) simp_all
  next
    case (deliver i m cx pc)
    obtain e where e: "e \<in> set (outbox ?pdb)" "carries topic (row_event e) m" using source [OF deliver(3)] by blast
    have h: "headerValue (km_Headers m) ''event_id'' = ob_id e" "headerValue (km_Headers m) ''event_type'' = ob_event_type e" "km_Value m = ob_payload e"
      using e(2) by (simp_all add: carries_def row_event_def)
    have "thread_ok L topic ?pdb (accounts (wd_ledger w)) (Recording cx (headerValue (km_Headers m) ''event_id'') PaymentCreatedEventName (movement_of pc)
        (record_start cx (headerValue (km_Headers m) ''event_id'') PaymentCreatedEventName (movement_of pc)))"
      using deliver(4,6,7) e(1) h record_start_ok created_names by auto
    then show thesis by (intro quiet) (use deliver(1) in \<open>auto simp: same_ledger_def simp del: thread_ok.simps split: if_splits\<close>)
  next
    case (call i cx eid et mv st st' db)
    from ts call(2) have t: "thread_ok L topic ?pdb (accounts (wd_ledger w)) (Recording cx eid et mv st)" unfolding threads_ok_def by blast
    then obtain e pc where e: "e \<in> set (outbox ?pdb)" "ob_id e = eid" "ob_event_type e = PaymentCreatedEvent"
      "decode_payment_created L (ob_payload e) = Some pc" "mv = movement_of pc" by auto
    have eff: "led_inv L db \<and> ledger_delta ?pdb e (wd_ledger w) db \<and> set (accounts (wd_ledger w)) \<subseteq> set (accounts db)
        \<and> stage_ok cx (movement_of pc) (accounts db) st'"
      by (rule record_call_step [OF _ _ _ pay sys(2) uuids json e(1,3,4) led]) (use call(3) t e in auto)
    have "thread_ok L topic ?pdb (accounts db) (Recording cx eid et mv st')" using t e eff by auto
    then have "threads_ok L topic ?pdb (accounts db) (wd_threads w')"
      by (intro keep) (use call(1) eff in \<open>auto simp del: thread_ok.simps split: if_splits\<close>)
    with call(1) e(1) eff show thesis by (intro recorded [of e]) simp_all
  next
    case (replay i m env cause n j operator reason r db)
    obtain e where e: "e \<in> set (outbox ?pdb)" "carries topic (row_event e) m" using source [OF replay(3)] by blast
    have "dl_SourceTopic (dead_letter_of m cause n j) = topic" using replay(6) by (auto simp: replay_refused_def)
    then have "\<forall>a. carries topic (row_event e) (replay_message topic (rp_now env) a (dead_letter_of m cause n j))"
      using replay_carries [OF e(2)] by blast
    with e(1) have p: "thread_ok L topic ?pdb as (Publishing env (dead_letter_of m cause n j) a)" for as a by auto
    have "same_ledger (wd_ledger w) db"
      using StartReplay_ledger replay(7) by (auto simp: replay_begin_def)
    then show thesis by (intro quiet) (use replay(1) p in \<open>auto simp del: thread_ok.simps split: if_splits sum.splits\<close>)
  next
    case (republish i env dl a failure log)
    from ts republish(2) have "thread_ok L topic ?pdb (accounts (wd_ledger w)) (Publishing env dl a)" unfolding threads_ok_def by blast
    then obtain e where e: "e \<in> set (outbox ?pdb)" "carries topic (row_event e) (replay_message topic (rp_now env) a dl)" by auto
    have log: "log = ps_log (wd_pay w) \<or> log = ps_log (wd_pay w) @ [replay_message topic (rp_now env) a dl]"
      using republish(3) write_message_cases by (auto simp: replay_write_def Let_def)
    have "threads_ok L topic ?pdb (accounts (wd_ledger w)) (wd_threads w')"
      by (rule keep) (use republish(1) in \<open>auto split: if_splits\<close>)
    with republish(1) log e show thesis by (intro replayed [of log]) (auto simp: same_ledger_def)
  next
    case (audited i env a failure res db)
    have "same_ledger (wd_ledger w) db"
      using audited(3) FinishReplay_ledger by (auto simp: replay_end_def split: option.splits prod.splits)
    then show thesis by (intro quiet) (use audited(1) in \<open>auto split: if_splits\<close>)
  next
    case (gone i)
    then show thesis by (intro quiet) (auto simp: same_ledger_def split: if_splits)
  qed
qed

lemma world_inv_step:
  assumes step: "world_step L topic w w'" and inv: "world_inv L topic w"
    and uuids: "uuid_text L" and json: "payload_decodes L"
  shows "world_inv L topic w'"
proof -
  note canon = uuid_text_canonical [OF uuids]
  have sys: "sys_inv L topic (wd_pay w)" "payments_canonical L (ps_db (wd_pay w))" "log_carries topic (wd_pay w)"
    and led: "led_inv L (wd_ledger w)" "entries_match (ps_db (wd_pay w)) (wd_ledger w)"
    and ts: "threads_ok L topic (ps_db (wd_pay w)) (accounts (wd_ledger w)) (wd_threads w)"
    using inv by (simp_all add: world_inv_def flow_inv_def)
  from step inv uuids json show ?thesis
  proof (cases rule: world_step_effect)
    case paid
    note flow = pay_step_flow [OF paid(1) sys(1) canon sys(2,3)]
    have "threads_ok L topic (ps_db (wd_pay w')) (accounts (wd_ledger w)) (wd_threads w)"
      by (rule threads_ok_mono [OF ts]) (use flow in auto)
    with flow sys_inv_step [OF paid(1) sys(1) canon] pay_step_kept [OF paid(1) sys(1)] led entries_match_grows [OF led(2)] paid(2,3)
    show ?thesis by (simp add: world_inv_def flow_inv_def)
  next
    case (recorded e)
    with delta_matches [OF recorded(3,2) led(2)] sys show ?thesis by (simp add: world_inv_def flow_inv_def)
  next
    case (replayed log)
    have "sys_inv L topic ((wd_pay w)\<lparr>ps_log := log\<rparr>)"
      using sys(1) replayed(3) published_in_mono by (auto simp: sys_inv_def)
    moreover have "log_carries topic ((wd_pay w)\<lparr>ps_log := log\<rparr>)"
      using replayed(4) sys(3) unfolding log_carries_def by auto
    moreover have "led_inv L (wd_ledger w')" "entries_match (ps_db (wd_pay w)) (wd_ledger w')"
      using led replayed(2) by (simp_all add: led_inv_def entries_match_def same_ledger_def seen_events_def)
    ultimately show ?thesis using replayed(1,5) sys(2) by (simp add: world_inv_def flow_inv_def)
  qed
qed

lemma world_inv_steps:
  "world_steps L topic w w' \<Longrightarrow> world_inv L topic w \<Longrightarrow> uuid_text L \<Longrightarrow> payload_decodes L \<Longrightarrow> world_inv L topic w'"
  by (induction rule: rtranclp_induct) (auto intro: world_inv_step)

section \<open>One delivery at a time is a special case\<close>

definition world_of :: "flow \<Rightarrow> world" where
  "world_of w = \<lparr>wd_pay = fl_pay w, wd_ledger = cs_ledger (fl_cons w), wd_threads = (\<lambda>_. None)\<rparr>"

lemma steps_between: "\<lbrakk>R a b; R\<^sup>*\<^sup>* b c; R c d; d = e\<rbrakk> \<Longrightarrow> R\<^sup>*\<^sup>* a e"
  by (meson converse_rtranclp_into_rtranclp rtranclp.rtrancl_into_rtrancl)

lemma calls_steps:
  assumes "wd_threads w i = Some (Recording cx eid et mv st)"
    and "(record_call PostgresLedgerRepository cx eid et mv ^^ n) (st, wd_ledger w) = (st', db)"
  shows "world_steps L topic w (w\<lparr>wd_ledger := db, wd_threads := (wd_threads w)(i \<mapsto> Recording cx eid et mv st')\<rparr>)"
  using assms(2)
proof (induction n arbitrary: st' db)
  case 0
  with assms(1) have same: "w\<lparr>wd_ledger := db, wd_threads := (wd_threads w)(i \<mapsto> Recording cx eid et mv st')\<rparr> = w"
    by (simp add: fun_upd_idem)
  show ?case unfolding same by simp
next
  case (Suc n)
  obtain st1 db1 where 1: "(record_call PostgresLedgerRepository cx eid et mv ^^ n) (st, wd_ledger w) = (st1, db1)" by force
  let ?w1 = "w\<lparr>wd_ledger := db1, wd_threads := (wd_threads w)(i \<mapsto> Recording cx eid et mv st1)\<rparr>"
  have "record_call PostgresLedgerRepository cx eid et mv (st1, wd_ledger ?w1) = (st', db)" using Suc.prems 1 by simp
  from world_step.call [of ?w1 i, OF _ this]
  have last: "world_step L topic ?w1 (w\<lparr>wd_ledger := db, wd_threads := (wd_threads w)(i \<mapsto> Recording cx eid et mv st')\<rparr>)" by simp
  show ?case by (rule rtranclp.rtrancl_into_rtrancl [OF Suc.IH [OF 1] last])
qed

lemma record_steps:
  fixes cx :: "nat \<Rightarrow> ctx"
  assumes idle: "wd_threads w i = None" and m: "delivers (ps_log (wd_pay w)) m" and lib: "\<forall>k. lib.truncate (cx k) = L"
    and h: "headerValue (km_Headers m) ''event_id'' \<noteq> []" "headerValue (km_Headers m) ''event_type'' = PaymentCreatedEventName"
    and dec: "decode_payment_created L (km_Value m) = Some pc"
    and run: "RecordPaymentMovementOnce PostgresLedgerRepository cx (\<lambda>s. s) (headerValue (km_Headers m) ''event_id'')
        PaymentCreatedEventName (movement_of pc) (wd_ledger w) = (res, db)"
  shows "world_steps L topic w (w\<lparr>wd_ledger := db\<rparr>)"
proof -
  let ?eid = "headerValue (km_Headers m) ''event_id''"
  let ?t = "Recording cx ?eid PaymentCreatedEventName (movement_of pc)"
  let ?st = "record_start cx ?eid PaymentCreatedEventName (movement_of pc)"
  let ?w1 = "w\<lparr>wd_threads := (wd_threads w)(i \<mapsto> ?t ?st)\<rparr>"
  let ?w2 = "?w1\<lparr>wd_ledger := db, wd_threads := (wd_threads ?w1)(i \<mapsto> ?t (Recorded res))\<rparr>"
  have calls: "world_steps L topic ?w1 ?w2"
    by (rule calls_steps [where st = ?st and n = 3]) (use record_calls [OF run] in simp_all)
  show ?thesis
    by (rule steps_between [where R = "world_step L topic", OF world_step.deliver [OF idle m lib h dec] calls world_step.gone [where i = i]])
      (use idle in \<open>simp add: fun_upd_idem\<close>)
qed

lemma handle_steps:
  fixes c :: "(nat \<Rightarrow> ctx) \<times> (led_db \<Rightarrow> led_db)"
  assumes "wd_threads w i = None" and "delivers (ps_log (wd_pay w)) m"
    and env: "\<forall>k. lib.truncate (fst c k) = L" "snd c = (\<lambda>s. s)"
  shows "world_steps L topic w (w\<lparr>wd_ledger := fst (snd (HandleMessage L postgres_port c m (wd_ledger w)))\<rparr>)"
proof (cases "headerValue (km_Headers m) ''event_id'' \<noteq> [] \<and> headerValue (km_Headers m) ''event_type'' = PaymentCreatedEventName
    \<and> decode_payment_created L (km_Value m) \<noteq> None")
  case False
  then have "fst (snd (HandleMessage L postgres_port c m (wd_ledger w))) = wd_ledger w"
    by (auto simp: HandleMessage_def handlePaymentCreated_def Let_def)
  then show ?thesis by simp
next
  case True
  then obtain pc where pc: "decode_payment_created L (km_Value m) = Some pc" by blast
  obtain res db where run: "RecordPaymentMovementOnce PostgresLedgerRepository (fst c) (\<lambda>s. s) (headerValue (km_Headers m) ''event_id'')
      PaymentCreatedEventName (movement_of pc) (wd_ledger w) = (res, db)" by force
  then have "fst (snd (HandleMessage L postgres_port c m (wd_ledger w))) = db"
    using True pc env(2) by (auto simp: HandleMessage_def handlePaymentCreated_def postgres_port_def Let_def split: sum.split prod.split)
  with record_steps [OF assms(1,2) env(1) _ _ pc run] True show ?thesis by simp
qed

lemma replay_steps:
  fixes env :: "ctx replay_env"
  assumes idle: "wd_threads w i = None" and m: "delivers (ps_log (wd_pay w)) m"
    and lib: "lib.truncate (rp_start env) = L" "lib.truncate (rp_finish env) = L"
    and run: "Replay PostgresAuditStore topic env (dead_letter_of m cause n j) operator reason
        \<lparr>rp_store = wd_ledger w, rp_log = ps_log (wd_pay w)\<rparr> = (res, \<lparr>rp_store = db, rp_log = log\<rparr>)"
  shows "world_steps L topic w (w\<lparr>wd_pay := (wd_pay w)\<lparr>ps_log := log\<rparr>, wd_ledger := db\<rparr>)"
proof (cases "replay_refused topic (dead_letter_of m cause n j) operator reason")
  case True
  from replay_refused_changes_nothing [OF True, of PostgresAuditStore env] run
  have "snd (Replay PostgresAuditStore topic env (dead_letter_of m cause n j) operator reason
        \<lparr>rp_store = wd_ledger w, rp_log = ps_log (wd_pay w)\<rparr>) = \<lparr>rp_store = wd_ledger w, rp_log = ps_log (wd_pay w)\<rparr>" by blast
  with run show ?thesis by simp
next
  case False
  let ?dl = "dead_letter_of m cause n j"
  obtain r s1 where 1: "replay_begin PostgresAuditStore (rp_start env) ?dl operator reason (wd_ledger w) = (r, s1)" by force
  note first = world_step.replay [OF idle m lib False 1]
  show ?thesis
  proof (cases r)
    case (Inl e)
    with run 1 have "db = s1" "log = ps_log (wd_pay w)" by (auto simp: replay_calls [OF False])
    with first Inl idle show ?thesis by (simp add: fun_upd_idem r_into_rtranclp)
  next
    case (Inr a)
    obtain f log1 where 2: "replay_write topic env ?dl a (ps_log (wd_pay w)) = (f, log1)" by force
    obtain res2 s2 where 3: "replay_end PostgresAuditStore (rp_finish env) a f s1 = (res2, s2)" by force
    have out: "db = s2" "log = log1" using run 1 2 3 Inr by (auto simp: replay_calls [OF False])
    let ?w1 = "w\<lparr>wd_ledger := s1, wd_threads := (wd_threads w)(i \<mapsto> Publishing env ?dl a)\<rparr>"
    let ?w2 = "?w1\<lparr>wd_pay := (wd_pay ?w1)\<lparr>ps_log := log1\<rparr>, wd_threads := (wd_threads ?w1)(i \<mapsto> Finishing env a f)\<rparr>"
    let ?w3 = "?w2\<lparr>wd_ledger := s2, wd_threads := (wd_threads ?w2)(i := None)\<rparr>"
    have s1: "world_step L topic w ?w1" using first Inr by simp
    have "world_step L topic ?w1 ?w2" by (rule world_step.republish) (use 2 in simp_all)
    then have s2: "world_steps L topic ?w1 ?w2" ..
    have s3: "world_step L topic ?w2 ?w3" by (rule world_step.audited) (use 3 in simp_all)
    have same: "?w3 = w\<lparr>wd_pay := (wd_pay w)\<lparr>ps_log := log\<rparr>, wd_ledger := db\<rparr>"
      by (rule world.equality) (simp_all add: idle out fun_upd_idem)
    show ?thesis
      by (rule steps_between [where R = "world_step L topic", OF s1 s2 s3 same])
  qed
qed

lemma flow_step_in_world:
  assumes "flow_step L topic cfg w w'"
  shows "world_steps L topic (world_of w) (world_of w')"
  using assms
proof cases
  case (payment s')
  from world_step.payment [of L topic "world_of w" s'] payment show ?thesis
    by (simp add: world_of_def r_into_rtranclp)
next
  case (consume m env cancel dle commit e c')
  let ?P = "\<lambda>db. world_steps L topic (world_of w) ((world_of w)\<lparr>wd_ledger := db\<rparr>)"
  have "?P (fst (snd (HandleMessage L postgres_port (env k) m db)))" if "?P db" for k db
    using that handle_steps [of "(world_of w)\<lparr>wd_ledger := db\<rparr>" 0 m "env k" L topic] consume(2,3)
    by (auto simp: world_of_def)
  moreover have "?P (cs_ledger (fl_cons w))" by (simp add: world_of_def)
  ultimately have "?P (cs_ledger c')"
    using consume_turn_keeps [of ?P L postgres_port env m "fl_cons w", OF _ _ consume(4)] by blast
  with consume(1) show ?thesis by (simp add: world_of_def)
next
  case (replay m env' cause n j operator reason res db log)
  from replay_steps [of "world_of w" 0 m env', OF _ _ replay(3,4)] replay(1,2,5) show ?thesis
    by (simp add: world_of_def)
qed

lemma flow_in_world: "flow_steps L topic cfg w w' \<Longrightarrow> world_steps L topic (world_of w) (world_of w')"
  by (induction rule: rtranclp_induct) (auto intro: rtranclp_trans flow_step_in_world)

lemma world_of_initial: "world_of initial_flow = initial_world"
  by (simp add: world_of_def initial_flow_def initial_world_def)

end
