(* ===== verification/Concurrent_Samples.thy ===== *)
theory Concurrent_Samples
  imports Concurrent_Flow Flow_Samples
begin

text \<open>
  Two consumers that are handed the same message, as after a rebalance, and take turns call by call.
\<close>

section \<open>Taking turns\<close>

fun interleave ::
  "('a \<times> 's \<Rightarrow> 'a \<times> 's) \<Rightarrow> ('a \<times> 's \<Rightarrow> 'a \<times> 's) \<Rightarrow> bool list \<Rightarrow> 'a \<times> 'a \<times> 's \<Rightarrow> 'a \<times> 'a \<times> 's"
where
  "interleave f g [] p = p"
| "interleave f g (turn # turns) (a, b, s) =
     (if turn then (case f (a, s) of (a', s') \<Rightarrow> interleave f g turns (a', b, s'))
      else (case g (b, s) of (b', s') \<Rightarrow> interleave f g turns (a, b', s')))"

definition two_threads :: "(record_stage \<Rightarrow> thread) \<Rightarrow> (record_stage \<Rightarrow> thread) \<Rightarrow> record_stage \<Rightarrow> record_stage \<Rightarrow> nat \<Rightarrow> thread option" where
  "two_threads t u a b = (\<lambda>_. None)(0 := Some (t a), Suc 0 := Some (u b))"

lemma two_threads_simps:
  "two_threads t u a b 0 = Some (t a)" "two_threads t u a b (Suc 0) = Some (u b)"
  "(two_threads t u a b)(0 := Some (t a')) = two_threads t u a' b"
  "(two_threads t u a b)(Suc 0 := Some (u b')) = two_threads t u a b'"
  by (auto simp: two_threads_def)

lemma interleave_steps:
  assumes "interleave (record_call PostgresLedgerRepository cx eid et mv) (record_call PostgresLedgerRepository cx' eid' et' mv')
      turns (a, b, wd_ledger w) = (a', b', db)"
    and "wd_threads w = two_threads (Recording cx eid et mv) (Recording cx' eid' et' mv') a b"
  shows "world_steps L topic w (w\<lparr>wd_ledger := db, wd_threads := two_threads (Recording cx eid et mv) (Recording cx' eid' et' mv') a' b'\<rparr>)"
  using assms
proof (induction turns arbitrary: a b w)
  case Nil
  then have same: "w\<lparr>wd_ledger := db, wd_threads := two_threads (Recording cx eid et mv) (Recording cx' eid' et' mv') a' b'\<rparr> = w" by simp
  show ?case unfolding same by simp
next
  case (Cons turn turns)
  let ?two = "two_threads (Recording cx eid et mv) (Recording cx' eid' et' mv')"
  show ?case
  proof (cases turn)
    case True
    obtain a1 s1 where 1: "record_call PostgresLedgerRepository cx eid et mv (a, wd_ledger w) = (a1, s1)" by force
    let ?w1 = "w\<lparr>wd_ledger := s1, wd_threads := ?two a1 b\<rparr>"
    have first: "world_step L topic w ?w1"
      using world_step.call [of w 0, OF _ 1] Cons.prems(2) by (simp add: two_threads_simps)
    have "world_steps L topic ?w1 (?w1\<lparr>wd_ledger := db, wd_threads := ?two a' b'\<rparr>)"
      by (rule Cons.IH [of a1 b]) (use Cons.prems(1) True 1 in simp_all)
    then have rest: "world_steps L topic ?w1 (w\<lparr>wd_ledger := db, wd_threads := ?two a' b'\<rparr>)" by simp
    show ?thesis by (rule converse_rtranclp_into_rtranclp [of "world_step L topic", OF first rest])
  next
    case False
    obtain b1 s1 where 1: "record_call PostgresLedgerRepository cx' eid' et' mv' (b, wd_ledger w) = (b1, s1)" by force
    let ?w1 = "w\<lparr>wd_ledger := s1, wd_threads := ?two a b1\<rparr>"
    have first: "world_step L topic w ?w1"
      using world_step.call [of w "Suc 0", OF _ 1] Cons.prems(2) by (simp add: two_threads_simps)
    have "world_steps L topic ?w1 (?w1\<lparr>wd_ledger := db, wd_threads := ?two a' b'\<rparr>)"
      by (rule Cons.IH [of a b1]) (use Cons.prems(1) False 1 in simp_all)
    then have rest: "world_steps L topic ?w1 (w\<lparr>wd_ledger := db, wd_threads := ?two a' b'\<rparr>)" by simp
    show ?thesis by (rule converse_rtranclp_into_rtranclp [of "world_step L topic", OF first rest])
  qed
qed

section \<open>One message, two consumers\<close>

definition rival_ctx :: "nat \<Rightarrow> ctx" where
  "rival_ctx i = (flow_ctx [])\<lparr>cx_uuid := (\<lambda>k. if i = 0 then ''am'' else if i = 1 then ''bm''
        else if k = 0 then ''a1'' else if k = 1 then ''am'' else ''bm'')\<rparr>"

lemma rival_ctx_lib: "lib.truncate (rival_ctx i) = flow_lib"
  using flow_ctx_lib(1) [of "[]"] by (simp add: rival_ctx_def lib.defs)

definition flow_movement :: payment_movement_request where
  "flow_movement = \<lparr>mr_PaymentID = ''a1'', mr_AmountCents = 2500, mr_Currency = ''USD''\<rparr>"

abbreviation rival_start :: "(nat \<Rightarrow> ctx) \<Rightarrow> record_stage" where
  "rival_start cx \<equiv> record_start cx ''b1'' ''payment.created'' flow_movement"

abbreviation rival_call :: "(nat \<Rightarrow> ctx) \<Rightarrow> record_stage \<times> led_db \<Rightarrow> record_stage \<times> led_db" where
  "rival_call cx \<equiv> record_call PostgresLedgerRepository cx ''b1'' ''payment.created'' flow_movement"

text \<open>Both have ensured the accounts and hold their entries; then both write.\<close>

lemma rivals_ready:
  "case interleave (rival_call flow_ledger_ctx) (rival_call rival_ctx) [True, False, True, False]
     (rival_start flow_ledger_ctx, rival_start rival_ctx, empty_led_db) of
     (a, b, db) \<Rightarrow> entries db = [] \<and> rival_call flow_ledger_ctx (a, db) = (Recorded (Inr (entries flow_ledger, True)), flow_ledger)
       \<and> rival_call rival_ctx (b, flow_ledger) = (Recorded (Inr ([], False)), flow_ledger)"
  by code_simp

definition rival_threads :: "record_stage \<Rightarrow> record_stage \<Rightarrow> nat \<Rightarrow> thread option" where
  "rival_threads = two_threads (Recording flow_ledger_ctx ''b1'' ''payment.created'' flow_movement)
     (Recording rival_ctx ''b1'' ''payment.created'' flow_movement)"

lemma rivals_delivered:
  "world_steps flow_lib ''t'' initial_world
     ((world_of flow_published)\<lparr>wd_threads := rival_threads (rival_start flow_ledger_ctx) (rival_start rival_ctx)\<rparr>)"
proof -
  let ?w = "world_of flow_published"
  have h: "headerValue (km_Headers flow_message) ''event_id'' = ''b1''"
    "headerValue (km_Headers flow_message) ''event_type'' = PaymentCreatedEventName" by code_simp+
  have "map_option movement_of (decode_payment_created flow_lib (km_Value flow_message)) = Some flow_movement" by code_simp
  then obtain pc where pc: "decode_payment_created flow_lib (km_Value flow_message) = Some pc" "movement_of pc = flow_movement" by auto
  have m: "delivers (ps_log (fl_pay flow_published)) flow_message" by (simp add: delivers_def flow_published_def)
  let ?w1 = "?w\<lparr>wd_threads := (wd_threads ?w)(0 \<mapsto> Recording flow_ledger_ctx ''b1'' PaymentCreatedEventName flow_movement (rival_start flow_ledger_ctx))\<rparr>"
  have name: "PaymentCreatedEventName = ''payment.created''" by (rule PaymentCreatedEventName_def)
  have "world_step flow_lib ''t'' ?w ?w1"
    using world_step.deliver [of ?w 0 flow_message flow_ledger_ctx flow_lib pc "''t''"] m flow_ctx_lib h pc name
    by (simp add: world_of_def)
  moreover have "world_step flow_lib ''t'' ?w1 (?w1\<lparr>wd_threads := (wd_threads ?w1)(Suc 0 \<mapsto> Recording rival_ctx ''b1'' PaymentCreatedEventName flow_movement (rival_start rival_ctx))\<rparr>)"
    using world_step.deliver [of ?w1 "Suc 0" flow_message rival_ctx flow_lib pc "''t''"] m rival_ctx_lib h pc name
    by (simp add: world_of_def)
  moreover have "world_steps flow_lib ''t'' initial_world ?w"
    using flow_in_world [OF flow_published_steps] by (simp add: world_of_initial)
  ultimately have "world_steps flow_lib ''t'' initial_world
      (?w1\<lparr>wd_threads := (wd_threads ?w1)(Suc 0 \<mapsto> Recording rival_ctx ''b1'' PaymentCreatedEventName flow_movement (rival_start rival_ctx))\<rparr>)"
    by (meson rtranclp.rtrancl_into_rtrancl)
  then show ?thesis by (simp add: world_of_def rival_threads_def two_threads_def name)
qed

lemma rivals:
  obtains w1 w2 w3 where "world_steps flow_lib ''t'' initial_world w1" "world_step flow_lib ''t'' w1 w2" "world_step flow_lib ''t'' w2 w3"
    "entries (wd_ledger w1) = []" "wd_ledger w2 = flow_ledger" "wd_ledger w3 = flow_ledger" "ps_db (wd_pay w3) = flow_published_db"
    "\<exists>t u. wd_threads w3 0 = Some t \<and> wd_threads w3 (Suc 0) = Some u"
proof -
  let ?w = "(world_of flow_published)\<lparr>wd_threads := rival_threads (rival_start flow_ledger_ctx) (rival_start rival_ctx)\<rparr>"
  obtain a b db where i: "interleave (rival_call flow_ledger_ctx) (rival_call rival_ctx) [True, False, True, False]
     (rival_start flow_ledger_ctx, rival_start rival_ctx, empty_led_db) = (a, b, db)" by (metis surj_pair)
  with rivals_ready have r: "entries db = []" "rival_call flow_ledger_ctx (a, db) = (Recorded (Inr (entries flow_ledger, True)), flow_ledger)"
    "rival_call rival_ctx (b, flow_ledger) = (Recorded (Inr ([], False)), flow_ledger)" by simp_all
  have led: "wd_ledger ?w = empty_led_db" by (simp add: world_of_def flow_published_def initial_flow_def)
  define w1 where "w1 = ?w\<lparr>wd_ledger := db, wd_threads := rival_threads a b\<rparr>"
  define w2 where "w2 = w1\<lparr>wd_ledger := flow_ledger, wd_threads := rival_threads (Recorded (Inr (entries flow_ledger, True))) b\<rparr>"
  define w3 where "w3 = w2\<lparr>wd_ledger := flow_ledger, wd_threads := rival_threads (Recorded (Inr (entries flow_ledger, True))) (Recorded (Inr ([], False)))\<rparr>"
  have "world_steps flow_lib ''t'' ?w w1"
    unfolding w1_def rival_threads_def
    by (rule interleave_steps [where turns = "[True, False, True, False]"]) (use i led in \<open>simp_all add: rival_threads_def\<close>)
  with rivals_delivered have 1: "world_steps flow_lib ''t'' initial_world w1" by (rule rtranclp_trans)
  have 2: "world_step flow_lib ''t'' w1 w2"
    using world_step.call [of w1 0 flow_ledger_ctx "''b1''" "''payment.created''" flow_movement a, OF _ , of _ flow_ledger flow_lib "''t''"] r(2)
    by (simp add: w1_def w2_def rival_threads_def two_threads_simps)
  have 3: "world_step flow_lib ''t'' w2 w3"
    using world_step.call [of w2 "Suc 0" rival_ctx "''b1''" "''payment.created''" flow_movement b, OF _ , of _ flow_ledger flow_lib "''t''"] r(3)
    by (simp add: w2_def w3_def rival_threads_def two_threads_simps)
  show thesis
    by (rule that [OF 1 2 3])
      (simp_all add: w1_def w2_def w3_def r(1) rival_threads_def two_threads_simps world_of_def flow_published_def)
qed

end
