(* ===== verification/Concurrent_Progress.thy ===== *)
theory Concurrent_Progress
  imports Payment_Progress Flow_Properties Concurrent_Samples Delivery_Properties
begin

text \<open>
  What the running services can always still do: from every reachable state, whatever other consumers, replays and API
  calls are in the middle of, an event can be published and booked.
\<close>

section \<open>Booking a published event\<close>

lemma published_bookable:
  fixes cx :: "nat \<Rightarrow> ctx"
  assumes "world_steps L topic initial_world w" and "uuid_text L" and "payload_decodes L"
    and "e \<in> set (outbox (ps_db (wd_pay w)))" and "ob_event_type e = PaymentCreatedEvent" and "ob_status e = OutboxStatusPublished"
    and "ob_id e \<noteq> []" and "decode_payment_created L (ob_payload e) = Some pc"
    and "movement_ready L cx (ob_id e) PaymentCreatedEventName (movement_of pc)" and "ids_fresh L cx (wd_ledger w)"
    and "wd_threads w i = None"
  shows "\<exists>w' r d k. world_steps L topic w w' \<and> wd_pay w' = wd_pay w \<and> wd_threads w' = wd_threads w
    \<and> creation_recorded (ps_db (wd_pay w')) (wd_ledger w') (ob_aggregate_id e)
    \<and> r \<in> set (payments (ps_db (wd_pay w'))) \<and> pr_id r = ob_aggregate_id e
    \<and> entries_for DirectionDebit (pr_id r) (entries (wd_ledger w')) = [d] \<and> en_AmountCents d = pr_amount_cents r
    \<and> entries_for DirectionCredit (pr_id r) (entries (wd_ledger w')) = [k] \<and> en_AmountCents k = pr_amount_cents r"
proof -
  have inv: "world_inv L topic w" by (rule world_inv_steps [OF assms(1) world_inv_initial assms(2,3)])
  then have sys: "sys_inv L topic (wd_pay w)" and led: "led_inv L (wd_ledger w)" by (simp_all add: world_inv_def flow_inv_def)
  then have pay: "pay_inv L (ps_db (wd_pay w))" "outbox_canonical L (ps_db (wd_pay w))"
    "published_in topic (outbox_view (ps_db (wd_pay w))) (ps_log (wd_pay w))" by (simp_all add: sys_inv_def)
  have canon: "\<forall>x u. pg_uuid L x = Some u \<longrightarrow> pg_uuid L u = Some u" using assms(2) by (simp add: uuid_text_def)
  have lib: "\<forall>k. lib.truncate (cx k) = L" using assms(9) by (simp add: movement_ready_def lib.defs)
  have "row_event e \<in> set (outbox_view (ps_db (wd_pay w)))" using assms(4) by (simp add: outbox_view_def)
  with pay(3) assms(6) obtain m where m: "m \<in> set (ps_log (wd_pay w))" "carries topic (row_event e) m"
    unfolding published_in_def by auto
  have h: "headerValue (km_Headers m) ''event_id'' = ob_id e" "headerValue (km_Headers m) ''event_type'' = PaymentCreatedEventName"
    "km_Value m = ob_payload e" using m(2) assms(5) created_names by (simp_all add: carries_def row_event_def)
  have del: "delivers (ps_log (wd_pay w)) m" using m(1) by (auto simp: delivers_def)
  obtain x db where run: "RecordPaymentMovementOnce PostgresLedgerRepository cx (\<lambda>s. s) (ob_id e) PaymentCreatedEventName
      (movement_of pc) (wd_ledger w) = (Inr x, db)"
    using record_once_ok [OF assms(9,10) _ canon] led unfolding led_inv_def by blast
  let ?w' = "w\<lparr>wd_ledger := db\<rparr>"
  have steps: "world_steps L topic w ?w'"
    using record_steps [OF assms(11) del lib, of pc "Inr x" db] h assms(7,8) run by simp
  have "port_env_ok L (cx, \<lambda>s :: led_db. s)" using lib canon by (simp add: port_env_ok_def lib.defs)
  from pg_port.port [OF this led, of "ob_id e" PaymentCreatedEventName "movement_of pc" "Inr x" db] run
  have "event_recorded L db (ob_id e)" by (simp add: postgres_port_def)
  moreover have "pg_uuid L (trim_space (ob_id e)) = Some (ob_id e)"
    using pay(2) assms(2,4) unfolding outbox_canonical_def uuid_text_def by metis
  ultimately have "creation_recorded (ps_db (wd_pay w)) db (ob_aggregate_id e)"
    using assms(4,5) by (auto simp: creation_recorded_def event_recorded_def seen_events_def)
  moreover obtain r where r: "r \<in> set (payments (ps_db (wd_pay w)))" "pr_id r = ob_aggregate_id e"
    using pay(1) assms(4) by (auto simp: pay_inv_def)
  moreover have "flow_inv L topic (flow_of ?w')"
    using world_inv_steps [OF steps inv assms(2,3)] by (simp add: world_inv_def)
  from double_entries [OF this, THEN conjunct1, unfolded flow_of_simps, rule_format, of r] r calculation(1)
  obtain d k where "entries_for DirectionDebit (pr_id r) (entries db) = [d]" "entries_for DirectionCredit (pr_id r) (entries db) = [k]"
    "en_AmountCents d = pr_amount_cents r" "en_AmountCents k = pr_amount_cents r" by auto
  ultimately show ?thesis using steps by (intro exI [of _ ?w'] exI [of _ r] exI [of _ d] exI [of _ k]) simp
qed

section \<open>Publishing a claimable event\<close>

text \<open>A call that nothing disturbs, and a Kafka write that succeeds.\<close>

definition healthy :: "lib \<Rightarrow> ctx" where
  "healthy L = lib.extend L
     \<lparr>cx_uuid = (\<lambda>_. []), cx_now = 0, cx_begin = None, cx_stmt = (\<lambda>_. None), cx_commit = CommitOk,
      cx_traceparent = [], cx_tracestate = [], cx_locked = (\<lambda>_. False), cx_returning = (\<lambda>_. [])\<rparr>"

definition healthy_env :: "lib \<Rightarrow> ctx publish_env" where
  "healthy_env L = \<lparr>pe_write = (\<lambda>_. WriteOk), pe_carrier = [], pe_now = 0, pe_mark = healthy L\<rparr>"

lemma healthy_simps [simp]:
  "lib.truncate (healthy L) = L" "pg_uuid (healthy L) = pg_uuid L"
  "cx_begin (healthy L) = None" "cx_stmt (healthy L) k = None" "cx_commit (healthy L) = CommitOk" "cx_locked (healthy L) i = False"
  by (simp_all add: healthy_def lib.defs)

lemma healthy_claim:
  assumes "e \<in> set (outbox db)" and "claimable e"
  shows "\<exists>es. ClaimPending (healthy L) (int (length (outbox db))) db = (Inr es, claim_update (claimed_rows (healthy L) (int (length (outbox db))) db) db)
    \<and> claim_event (row_event e) \<in> set es \<and> e \<in> set (claimed_rows (healthy L) (int (length (outbox db))) db)"
proof -
  let ?n = "int (length (outbox db))"
  let ?rows = "claimed_rows (healthy L) ?n db"
  have n: "batch_limit ?n = ?n" using assms(1) by (cases "outbox db") auto
  have "length (filter claimable (outbox db)) \<le> nat ?n" by simp
  then have e: "e \<in> set ?rows" using assms by (simp add: claimed_rows_def)
  then have rows: "?rows \<noteq> []" by auto
  obtain es where run: "ClaimPending (healthy L) ?n db = (Inr es, claim_update ?rows db)"
    unfolding ClaimPending_def n Let_def using rows by (simp add: claim_body_def in_tx_def Let_def)
  from ClaimPending_Inr(2) [OF run, unfolded n] have "set es = (\<lambda>e. claim_event (row_event e)) ` set ?rows" by (rule claimed_ids(3))
  with e run show ?thesis by auto
qed

lemma claimable_published:
  assumes sys: "sys_inv L topic s" and e: "e \<in> set (outbox (ps_db s))" "claimable e"
  shows "\<exists>s' e'. pay_steps L topic s s' \<and> e' \<in> set (outbox (ps_db s')) \<and> row_content e' = row_content e \<and> ob_status e' = OutboxStatusPublished"
proof -
  let ?n = "int (length (outbox (ps_db s)))"
  let ?rows = "claimed_rows (healthy L) ?n (ps_db s)"
  let ?ev = "claim_event (row_event e)"
  obtain es where c: "ClaimPending (healthy L) ?n (ps_db s) = (Inr es, claim_update ?rows (ps_db s))" "?ev \<in> set es" "e \<in> set ?rows"
    using healthy_claim [OF e] by blast
  let ?s1 = "s\<lparr>ps_db := claim_update ?rows (ps_db s), ps_claimed := ps_claimed s @ es\<rparr>"
  have 1: "pay_step L topic s ?s1" using pay_step.claim [OF healthy_simps(1) c(1), of topic] by simp
  let ?st = "\<lparr>pub_store = ps_db ?s1, pub_log = ps_log ?s1, pub_metrics = []\<rparr>"
  let ?out = "publish_step PostgresOutboxRepository topic (healthy_env L) ?ev ?st"
  let ?s2 = "?s1\<lparr>ps_db := pub_store ?out, ps_log := pub_log ?out, ps_claimed := remove1 ?ev (ps_claimed ?s1)\<rparr>"
  have "?out = \<lparr>pub_store = pub_store ?out, pub_log = pub_log ?out, pub_metrics = pub_metrics ?out\<rparr>" by simp
  from pay_step.publish [OF _ _ this] c(2) have 2: "pay_step L topic ?s1 ?s2" by (simp add: healthy_env_def)
  have "pg_uuid L (ob_id e) = Some (ob_id e)" using sys e(1) by (simp add: sys_inv_def outbox_canonical_def)
  then have known: "pg_knows (pe_mark (healthy_env L)) (oe_ID ?ev)" by (simp add: pg_knows_def healthy_env_def)
  have ok: "fst (store_MarkPublished PostgresOutboxRepository (pe_mark (healthy_env L)) i at db) = Inr ()"
    if "pg_knows (pe_mark (healthy_env L)) i" for i at db
    using that by (simp add: MarkPublished_def exec_update_def pg_knows_def stmt_def healthy_env_def)
  have "outbox_view (pub_store ?out) = sql_update (\<lambda>x. oe_ID x = oe_ID ?ev) (published_event (pe_now (healthy_env L))) (outbox_view (pub_store ?st))"
    by (rule pg_outbox.publish_step_delivers(2) [OF known _ ok]) (simp_all add: healthy_env_def)
  moreover have "?ev \<in> set (outbox_view (pub_store ?st))"
  proof -
    have "row_event e \<in> set (outbox_view (ps_db s))" using e(1) by (simp add: outbox_view_def)
    moreover have "oe_ID (row_event e) \<in> set (map ob_id ?rows)" using c(3) by simp
    ultimately show ?thesis by (auto simp: claim_update_view set_sql_update image_iff intro!: bexI [of _ "row_event e"])
  qed
  ultimately have "published_event 0 ?ev \<in> set (outbox_view (pub_store ?out))"
    by (force simp: set_sql_update healthy_env_def)
  then obtain e' where e': "e' \<in> set (outbox (pub_store ?out))" "row_event e' = published_event 0 ?ev" by (auto simp: outbox_view_def)
  have "row_content e' = row_content e" using arg_cong [OF e'(2), of content] by simp
  moreover have "ob_status e' = OutboxStatusPublished" using arg_cong [OF e'(2), of oe_Status] by simp
  moreover have "pay_steps L topic s ?s2" using 1 2 by (meson converse_rtranclp_into_rtranclp r_into_rtranclp)
  ultimately show ?thesis using e'(1) by (intro exI [of _ ?s2] exI [of _ e']) simp
qed

lemma pay_steps_world: "pay_steps L topic (wd_pay w) s' \<Longrightarrow> world_steps L topic w (w\<lparr>wd_pay := s'\<rparr>)"
proof (induction rule: rtranclp_induct)
  case (step s s')
  from world_step.payment [of L topic "w\<lparr>wd_pay := s\<rparr>" s'] step(2)
  have "world_step L topic (w\<lparr>wd_pay := s\<rparr>) (w\<lparr>wd_pay := s'\<rparr>)" by simp
  with step(3) show ?case by (rule rtranclp.rtrancl_into_rtrancl)
qed simp

text \<open>The state in which an event is published, reached by the publisher alone.\<close>

lemma publish_in_world:
  assumes inv: "world_inv L topic w" and e: "e \<in> set (outbox (ps_db (wd_pay w)))" and st: "claimable e \<or> ob_status e = OutboxStatusPublished"
  obtains w1 e1 where "world_steps L topic w w1" "wd_ledger w1 = wd_ledger w" "wd_threads w1 = wd_threads w"
    "e1 \<in> set (outbox (ps_db (wd_pay w1)))" "row_content e1 = row_content e" "ob_status e1 = OutboxStatusPublished"
proof (cases "ob_status e = OutboxStatusPublished")
  case True
  then show thesis by (intro that [of w e]) (simp_all add: e)
next
  case False
  then have "claimable e" using st by blast
  moreover have "sys_inv L topic (wd_pay w)" using inv by (simp add: world_inv_def flow_inv_def)
  ultimately obtain s' e1 where s: "pay_steps L topic (wd_pay w) s'" "e1 \<in> set (outbox (ps_db s'))" "row_content e1 = row_content e"
    "ob_status e1 = OutboxStatusPublished" using claimable_published e by blast
  from pay_steps_world [OF s(1)] show thesis by (rule that [of "w\<lparr>wd_pay := s'\<rparr>" e1]) (simp_all add: s(2-4))
qed

end
