(* ===== verification/Http.thy ===== *)
theory Http
  imports Go_Runtime
begin

text \<open>
  HTTP as the handlers see it: a request, the header map of the response, handlers that answer a
  request and change a state, middleware that wraps handlers, JSON bodies with a size limit,
  and routes. The chi router's matching of a pattern is the parameter \<open>mt\<close> of the
  definitions that use it: the URL parameters of a match.
\<close>

section \<open>Requests and responses\<close>

text \<open>
  Header names are in the canonical form of \<open>net/http\<close>. \<open>rq_Limit\<close> is the limit of the
  \<open>MaxBytesReader\<close> around the body, \<open>rq_RequestID\<close> what chi's RequestID middleware stores.
\<close>

type_synonym headers = "(string \<times> string) list"

record http_request =
  rq_Method :: string
  rq_Path :: string
  rq_Host :: string
  rq_RemoteAddr :: string
  rq_Headers :: headers
  rq_Body :: string
  rq_Limit :: "int option"
  rq_Params :: headers
  rq_RequestID :: string

record http_response =
  rs_Status :: int
  rs_Headers :: headers
  rs_Body :: "json option"

text \<open>\<open>Header.Get\<close>, \<open>Header.Set\<close> and \<open>Header.Del\<close>; \<open>chi.URLParam\<close>.\<close>

definition header_get :: "headers \<Rightarrow> string \<Rightarrow> string" where
  "header_get hs k = (case map_of hs k of None \<Rightarrow> [] | Some v \<Rightarrow> v)"

definition header_del :: "headers \<Rightarrow> string \<Rightarrow> headers" where
  "header_del hs k = filter (\<lambda>(k', _). k' \<noteq> k) hs"

definition header_set :: "headers \<Rightarrow> string \<Rightarrow> string \<Rightarrow> headers" where
  "header_set hs k v = (k, v) # header_del hs k"

definition URLParam :: "http_request \<Rightarrow> string \<Rightarrow> string" where
  "URLParam rq k = header_get (rq_Params rq) k"

lemma header_get_del [simp]: "header_get (header_del hs k) k' = (if k' = k then [] else header_get hs k')"
proof -
  have "map_of (header_del hs k) k' = (if k' = k then None else map_of hs k')"
    by (induction hs) (auto simp: header_del_def)
  then show ?thesis by (simp add: header_get_def)
qed

lemma header_get_set [simp]: "header_get (header_set hs k v) k' = (if k' = k then v else header_get hs k')"
proof -
  have "header_get (header_set hs k v) k' = (if k' = k then v else header_get (header_del hs k) k')"
    by (simp add: header_set_def header_get_def)
  then show ?thesis by simp
qed

text \<open>A handler gets the headers the middleware has set on the response.\<close>

type_synonym 's http_handler = "http_request \<Rightarrow> headers \<Rightarrow> 's \<Rightarrow> http_response \<times> 's"

text \<open>An encoding failure leaves the body empty.\<close>

definition WriteJSON :: "headers \<Rightarrow> int \<Rightarrow> json option \<Rightarrow> http_response" where
  "WriteJSON hs statusCode payload =
     \<lparr>rs_Status = statusCode, rs_Headers = header_set hs ''Content-Type'' ''application/json'', rs_Body = payload\<rparr>"

definition error_response :: "string \<Rightarrow> string \<Rightarrow> json" where
  "error_response message request_id =
     JObj ((''error'', JStr message) # (if request_id = [] then [] else [(''request_id'', JStr request_id)]))"

definition writeRequestError :: "http_request \<Rightarrow> headers \<Rightarrow> int \<Rightarrow> string \<Rightarrow> http_response" where
  "writeRequestError rq hs statusCode message =
     WriteJSON hs statusCode (Some (error_response message (rq_RequestID rq)))"

lemma WriteJSON_simps [simp]:
  "rs_Status (WriteJSON hs st p) = st" "rs_Body (WriteJSON hs st p) = p"
  "rs_Status (writeRequestError rq hs st m) = st"
  by (simp_all add: WriteJSON_def writeRequestError_def)

section \<open>JSON bodies\<close>

text \<open>
  \<open>decoder.Decode\<close> on a limited body. The decoder reads until the first value is complete; a
  body longer than the limit is an error only when no value is complete within the limit. At
  the end of the body a value may end with it.
\<close>

datatype decoded = BodyValue json | BodyTooLarge | BodyInvalid

definition body_limit :: "http_request \<Rightarrow> nat" where
  "body_limit rq = (case rq_Limit rq of None \<Rightarrow> length (rq_Body rq) | Some n \<Rightarrow> nat n)"

definition decode_body :: "'x lib_scheme \<Rightarrow> http_request \<Rightarrow> decoded" where
  "decode_body L rq =
     (case json_scan L (take (body_limit rq) (rq_Body rq)) of
        ScanValue j \<Rightarrow> BodyValue j
      | ScanBad \<Rightarrow> BodyInvalid
      | ScanMore \<Rightarrow>
          if body_limit rq < length (rq_Body rq) then BodyTooLarge
          else (case json_parse L (rq_Body rq) of None \<Rightarrow> BodyInvalid | Some j \<Rightarrow> BodyValue j))"

text \<open>Decoding into a struct with \<open>DisallowUnknownFields\<close>.\<close>

definition decode_request :: "'x lib_scheme \<Rightarrow> 'r fields \<Rightarrow> 'r \<Rightarrow> http_request \<Rightarrow> decoded + 'r" where
  "decode_request L spec zero rq =
     (case decode_body L rq of
        BodyValue j \<Rightarrow> (case decode_struct True spec zero j of None \<Rightarrow> Inl BodyInvalid | Some r \<Rightarrow> Inr r)
      | b \<Rightarrow> Inl b)"

lemma decode_request_errors: "decode_request L spec zero rq = Inl b \<Longrightarrow> b = BodyTooLarge \<or> b = BodyInvalid"
  by (auto simp: decode_request_def split: decoded.splits option.splits)

lemma too_large_iff:
  "decode_request L spec zero rq = Inl BodyTooLarge \<longleftrightarrow>
     body_limit rq < length (rq_Body rq) \<and> json_scan L (take (body_limit rq) (rq_Body rq)) = ScanMore"
  by (auto simp: decode_request_def decode_body_def split: decoded.splits option.splits json_scan.splits)

section \<open>Routes\<close>

record 's route =
  rt_Method :: string
  rt_Pattern :: string
  rt_Handler :: "'s http_handler"

type_synonym matcher = "string \<Rightarrow> string \<Rightarrow> headers option"

text \<open>
  The first route that matches the path and the method; 405 when only the method differs, 404
  when no pattern matches. A route for every method has the method \<open>*\<close>.
\<close>

definition serves :: "matcher \<Rightarrow> 's route \<Rightarrow> http_request \<Rightarrow> bool" where
  "serves mt r rq \<longleftrightarrow> mt (rt_Pattern r) (rq_Path rq) \<noteq> None \<and> rt_Method r \<in> {''*'', rq_Method rq}"

definition route :: "matcher \<Rightarrow> 's route list \<Rightarrow> 's http_handler" where
  "route mt routes rq hs s =
     (case find (\<lambda>r. serves mt r rq) routes of
        Some r \<Rightarrow> rt_Handler r (rq\<lparr>rq_Params := the (mt (rt_Pattern r) (rq_Path rq))\<rparr>) hs s
      | None \<Rightarrow>
          (\<lparr>rs_Status = (if list_ex (\<lambda>r. mt (rt_Pattern r) (rq_Path rq) \<noteq> None) routes then 405 else 404),
            rs_Headers = hs, rs_Body = None\<rparr>, s))"

text \<open>Whether a sub-router mounted at the prefix gets the request.\<close>

definition mounted :: "string \<Rightarrow> http_request \<Rightarrow> bool" where
  "mounted p rq \<longleftrightarrow> rq_Path rq = p \<or> prefix (p @ ''/'') (rq_Path rq)"

lemma route_not_found:
  assumes "\<forall>r \<in> set routes. mt (rt_Pattern r) (rq_Path rq) = None"
  shows "route mt routes rq hs s = (\<lparr>rs_Status = 404, rs_Headers = hs, rs_Body = None\<rparr>, s)"
proof -
  have "find (\<lambda>r. serves mt r rq) routes = None" using assms by (auto simp: find_None_iff serves_def)
  moreover have "\<not> list_ex (\<lambda>r. mt (rt_Pattern r) (rq_Path rq) \<noteq> None) routes" using assms by (auto simp: list_ex_iff)
  ultimately show ?thesis by (simp add: route_def)
qed

section \<open>Fresh headers\<close>

lemma writeRequestError_json: "rs_Body (writeRequestError rq hs st m) = Some (error_response m (rq_RequestID rq))"
  by (simp add: writeRequestError_def)

end
