(* ===== verification/Security.thy ===== *)
theory Security
  imports Http
begin

text \<open>
  The security middleware of the three services: response headers, the API key of the gateway,
  the internal token of the services, and the limit on request bodies.
\<close>

section \<open>Middleware\<close>

definition Headers :: "'s http_handler \<Rightarrow> 's http_handler" where
  "Headers next rq hs s =
     next rq
       (header_set (header_set (header_set (header_set hs ''X-Content-Type-Options'' ''nosniff'')
          ''X-Frame-Options'' ''DENY'') ''Referrer-Policy'' ''no-referrer'') ''Cache-Control'' ''no-store'') s"

definition bearer_prefix :: string where
  "bearer_prefix = ''Bearer ''"

definition apiKeyFromRequest :: "http_request \<Rightarrow> string" where
  "apiKeyFromRequest rq =
     (let key = trim_space (header_get (rq_Headers rq) ''X-Api-Key'')
      in if key \<noteq> [] then key
         else (let auth = trim_space (header_get (rq_Headers rq) ''Authorization'')
               in if has_prefix auth bearer_prefix then trim_space (trim_prefix auth bearer_prefix) else []))"

text \<open>\<open>ConstantTimeCompare\<close> of two digests of the same length is equality.\<close>

definition writeError :: "http_request \<Rightarrow> headers \<Rightarrow> int \<Rightarrow> string \<Rightarrow> http_response" where
  "writeError rq hs statusCode message =
     \<lparr>rs_Status = statusCode, rs_Headers = header_set hs ''Content-Type'' ''application/json'',
      rs_Body = Some (error_response message (rq_RequestID rq))\<rparr>"

definition secret_matches :: "'x lib_scheme \<Rightarrow> string \<Rightarrow> string \<Rightarrow> bool" where
  "secret_matches L expected provided \<longleftrightarrow> \<not> (provided = [] \<or> sha256 L provided \<noteq> sha256 L expected)"

definition APIKey :: "'x lib_scheme \<Rightarrow> string \<Rightarrow> 's http_handler \<Rightarrow> 's http_handler" where
  "APIKey L expectedKey next rq hs s =
     (if \<not> secret_matches L expectedKey (apiKeyFromRequest rq)
      then (writeError rq hs 401 ''unauthorized'', s)
      else next rq hs s)"

definition InternalServiceToken :: "'x lib_scheme \<Rightarrow> string \<Rightarrow> 's http_handler \<Rightarrow> 's http_handler" where
  "InternalServiceToken L expectedToken next rq hs s =
     (if \<not> secret_matches L expectedToken (trim_space (header_get (rq_Headers rq) ''X-Internal-Service-Token''))
      then (writeError rq hs 401 ''unauthorized'', s)
      else next rq hs s)"

text \<open>A reader around a limited reader stops at the smaller limit; a negative limit counts as 0.\<close>

definition MaxBodyBytes :: "i64 \<Rightarrow> 's http_handler \<Rightarrow> 's http_handler" where
  "MaxBodyBytes limit next rq hs s =
     next (rq\<lparr>rq_Limit := Some (case rq_Limit rq of
             None \<Rightarrow> max 0 (sint limit) | Some n \<Rightarrow> min n (max 0 (sint limit)))\<rparr>) hs s"

text \<open>The ledger and the gateway carry their own copies of the same code.\<close>

definition ledger_Headers :: "'s http_handler \<Rightarrow> 's http_handler" where
  "ledger_Headers next rq hs s =
     next rq
       (header_set (header_set (header_set (header_set hs ''X-Content-Type-Options'' ''nosniff'')
          ''X-Frame-Options'' ''DENY'') ''Referrer-Policy'' ''no-referrer'') ''Cache-Control'' ''no-store'') s"

definition ledger_InternalServiceToken :: "'x lib_scheme \<Rightarrow> string \<Rightarrow> 's http_handler \<Rightarrow> 's http_handler" where
  "ledger_InternalServiceToken L expectedToken next rq hs s =
     (if \<not> secret_matches L expectedToken (trim_space (header_get (rq_Headers rq) ''X-Internal-Service-Token''))
      then (writeError rq hs 401 ''unauthorized'', s)
      else next rq hs s)"

definition gateway_Headers :: "'s http_handler \<Rightarrow> 's http_handler" where
  "gateway_Headers next rq hs s =
     next rq
       (header_set (header_set (header_set (header_set hs ''X-Content-Type-Options'' ''nosniff'')
          ''X-Frame-Options'' ''DENY'') ''Referrer-Policy'' ''no-referrer'') ''Cache-Control'' ''no-store'') s"

definition gateway_apiKeyFromRequest :: "http_request \<Rightarrow> string" where
  "gateway_apiKeyFromRequest rq =
     (let key = trim_space (header_get (rq_Headers rq) ''X-Api-Key'')
      in if key \<noteq> [] then key
         else (let auth = trim_space (header_get (rq_Headers rq) ''Authorization'')
               in if has_prefix auth bearer_prefix then trim_space (trim_prefix auth bearer_prefix) else []))"

definition gateway_APIKey :: "'x lib_scheme \<Rightarrow> string \<Rightarrow> 's http_handler \<Rightarrow> 's http_handler" where
  "gateway_APIKey L expectedKey next rq hs s =
     (if \<not> secret_matches L expectedKey (gateway_apiKeyFromRequest rq)
      then (writeError rq hs 401 ''unauthorized'', s)
      else next rq hs s)"

definition gateway_MaxBodyBytes :: "i64 \<Rightarrow> 's http_handler \<Rightarrow> 's http_handler" where
  "gateway_MaxBodyBytes limit next rq hs s =
     next (rq\<lparr>rq_Limit := Some (case rq_Limit rq of
             None \<Rightarrow> max 0 (sint limit) | Some n \<Rightarrow> min n (max 0 (sint limit)))\<rparr>) hs s"

lemmas middleware_defs = Headers_def InternalServiceToken_def APIKey_def MaxBodyBytes_def
  ledger_Headers_def ledger_InternalServiceToken_def gateway_Headers_def gateway_APIKey_def gateway_MaxBodyBytes_def

lemma copies_agree:
  "ledger_Headers = Headers" "ledger_InternalServiceToken = InternalServiceToken"
  "gateway_Headers = Headers" "gateway_apiKeyFromRequest = apiKeyFromRequest"
  by (intro ext; simp add: middleware_defs gateway_apiKeyFromRequest_def apiKeyFromRequest_def)+

section \<open>What the middleware guarantees\<close>

lemma secret_matches_iff:
  assumes "\<And>x y. sha256 L x = sha256 L y \<Longrightarrow> x = y"
  shows "secret_matches L expected provided \<longleftrightarrow> provided = expected \<and> expected \<noteq> []"
  using assms by (auto simp: secret_matches_def)

lemma apiKeyFromRequest_trimmed: "trimmed (apiKeyFromRequest rq)"
  by (auto simp: apiKeyFromRequest_def Let_def trim_space_trimmed)

end
