(* ===== verification/Payment_Api.thy ===== *)
theory Payment_Api
  imports Security Payment_Service
begin

text \<open>
  The HTTP API of the payment service (\<open>handler/payment_handler.go\<close>, \<open>handler/json.go\<close> and
  the router of \<open>cmd/api/main.go\<close>) over the repository interface.
\<close>

section \<open>JSON of the API\<close>

definition create_request_fields :: "create_payment_request fields" where
  "create_request_fields =
     [(''amount_cents'', set_i64 (\<lambda>n r. r\<lparr>cr_AmountCents := n\<rparr>)),
      (''currency'', set_str (\<lambda>s r. r\<lparr>cr_Currency := s\<rparr>)),
      (''description'', set_str (\<lambda>s r. r\<lparr>cr_Description := s\<rparr>)),
      (''external_reference'', set_str (\<lambda>s r. r\<lparr>cr_ExternalReference := s\<rparr>))]"

definition update_request_fields :: "update_payment_status_request fields" where
  "update_request_fields = [(''status'', set_str (\<lambda>s r. r\<lparr>ur_Status := s\<rparr>))]"

definition zero_create_request :: create_payment_request where
  "zero_create_request = \<lparr>cr_AmountCents = 0, cr_Currency = [], cr_Description = [], cr_ExternalReference = []\<rparr>"

definition zero_update_request :: update_payment_status_request where
  "zero_update_request = \<lparr>ur_Status = []\<rparr>"

text \<open>A payment has no JSON when one of its times has none.\<close>

definition payment_json :: "'x lib_scheme \<Rightarrow> payment \<Rightarrow> json option" where
  "payment_json L p =
     (case (time_json L (p_CreatedAt p), time_json L (p_UpdatedAt p)) of
        (Some c, Some u) \<Rightarrow>
          Some (JObj ([(''id'', JStr (p_ID p)), (''amount_cents'', JInt (sint (p_AmountCents p))),
                 (''currency'', JStr (p_Currency p)), (''status'', JStr (p_Status p))]
                @ omitempty ''description'' (p_Description p)
                @ omitempty ''external_reference'' (p_ExternalReference p)
                @ omitempty ''idempotency_key'' (p_IdempotencyKey p)
                @ [(''created_at'', JStr c), (''updated_at'', JStr u)]))
      | _ \<Rightarrow> None)"

section \<open>Handlers\<close>

definition createPayment ::
  "('x ctx_scheme, 's) payment_repository \<Rightarrow> 'x ctx_scheme \<Rightarrow> 's http_handler"
where
  "createPayment R cx rq hs s =
     (case decode_request cx create_request_fields zero_create_request rq of
        Inl b \<Rightarrow>
          (if b = BodyTooLarge then writeRequestError rq hs 413 ''request body too large''
           else writeRequestError rq hs 400 ''invalid JSON request body'', s)
      | Inr request \<Rightarrow>
          (case PaymentService_Create R cx request (header_get (rq_Headers rq) ''Idempotency-Key'') s of
             (Inl e, s') \<Rightarrow>
               (if errors_is e ErrValidation then writeRequestError rq hs 400 ''invalid payment request''
                else if errors_is e ErrIdempotencyConflict
                then writeRequestError rq hs 409 ''idempotency key reused with different request''
                else writeRequestError rq hs 500 ''could not create payment'', s')
           | (Inr (p, created), s') \<Rightarrow>
               (if \<not> created
                then WriteJSON (header_set hs ''X-Idempotent-Replay'' ''true'') 200 (payment_json cx p)
                else WriteJSON hs 201 (payment_json cx p), s')))"

definition getPayment ::
  "('x ctx_scheme, 's) payment_repository \<Rightarrow> 'x ctx_scheme \<Rightarrow> 's http_handler"
where
  "getPayment R cx rq hs s =
     (case PaymentService_GetByID R cx (URLParam rq ''id'') s of
        Inl e \<Rightarrow>
          (if errors_is e ErrValidation then writeRequestError rq hs 400 ''invalid payment id''
           else if errors_is e ErrPaymentNotFound then writeRequestError rq hs 404 ''payment not found''
           else writeRequestError rq hs 500 ''could not get payment'', s)
      | Inr p \<Rightarrow> (WriteJSON hs 200 (payment_json cx p), s))"

text \<open>The update reads and writes in two calls (\<open>cx\<close>, \<open>cx'\<close>); others may commit in between.\<close>

definition updatePaymentStatus ::
  "('x ctx_scheme, 's) payment_repository \<Rightarrow> 'x ctx_scheme \<Rightarrow> 'x ctx_scheme \<Rightarrow> ('s \<Rightarrow> 's) \<Rightarrow> 's http_handler"
where
  "updatePaymentStatus R cx cx' others rq hs s =
     (case decode_request cx update_request_fields zero_update_request rq of
        Inl b \<Rightarrow>
          (if b = BodyTooLarge then writeRequestError rq hs 413 ''request body too large''
           else writeRequestError rq hs 400 ''invalid JSON request body'', s)
      | Inr request \<Rightarrow>
          (case PaymentService_UpdateStatus R cx cx' others (URLParam rq ''id'') request s of
             (Inl e, s') \<Rightarrow>
               (if errors_is e ErrValidation then writeRequestError rq hs 400 ''invalid payment status request''
                else if errors_is e ErrPaymentNotFound then writeRequestError rq hs 404 ''payment not found''
                else if errors_is e ErrInvalidStatusTransition
                then writeRequestError rq hs 409 ''invalid payment status transition''
                else writeRequestError rq hs 500 ''could not update payment status'', s')
           | (Inr p, s') \<Rightarrow> (WriteJSON hs 200 (payment_json cx p), s')))"

section \<open>The router\<close>

definition payment_routes ::
  "('x ctx_scheme, 's) payment_repository \<Rightarrow> 'x ctx_scheme \<Rightarrow> 'x ctx_scheme \<Rightarrow> ('s \<Rightarrow> 's) \<Rightarrow> 's route list"
where
  "payment_routes R cx cx' others =
     [\<lparr>rt_Method = ''POST'', rt_Pattern = ''/api/v1/payments'', rt_Handler = createPayment R cx\<rparr>,
      \<lparr>rt_Method = ''GET'', rt_Pattern = ''/api/v1/payments/{id}'', rt_Handler = getPayment R cx\<rparr>,
      \<lparr>rt_Method = ''PATCH'', rt_Pattern = ''/api/v1/payments/{id}/status'', rt_Handler = updatePaymentStatus R cx cx' others\<rparr>]"

text \<open>
  What the process is started with and what its probes see: the environment's name, the token,
  the limit, whether the database answers a ping, and the page of the metrics handler.
\<close>

record api_settings =
  api_AppEnv :: string
  api_InternalToken :: string
  api_MaxBodyBytes :: i64
  api_ping :: "fault option"
  api_metrics :: http_response

definition health_routes :: "api_settings \<Rightarrow> 's route list" where
  "health_routes cfg =
     [\<lparr>rt_Method = ''GET'', rt_Pattern = ''/health'',
        rt_Handler = (\<lambda>rq hs s. (WriteJSON hs 200
          (Some (JObj [(''env'', JStr (api_AppEnv cfg)), (''status'', JStr ''ok'')])), s))\<rparr>,
      \<lparr>rt_Method = ''GET'', rt_Pattern = ''/ready'',
        rt_Handler = (\<lambda>rq hs s. (case api_ping cfg of
            Some f \<Rightarrow> (WriteJSON hs 503
              (Some (JObj [(''error'', JStr ''database unavailable''), (''status'', JStr ''not_ready'')])), s)
          | None \<Rightarrow> (WriteJSON hs 200 (Some (JObj [(''status'', JStr ''ready'')])), s)))\<rparr>,
      \<lparr>rt_Method = ''GET'', rt_Pattern = ''/metrics'', rt_Handler = (\<lambda>rq hs s. (api_metrics cfg, s))\<rparr>]"

definition payment_api ::
  "matcher \<Rightarrow> api_settings \<Rightarrow> ('x ctx_scheme, 's) payment_repository \<Rightarrow> 'x ctx_scheme \<Rightarrow> 'x ctx_scheme
     \<Rightarrow> ('s \<Rightarrow> 's) \<Rightarrow> 's http_handler"
where
  "payment_api mt cfg R cx cx' others =
     Headers (\<lambda>rq hs s.
       if mounted ''/api/v1'' rq
       then InternalServiceToken cx (api_InternalToken cfg)
              (MaxBodyBytes (api_MaxBodyBytes cfg) (route mt (payment_routes R cx cx' others))) rq hs s
       else route mt (health_routes cfg) rq hs s)"

section \<open>Outcomes\<close>

lemma createPayment_decoded:
  assumes "decode_request cx create_request_fields zero_create_request rq = Inr request"
    and "PaymentService_Create R cx request (header_get (rq_Headers rq) ''Idempotency-Key'') s = (res, s')"
  shows "snd (createPayment R cx rq hs s) = s'"
    and "rs_Status (fst (createPayment R cx rq hs s)) =
      (case res of Inr (p, created) \<Rightarrow> if created then 201 else 200
       | Inl e \<Rightarrow> if errors_is e ErrValidation then 400 else if errors_is e ErrIdempotencyConflict then 409 else 500)"
  using assms by (auto simp: createPayment_def split: sum.split prod.split)

lemma createPayment_undecoded:
  assumes "decode_request cx create_request_fields zero_create_request rq = Inl b"
  shows "snd (createPayment R cx rq hs s) = s"
    and "rs_Status (fst (createPayment R cx rq hs s)) = (if b = BodyTooLarge then 413 else 400)"
  using assms by (auto simp: createPayment_def)

lemma updatePaymentStatus_decoded:
  assumes "decode_request cx update_request_fields zero_update_request rq = Inr request"
    and "PaymentService_UpdateStatus R cx cx' others (URLParam rq ''id'') request s = (res, s')"
  shows "snd (updatePaymentStatus R cx cx' others rq hs s) = s'"
    and "rs_Status (fst (updatePaymentStatus R cx cx' others rq hs s)) =
      (case res of Inr p \<Rightarrow> 200
       | Inl e \<Rightarrow> if errors_is e ErrValidation then 400 else if errors_is e ErrPaymentNotFound then 404
           else if errors_is e ErrInvalidStatusTransition then 409 else 500)"
  using assms by (auto simp: updatePaymentStatus_def split: sum.split prod.split)

end
