(* ===== verification/Payment_Api_Properties.thy ===== *)
theory Payment_Api_Properties
  imports Payment_Samples Payment_Api
begin

text \<open>
  Properties of the payment service's HTTP API over the PostgreSQL repository: what each
  status code says about the tables, and that nothing happens without the internal token.
\<close>

section \<open>Errors and effects\<close>

lemma in_tx_error_changed:
  "in_tx cx b c body db = (Inl e, db') \<Longrightarrow> db' \<noteq> db \<Longrightarrow> \<exists>m f. e = wrap m (fault_err f)"
  by (auto simp: in_tx_def split: option.splits prod.splits sum.splits commit_outcome.splits)

lemma Create_error_changed:
  assumes "Create cx p db = (Inl e, db')" and "db' \<noteq> db"
  shows "\<exists>m f. e = wrap m (fault_err f)"
proof -
  obtain b m body where "Create cx p db = in_tx cx b m body db" by (rule Create_tx)
  with assms in_tx_error_changed show ?thesis by metis
qed

lemma UpdateStatus_error_changed:
  assumes "UpdateStatus cx pid prev new db = (Inl e, db')" and "db' \<noteq> db"
  shows "\<exists>m f. e = wrap m (fault_err f)"
proof -
  obtain b m body where "UpdateStatus cx pid prev new db = in_tx cx b m body db" by (rule UpdateStatus_tx)
  with assms in_tx_error_changed show ?thesis by metis
qed

lemma service_create_error:
  assumes run: "pay_create cx request ikey db = (Inl e, db')" and "db' \<noteq> db"
  shows "\<not> errors_is e ErrValidation \<and> \<not> errors_is e ErrIdempotencyConflict"
proof -
  let ?p = "new_payment cx (normalize_create cx request) (trim_space ikey)"
  from run assms(2) obtain e' where create: "Create cx ?p db = (Inl e', db')"
    and e: "e = (if errors_is e' ErrIdempotencyConflict then ErrIdempotencyConflict else e')"
    by (auto simp: PaymentService_Create_def Let_def split: option.splits prod.splits sum.splits if_splits)
  from Create_error_changed [OF create assms(2)] obtain m f where "e' = wrap m (fault_err f)" by blast
  with e show ?thesis by simp
qed

lemma service_update_error:
  assumes run: "PaymentService_UpdateStatus PostgresPaymentRepository cx cx' others ident request db = (Inl e, db')"
    and "db' \<notin> {db, others db}"
  shows "\<not> errors_is e ErrValidation \<and> \<not> errors_is e ErrPaymentNotFound \<and> \<not> errors_is e ErrInvalidStatusTransition"
proof -
  from run assms(2) obtain pid prev new e' where upd: "UpdateStatus cx' pid prev new (others db) = (Inl e', db')"
    and e: "e = (if errors_is e' ErrPaymentNotFound then ErrPaymentNotFound else e')"
    by (auto simp: PaymentService_UpdateStatus_def update_write_def split: update_decision.splits prod.splits sum.splits if_splits)
  from UpdateStatus_error_changed [OF upd] assms(2) obtain m f where "e' = wrap m (fault_err f)" by blast
  with e show ?thesis by simp
qed

section \<open>Status codes\<close>

lemma create_answer_cases:
  assumes "createPayment PostgresPaymentRepository cx rq hs db = (resp, db')"
  obtains (created) r e where "rs_Status resp = 201" "db' = db\<lparr>payments := payments db @ [r], outbox := outbox db @ [e]\<rparr>"
      "ob_event_type e = PaymentCreatedEvent" "ob_aggregate_id e = pr_id r" "rs_Body resp = payment_json cx (row_payment r)"
    | (replayed) "rs_Status resp = 200" "db' = db" "header_get (rs_Headers resp) ''X-Idempotent-Replay'' = ''true''"
    | (rejected) "rs_Status resp \<in> {400, 409, 413}" "db' = db"
    | (failed) "rs_Status resp = 500" "db' = db \<or> (\<exists>r e. db' = db\<lparr>payments := payments db @ [r], outbox := outbox db @ [e]\<rparr>)"
proof (cases "decode_request cx create_request_fields zero_create_request rq")
  case (Inl b)
  with assms that show ?thesis by (auto simp: createPayment_def split: if_splits)
next
  case (Inr request)
  obtain res where run: "pay_create cx request (header_get (rq_Headers rq) ''Idempotency-Key'') db = (res, db')"
    using createPayment_decoded(1) [OF Inr] assms by (metis prod.collapse snd_conv)
  note resp = assms [unfolded createPayment_def Inr sum.case run prod.case]
  from run show ?thesis
  proof (cases rule: service_create_effect)
    case unchanged
    with resp that show ?thesis by (auto simp: WriteJSON_def split: sum.splits if_splits)
  next
    case (created p r e)
    then have db': "db' = db\<lparr>payments := payments db @ [r], outbox := outbox db @ [e]\<rparr>"
      and e: "ob_event_type e = PaymentCreatedEvent" "ob_aggregate_id e = pr_id r"
      by (auto simp: appends_def created_row_event_def)
    have "db' \<noteq> db" using db' by (metis append_self_conv not_Cons_self2 pay_db.select_convs(1) pay_db.surjective pay_db.update_convs(1) pay_db.update_convs(2))
    show ?thesis
    proof (cases res)
      case (Inl er)
      from service_create_error [OF run [unfolded Inl] \<open>db' \<noteq> db\<close>] resp Inl have "rs_Status resp = 500" by auto
      with db' that(4) show ?thesis by blast
    next
      case (Inr qc)
      with created(3) have "qc = (row_payment r, True)" by auto
      with resp Inr have "rs_Status resp = 201" "rs_Body resp = payment_json cx (row_payment r)" by auto
      with db' e that(1) show ?thesis by blast
    qed
  qed
qed

text \<open>
  C26. What the answer of POST /api/v1/payments says. 201 means that exactly one payment row and its payment.created
  row were added, and the body is that payment; 200 is a replay that changed nothing and is marked as one; 400, 409 and 413
  changed nothing; 413 is the answer exactly when the body goes beyond its limit with its JSON value incomplete there. Only
  500 leaves open whether the payment was added, and there is no other answer.
\<close>

theorem create_answer:
  assumes run: "createPayment PostgresPaymentRepository cx rq hs db = (resp, db')"
  shows "(rs_Status resp = 413 \<longleftrightarrow>
       body_limit rq < length (rq_Body rq) \<and> json_scan cx (take (body_limit rq) (rq_Body rq)) = ScanMore)
     \<and> ((rs_Status resp = 201 \<and> (\<exists>r e. db' = db\<lparr>payments := payments db @ [r], outbox := outbox db @ [e]\<rparr>
             \<and> ob_event_type e = PaymentCreatedEvent \<and> ob_aggregate_id e = pr_id r
             \<and> rs_Body resp = payment_json cx (row_payment r)))
       \<or> (rs_Status resp = 200 \<and> db' = db \<and> header_get (rs_Headers resp) ''X-Idempotent-Replay'' = ''true'')
       \<or> (rs_Status resp \<in> {400, 409, 413} \<and> db' = db)
       \<or> (rs_Status resp = 500 \<and> (db' = db \<or> (\<exists>r e. db' = db\<lparr>payments := payments db @ [r], outbox := outbox db @ [e]\<rparr>))))"
proof
  show "rs_Status resp = 413 \<longleftrightarrow>
     body_limit rq < length (rq_Body rq) \<and> json_scan cx (take (body_limit rq) (rq_Body rq)) = ScanMore"
    using run unfolding too_large_iff [of cx create_request_fields zero_create_request rq, symmetric]
    by (auto simp: createPayment_def split: sum.splits prod.splits if_splits)
  from run show "(rs_Status resp = 201 \<and> (\<exists>r e. db' = db\<lparr>payments := payments db @ [r], outbox := outbox db @ [e]\<rparr>
             \<and> ob_event_type e = PaymentCreatedEvent \<and> ob_aggregate_id e = pr_id r
             \<and> rs_Body resp = payment_json cx (row_payment r)))
       \<or> (rs_Status resp = 200 \<and> db' = db \<and> header_get (rs_Headers resp) ''X-Idempotent-Replay'' = ''true'')
       \<or> (rs_Status resp \<in> {400, 409, 413} \<and> db' = db)
       \<or> (rs_Status resp = 500 \<and> (db' = db \<or> (\<exists>r e. db' = db\<lparr>payments := payments db @ [r], outbox := outbox db @ [e]\<rparr>)))"
  proof (cases rule: create_answer_cases)
    case (created r e)
    then show ?thesis by (intro disjI1) blast
  qed simp_all
qed

definition sample_post :: http_request where
  "sample_post = \<lparr>rq_Method = ''POST'', rq_Path = ''/api/v1/payments'', rq_Host = ''payment-service'',
     rq_RemoteAddr = ''10.0.0.7:4711'', rq_Headers = [(''Idempotency-Key'', ''k''), (''X-Internal-Service-Token'', '' tok'')],
     rq_Body = ''{...}'', rq_Limit = Some 4, rq_Params = [], rq_RequestID = ''r1''\<rparr>"

definition post_ctx :: ctx where
  "post_ctx = (sample_ctx ''1'')\<lparr>json_scan := (\<lambda>_. ScanValue (JObj [(''Amount_Cents'', JInt 2500), (''currency'', JStr '' usd''),
     (''description'', JStr ''x'')]))\<rparr>"

theorem create_answer_witness:
  "\<exists>r e. snd (createPayment PostgresPaymentRepository post_ctx sample_post [] empty_pay_db)
     = empty_pay_db\<lparr>payments := [r], outbox := [e]\<rparr> \<and> ob_aggregate_id e = pr_id r"
proof -
  obtain resp db' where run: "createPayment PostgresPaymentRepository post_ctx sample_post [] empty_pay_db = (resp, db')" by force
  have "rs_Status (fst (createPayment PostgresPaymentRepository post_ctx sample_post [] empty_pay_db)) = 201" by code_simp
  then have "rs_Status resp = 201" by (simp add: run)
  with create_answer [OF run, THEN conjunct2] have
    "\<exists>r e. db' = empty_pay_db\<lparr>payments := [r], outbox := [e]\<rparr> \<and> ob_aggregate_id e = pr_id r"
    by (auto simp: empty_pay_db_def)
  then show ?thesis by (simp add: run)
qed

section \<open>Who reaches the API\<close>

lemma route_changes:
  assumes "snd (route mt routes rq hs s) \<noteq> s"
  obtains r where "r \<in> set routes" "serves mt r rq"
    "snd (rt_Handler r (rq\<lparr>rq_Params := the (mt (rt_Pattern r) (rq_Path rq))\<rparr>) hs s) \<noteq> s"
proof (cases "find (\<lambda>r. serves mt r rq) routes")
  case (Some r)
  with assms that [of r] show ?thesis by (auto simp: route_def find_Some_iff)
qed (use assms in \<open>simp add: route_def\<close>)

lemma payment_routes_write:
  assumes "snd (route mt (payment_routes R cx cx' others) rq hs s) \<noteq> s"
  shows "rq_Method rq \<in> {''POST'', ''PATCH''}"
  using assms
proof (rule route_changes)
  fix r assume r: "r \<in> set (payment_routes R cx cx' others)" "serves mt r rq"
    "snd (rt_Handler r (rq\<lparr>rq_Params := the (mt (rt_Pattern r) (rq_Path rq))\<rparr>) hs s) \<noteq> s"
  have "snd (getPayment R cx rq hs s) = s" for rq by (auto simp: getPayment_def split: sum.split)
  with r show ?thesis by (auto simp: payment_routes_def serves_def)
qed

lemma health_routes_read: "snd (route mt (health_routes cfg) rq hs s) = s"
proof (rule ccontr)
  assume "snd (route mt (health_routes cfg) rq hs s) \<noteq> s"
  then show False by (rule route_changes) (auto simp: health_routes_def split: option.splits)
qed

text \<open>
  C27. The payment service changes nothing unless the request is a POST or PATCH below /api/v1 whose X-Internal-Service-Token is,
  up to surrounding blanks, the configured token; any other request below /api/v1 without that token is answered with 401. The hypothesis is
  that no other text has the token's digest.
\<close>

theorem api_needs_token:
  fixes cx :: "'x ctx_scheme"
  assumes "\<forall>x. sha256 cx x = sha256 cx (api_InternalToken cfg) \<longrightarrow> x = api_InternalToken cfg"
    and run: "payment_api mt cfg R cx cx' others rq hs s = (resp, s')"
    and token: "token = trim_space (header_get (rq_Headers rq) ''X-Internal-Service-Token'')"
  shows "if mounted ''/api/v1'' rq \<and> token = api_InternalToken cfg \<and> token \<noteq> []
         then s' = s \<or> rq_Method rq \<in> {''POST'', ''PATCH''}
         else s' = s \<and> (rs_Status resp = 401 \<or> \<not> mounted ''/api/v1'' rq)"
proof -
  have match: "secret_matches cx (api_InternalToken cfg) token \<longleftrightarrow> token = api_InternalToken cfg \<and> token \<noteq> []"
    using assms(1) by (auto simp: secret_matches_def)
  have routed: "snd (route mt (payment_routes R cx cx' others) (rq\<lparr>rq_Limit := l\<rparr>) hs' s) = s
      \<or> rq_Method rq \<in> {''POST'', ''PATCH''}" for l hs'
    using payment_routes_write [of mt R cx cx' others "rq\<lparr>rq_Limit := l\<rparr>" hs' s] by auto
  show ?thesis
  proof (cases "mounted ''/api/v1'' rq")
    case True
    note m = True
    show ?thesis
    proof (cases "token = api_InternalToken cfg \<and> token \<noteq> []")
      case True
      with run m match show ?thesis
        using routed by (auto simp: payment_api_def middleware_defs simp flip: token) (metis snd_conv)+
    next
      case False
      with run m match show ?thesis by (auto simp: payment_api_def middleware_defs writeError_def simp flip: token)
    qed
  next
    case False
    have "snd (route mt (health_routes cfg) rq hs' s) = s" for hs' by (rule health_routes_read)
    with run False show ?thesis by (auto simp: payment_api_def Headers_def) (metis snd_conv)+
  qed
qed

definition sample_settings :: api_settings where
  "sample_settings = \<lparr>api_AppEnv = ''local'', api_InternalToken = ''tok'', api_MaxBodyBytes = 1048576, api_ping = None,
     api_metrics = \<lparr>rs_Status = 200, rs_Headers = [], rs_Body = None\<rparr>\<rparr>"

definition literal_matcher :: matcher where
  "literal_matcher pat path = (if pat = path then Some [] else None)"

abbreviation forged_post :: http_request where
  "forged_post \<equiv> sample_post\<lparr>rq_Headers := [(''X-Internal-Service-Token'', ''guess'')]\<rparr>"

theorem api_needs_token_witness:
  "\<exists>resp. payment_api literal_matcher sample_settings PostgresPaymentRepository (post_ctx\<lparr>sha256 := id\<rparr>) post_ctx id
      forged_post [] empty_pay_db = (resp, empty_pay_db) \<and> rs_Status resp = 401"
proof -
  let ?cx = "post_ctx\<lparr>sha256 := id\<rparr>"
  obtain resp s' where run: "payment_api literal_matcher sample_settings PostgresPaymentRepository ?cx post_ctx id
      forged_post [] empty_pay_db = (resp, s')" by force
  have "trim_space (header_get (rq_Headers forged_post) ''X-Internal-Service-Token'') = ''guess''" by code_simp
  moreover have "mounted ''/api/v1'' forged_post" by code_simp
  ultimately show ?thesis
    using api_needs_token [OF _ run refl] run by (simp add: sample_settings_def)
qed

end
