(* ===== verification/Configuration.thy ===== *)
theory Configuration
  imports Go_Runtime
begin

text \<open>
  Configuration from the environment: the helpers that the services share by copy, the Kafka
  security settings and what is built from them (\<open>config/kafka_security.go\<close>,
  \<open>kafkaclient/security.go\<close>), and the configurations of the three services. The environment is
  the one after \<open>godotenv\<close> has loaded its files. \<open>time.ParseDuration\<close> (floating point) and
  \<open>url.Parse\<close> are components of the environment's record.
\<close>

section \<open>The environment\<close>

record url =
  url_Scheme :: string
  url_Host :: string
  url_Path :: string

record env = unicode_tables +
  ev_Getenv :: "string \<Rightarrow> string"
  ev_ParseDuration :: "string \<Rightarrow> i64 option"
  ev_url_parse :: "string \<Rightarrow> url option"

definition getEnv :: "'x env_scheme \<Rightarrow> string \<Rightarrow> string \<Rightarrow> string" where
  "getEnv E key fallback = (let value = ev_Getenv E key in if value = [] then fallback else value)"

definition config_error :: "string \<Rightarrow> err" where
  "config_error msg = ErrWrap ''invalid config: '' ErrInvalidConfig ('': '' @ msg)"

text \<open>The four readers: an empty value is the fallback, a value that does not parse is an error.\<close>

definition parseBoolEnv :: "'x env_scheme \<Rightarrow> string \<Rightarrow> bool \<Rightarrow> err + bool" where
  "parseBoolEnv E key fallback =
     (let value = trim_space (ev_Getenv E key)
      in if value = [] then Inr fallback
         else (case parse_bool value of
                 None \<Rightarrow> Inl (config_error (key @ '' must be a boolean''))
               | Some parsed \<Rightarrow> Inr parsed))"

definition parseInt64Env :: "'x env_scheme \<Rightarrow> string \<Rightarrow> i64 \<Rightarrow> err + i64" where
  "parseInt64Env E key fallback =
     (let value = trim_space (ev_Getenv E key)
      in if value = [] then Inr fallback
         else (case parse_int64 value of
                 None \<Rightarrow> Inl (config_error (key @ '' must be an integer''))
               | Some parsed \<Rightarrow> Inr parsed))"

definition parseDurationEnv :: "'x env_scheme \<Rightarrow> string \<Rightarrow> i64 \<Rightarrow> err + i64" where
  "parseDurationEnv E key fallback =
     (let value = trim_space (ev_Getenv E key)
      in if value = [] then Inr fallback
         else (case ev_ParseDuration E value of
                 None \<Rightarrow> Inl (config_error (key @ '' must be a duration''))
               | Some parsed \<Rightarrow> Inr parsed))"

definition parseCSVEnv :: "'x env_scheme \<Rightarrow> string \<Rightarrow> string \<Rightarrow> string list" where
  "parseCSVEnv E key fallback =
     filter (\<lambda>part. part \<noteq> []) (map trim_space (split_on CHR '','' (getEnv E key fallback)))"

definition blank :: "string \<Rightarrow> bool" where
  "blank s \<longleftrightarrow> trim_space s = []"

text \<open>A list of problems, in the order of the checks; \<open>Validate\<close> reports them all at once.\<close>

definition problem :: "bool \<Rightarrow> string \<Rightarrow> string list" where
  "problem b msg = (if b then [msg] else [])"

definition problems_error :: "string list \<Rightarrow> err option" where
  "problems_error problems = (if 0 < length problems then Some (config_error (str_join ''; '' problems)) else None)"

lemma problem_Nil [simp]: "problem b msg = [] \<longleftrightarrow> \<not> b"
  by (simp add: problem_def)

lemma problems_error_None [simp]: "problems_error ps = None \<longleftrightarrow> ps = []"
  by (simp add: problems_error_def)

lemma config_error_is [simp]: "errors_is (config_error msg) ErrInvalidConfig"
  by (simp add: config_error_def)

lemma env_errors:
  "parseBoolEnv E key b = Inl e \<Longrightarrow> errors_is e ErrInvalidConfig"
  "parseInt64Env E key n = Inl e \<Longrightarrow> errors_is e ErrInvalidConfig"
  "parseDurationEnv E key n = Inl e \<Longrightarrow> errors_is e ErrInvalidConfig"
  "problems_error ps = Some e \<Longrightarrow> errors_is e ErrInvalidConfig"
  by (auto simp: parseBoolEnv_def parseInt64Env_def parseDurationEnv_def problems_error_def Let_def
      split: if_splits option.splits)

lemma parseCSVEnv_members: "b \<in> set (parseCSVEnv E key fallback) \<Longrightarrow> b \<noteq> [] \<and> trimmed b"
  by (auto simp: parseCSVEnv_def trim_space_trimmed)

section \<open>Kafka security\<close>

record kafka_security_config =
  ks_RequireSecureTransport :: bool
  ks_TLSEnabled :: bool
  ks_TLSCAFile :: string
  ks_TLSCertFile :: string
  ks_TLSKeyFile :: string
  ks_TLSServerName :: string
  ks_SASLMechanism :: string
  ks_SASLUsername :: string
  ks_SASLPassword :: string

definition loadKafkaSecurity :: "'x env_scheme \<Rightarrow> err + kafka_security_config" where
  "loadKafkaSecurity E =
     (case parseBoolEnv E ''KAFKA_REQUIRE_SECURE_TRANSPORT'' False of
        Inl e \<Rightarrow> Inl e
      | Inr requireSecureTransport \<Rightarrow>
          (case parseBoolEnv E ''KAFKA_TLS_ENABLED'' False of
             Inl e \<Rightarrow> Inl e
           | Inr tlsEnabled \<Rightarrow>
               Inr \<lparr>ks_RequireSecureTransport = requireSecureTransport,
                    ks_TLSEnabled = tlsEnabled,
                    ks_TLSCAFile = trim_space (ev_Getenv E ''KAFKA_TLS_CA_FILE''),
                    ks_TLSCertFile = trim_space (ev_Getenv E ''KAFKA_TLS_CERT_FILE''),
                    ks_TLSKeyFile = trim_space (ev_Getenv E ''KAFKA_TLS_KEY_FILE''),
                    ks_TLSServerName = trim_space (ev_Getenv E ''KAFKA_TLS_SERVER_NAME''),
                    ks_SASLMechanism = to_lower E (trim_space (getEnv E ''KAFKA_SASL_MECHANISM'' ''none'')),
                    ks_SASLUsername = trim_space (ev_Getenv E ''KAFKA_SASL_USERNAME''),
                    ks_SASLPassword = ev_Getenv E ''KAFKA_SASL_PASSWORD''\<rparr>))"

definition validationProblems :: "kafka_security_config \<Rightarrow> string list" where
  "validationProblems c =
     problem (ks_RequireSecureTransport c \<and> \<not> ks_TLSEnabled c)
       ''KAFKA_TLS_ENABLED must be true when KAFKA_REQUIRE_SECURE_TRANSPORT is true''
     @ problem (\<not> ks_TLSEnabled c \<and> (ks_TLSCAFile c \<noteq> [] \<or> ks_TLSCertFile c \<noteq> [] \<or> ks_TLSKeyFile c \<noteq> [] \<or> ks_TLSServerName c \<noteq> []))
       ''Kafka TLS settings require KAFKA_TLS_ENABLED=true''
     @ problem ((ks_TLSCertFile c = []) \<noteq> (ks_TLSKeyFile c = []))
       ''KAFKA_TLS_CERT_FILE and KAFKA_TLS_KEY_FILE must be set together''
     @ (if ks_SASLMechanism c \<in> {''none'', []}
        then problem (ks_SASLUsername c \<noteq> [] \<or> ks_SASLPassword c \<noteq> [])
               ''Kafka SASL credentials require KAFKA_SASL_MECHANISM''
        else if ks_SASLMechanism c \<in> {''plain'', ''scram-sha-256'', ''scram-sha-512''}
        then problem (ks_SASLUsername c = [] \<or> ks_SASLPassword c = [])
               ''KAFKA_SASL_USERNAME and KAFKA_SASL_PASSWORD are required when SASL is enabled''
        else [''KAFKA_SASL_MECHANISM must be none, plain, scram-sha-256, or scram-sha-512''])
     @ problem (ks_SASLMechanism c = ''plain'' \<and> \<not> ks_TLSEnabled c)
       ''KAFKA_TLS_ENABLED must be true when SASL PLAIN is used''"

text \<open>
  What is built from the settings. Reading files, parsing certificates and preparing SCRAM
  credentials are components of the record.
\<close>

record tls_config =
  tls_MinVersion :: nat
  tls_ServerName :: string
  tls_ExtraRoots :: "string option"
  tls_Certificates :: "(string \<times> string) list"

datatype mechanism = Plain string string | SHA256 string string | SHA512 string string

record key_store =
  kf_ReadFile :: "string \<Rightarrow> err + string"
  kf_AppendCertsFromPEM :: "string \<Rightarrow> bool"
  kf_LoadX509KeyPair :: "string \<Rightarrow> string \<Rightarrow> err option"
  kf_scram :: "mechanism \<Rightarrow> err option"

definition VersionTLS12 :: nat where
  "VersionTLS12 = 0x0303"

definition buildTLSConfig :: "key_store \<Rightarrow> kafka_security_config \<Rightarrow> err + tls_config option" where
  "buildTLSConfig F cfg =
     (if \<not> ks_TLSEnabled cfg then Inr None
      else
        (let tlsConfig = \<lparr>tls_MinVersion = VersionTLS12, tls_ServerName = ks_TLSServerName cfg,
                          tls_ExtraRoots = None, tls_Certificates = []\<rparr>
         in case (if ks_TLSCAFile cfg = [] then Inr tlsConfig
                  else (case kf_ReadFile F (ks_TLSCAFile cfg) of
                          Inl e \<Rightarrow> Inl (wrap ''read Kafka TLS CA file'' e)
                        | Inr caPEM \<Rightarrow>
                            if \<not> kf_AppendCertsFromPEM F caPEM
                            then Inl (ErrText ''Kafka TLS CA file contains no valid certificates'')
                            else Inr (tlsConfig\<lparr>tls_ExtraRoots := Some caPEM\<rparr>))) of
              Inl e \<Rightarrow> Inl e
            | Inr tlsConfig \<Rightarrow>
                if ks_TLSCertFile cfg \<noteq> [] \<or> ks_TLSKeyFile cfg \<noteq> []
                then (case kf_LoadX509KeyPair F (ks_TLSCertFile cfg) (ks_TLSKeyFile cfg) of
                        Some e \<Rightarrow> Inl (wrap ''load Kafka TLS client certificate'' e)
                      | None \<Rightarrow> Inr (Some (tlsConfig\<lparr>tls_Certificates := [(ks_TLSCertFile cfg, ks_TLSKeyFile cfg)]\<rparr>)))
                else Inr (Some tlsConfig)))"

definition scram_mechanism :: "key_store \<Rightarrow> mechanism \<Rightarrow> err + mechanism option" where
  "scram_mechanism F m = (case kf_scram F m of Some e \<Rightarrow> Inl e | None \<Rightarrow> Inr (Some m))"

definition buildSASLMechanism :: "key_store \<Rightarrow> kafka_security_config \<Rightarrow> err + mechanism option" where
  "buildSASLMechanism F cfg =
     (if ks_SASLMechanism cfg \<in> {[], ''none''} then Inr None
      else if ks_SASLMechanism cfg = ''plain'' then Inr (Some (Plain (ks_SASLUsername cfg) (ks_SASLPassword cfg)))
      else if ks_SASLMechanism cfg = ''scram-sha-256''
      then scram_mechanism F (SHA256 (ks_SASLUsername cfg) (ks_SASLPassword cfg))
      else if ks_SASLMechanism cfg = ''scram-sha-512''
      then scram_mechanism F (SHA512 (ks_SASLUsername cfg) (ks_SASLPassword cfg))
      else Inl (ErrText (''unsupported Kafka SASL mechanism '' @ go_quote (ks_SASLMechanism cfg))))"

definition BuildSecurity :: "key_store \<Rightarrow> kafka_security_config \<Rightarrow> err + tls_config option \<times> mechanism option" where
  "BuildSecurity F cfg =
     (case buildTLSConfig F cfg of
        Inl e \<Rightarrow> Inl e
      | Inr tlsConfig \<Rightarrow>
          (case buildSASLMechanism F cfg of
             Inl e \<Rightarrow> Inl e
           | Inr mechanism \<Rightarrow> Inr (tlsConfig, mechanism)))"

section \<open>Facts about validated settings\<close>

lemma validationProblems_Nil:
  assumes "validationProblems c = []"
  shows "ks_RequireSecureTransport c \<Longrightarrow> ks_TLSEnabled c"
    and "ks_SASLMechanism c = ''plain'' \<Longrightarrow> ks_TLSEnabled c"
    and "ks_SASLMechanism c \<in> {''none'', [], ''plain'', ''scram-sha-256'', ''scram-sha-512''}"
    and "ks_SASLMechanism c \<in> {''plain'', ''scram-sha-256'', ''scram-sha-512''} \<Longrightarrow> ks_SASLUsername c \<noteq> [] \<and> ks_SASLPassword c \<noteq> []"
    and "(ks_TLSCertFile c = []) = (ks_TLSKeyFile c = [])"
  using assms by (auto simp: validationProblems_def split: if_splits)

lemma buildTLSConfig_Inr:
  assumes "buildTLSConfig F c = Inr t"
  shows "(t = None \<longleftrightarrow> \<not> ks_TLSEnabled c) \<and> (\<forall>x. t = Some x \<longrightarrow> VersionTLS12 \<le> tls_MinVersion x \<and> tls_ServerName x = ks_TLSServerName c)"
  using assms by (auto simp: buildTLSConfig_def Let_def split: if_splits sum.splits option.splits)

lemma buildSASLMechanism_supported:
  assumes "validationProblems c = []"
  shows "case buildSASLMechanism F c of
      Inl e \<Rightarrow> \<exists>m. kf_scram F m = Some e
    | Inr None \<Rightarrow> ks_SASLMechanism c \<in> {''none'', []}
    | Inr (Some m) \<Rightarrow> \<exists>u p. u \<noteq> [] \<and> p \<noteq> [] \<and> m \<in> {Plain u p, SHA256 u p, SHA512 u p} \<and> (m = Plain u p \<longrightarrow> ks_TLSEnabled c)"
  using validationProblems_Nil [OF assms]
  by (auto simp: buildSASLMechanism_def scram_mechanism_def split: option.splits)

section \<open>A concrete environment\<close>

text \<open>The environment that the witnesses use: the given variables, and no duration parses.\<close>

definition env_with :: "(string \<times> string) list \<Rightarrow> env" where
  "env_with vars =
     \<lparr>tab_upper = id, tab_lower = id, tab_is_upper = (\<lambda>_. False), tab_is_letter = (\<lambda>_. False),
      ev_Getenv = (\<lambda>k. case map_of vars k of None \<Rightarrow> [] | Some v \<Rightarrow> v), ev_ParseDuration = (\<lambda>_. None),
      ev_url_parse = (\<lambda>_. Some \<lparr>url_Scheme = ''http'', url_Host = ''h'', url_Path = []\<rparr>)\<rparr>"

end
