(* ===== verification/Configuration_Properties.thy ===== *)
theory Configuration_Properties
  imports Service_Configs Payment_Api Samples
begin

text \<open>
  Properties of the configuration: what a service that starts can rely on, that Kafka
  credentials do not travel in the clear, and the tokens that the checks let through although no request can match them.
\<close>

text \<open>
  What a started service relies on. Loading a configuration fails only with an error in whose chain is ErrInvalidConfig; otherwise the
  gateway has a positive limit, window and body size and keys that are not blank, the consumer has at least one attempt,
  positive waits in order and a dead-letter topic of its own, and both services have brokers, each without surrounding blanks.
\<close>

theorem loaded_settings:
  "(case gateway_Load E of
      Inl e \<Rightarrow> errors_is e ErrInvalidConfig
    | Inr c \<Rightarrow> 0 < sint (gc_RateLimitRequests c) \<and> 0 < sint (gc_RateLimitWindow c) \<and> 0 < sint (gc_MaxBodyBytes c)
        \<and> \<not> blank (gc_APIKey c) \<and> \<not> blank (gc_InternalToken c))
   \<and> (case ledger_Load E of
      Inl e \<Rightarrow> errors_is e ErrInvalidConfig
    | Inr c \<Rightarrow> 1 \<le> sint (lc_ConsumerMaxAttempts c) \<and> 0 < sint (lc_RetryInitialBackoff c)
        \<and> sint (lc_RetryInitialBackoff c) \<le> sint (lc_RetryMaxBackoff c)
        \<and> lc_DeadLetterTopic c \<noteq> lc_PaymentEventsTopic c \<and> \<not> blank (lc_DeadLetterTopic c) \<and> \<not> blank (lc_InternalToken c)
        \<and> lc_KafkaBrokers c \<noteq> [] \<and> list_all trimmed (lc_KafkaBrokers c))
   \<and> (case payment_Load E of
      Inl e \<Rightarrow> errors_is e ErrInvalidConfig
    | Inr c \<Rightarrow> 0 < sint (pc_MaxBodyBytes c) \<and> \<not> blank (pc_InternalToken c) \<and> \<not> blank (pc_PaymentEventsTopic c)
        \<and> pc_KafkaBrokers c \<noteq> [] \<and> list_all trimmed (pc_KafkaBrokers c))"
proof -
  have pay: "pc_KafkaBrokers c = parseCSVEnv E ''KAFKA_BROKERS'' ''localhost:9092''" if "payment_Load E = Inr c" for c
    using that by (auto simp: payment_Load_def Let_def split: sum.splits option.splits)
  have led: "lc_KafkaBrokers c = parseCSVEnv E ''KAFKA_BROKERS'' ''localhost:9092''" if "ledger_Load E = Inr c" for c
    using that by (auto simp: ledger_Load_def Let_def ledger_parseCSVEnv_def split: sum.splits option.splits)
  have brokers: "list_all trimmed (parseCSVEnv E ''KAFKA_BROKERS'' ''localhost:9092'')"
    using parseCSVEnv_members by (fastforce simp: list_all_iff)
  show ?thesis
    using payment_Load_result [of E] ledger_Load_result [of E] gateway_Load_result [of E] pay led brokers
    by (auto simp: payment_problems_Nil ledger_problems_Nil gateway_problems_Nil split: sum.splits)
qed

text \<open>
  C33. Secure transport. When the payment service or the ledger has started and its Kafka security was built, then TLS is used
  if secure transport is required, always from version 1.2; a SASL PLAIN password is only used under TLS, no
  mechanism has an empty user or password, and there is no mechanism only when the setting says so.
\<close>

theorem secure_transport:
  assumes loaded: "(\<exists>cfg. payment_Load E = Inr cfg \<and> sec = pc_KafkaSecurity cfg) \<or> (\<exists>cfg. ledger_Load E = Inr cfg \<and> sec = lc_KafkaSecurity cfg)"
    and built: "BuildSecurity F sec = Inr (tls, mech)"
  shows "(ks_RequireSecureTransport sec \<longrightarrow> tls \<noteq> None) \<and> (\<forall>t. tls = Some t \<longrightarrow> VersionTLS12 \<le> tls_MinVersion t)
    \<and> (mech = None \<longleftrightarrow> ks_SASLMechanism sec \<in> {''none'', []})
    \<and> (\<forall>m. mech = Some m \<longrightarrow> (\<exists>u p. u \<noteq> [] \<and> p \<noteq> [] \<and> m \<in> {Plain u p, SHA256 u p, SHA512 u p} \<and> (m = Plain u p \<longrightarrow> tls \<noteq> None)))"
proof -
  have ok: "validationProblems sec = []"
    using loaded payment_Load_result [of E] ledger_Load_result [of E]
    by (auto simp: payment_problems_Nil ledger_problems_Nil)
  from built have tls: "buildTLSConfig F sec = Inr tls" and mech: "buildSASLMechanism F sec = Inr mech"
    by (auto simp: BuildSecurity_def split: sum.splits)
  note t = buildTLSConfig_Inr [OF tls]
  show ?thesis
  proof (cases mech)
    case None
    with buildSASLMechanism_supported [OF ok, of F] mech t validationProblems_Nil(1) [OF ok] show ?thesis by auto
  next
    case (Some m)
    have "ks_SASLMechanism sec \<notin> {''none'', []}" using mech Some by (auto simp: buildSASLMechanism_def)
    with buildSASLMechanism_supported [OF ok, of F] mech t Some validationProblems_Nil(1) [OF ok] show ?thesis by auto
  qed
qed

theorem secure_transport_witness:
  "\<exists>tls sec. BuildSecurity \<lparr>kf_ReadFile = (\<lambda>_. Inr []), kf_AppendCertsFromPEM = (\<lambda>_. True), kf_LoadX509KeyPair = (\<lambda>_ _. None), kf_scram = (\<lambda>_. None)\<rparr> sec
      = Inr (Some tls, Some (Plain ''u'' ''p'')) \<and> VersionTLS12 \<le> tls_MinVersion tls"
proof -
  let ?E = "env_with [(''KAFKA_TLS_ENABLED'', '' true''), (''KAFKA_SASL_MECHANISM'', ''PLAIN''), (''KAFKA_SASL_USERNAME'', ''u''), (''KAFKA_SASL_PASSWORD'', ''p'')]"
  let ?F = "\<lparr>kf_ReadFile = (\<lambda>_. Inr []), kf_AppendCertsFromPEM = (\<lambda>_. True), kf_LoadX509KeyPair = (\<lambda>_ _. None), kf_scram = (\<lambda>_. None)\<rparr>"
  have "case payment_Load ?E of Inl e \<Rightarrow> False | Inr cfg \<Rightarrow>
      (case BuildSecurity ?F (pc_KafkaSecurity cfg) of Inl e \<Rightarrow> False | Inr (t, m) \<Rightarrow> t \<noteq> None \<and> m = Some (Plain ''u'' ''p''))" by code_simp
  then obtain cfg t where l: "payment_Load ?E = Inr cfg" "BuildSecurity ?F (pc_KafkaSecurity cfg) = Inr (Some t, Some (Plain ''u'' ''p''))"
    by (auto split: sum.splits)
  from secure_transport [OF disjI1 l(2)] l have "VersionTLS12 \<le> tls_MinVersion t" by blast
  with l(2) show ?thesis by blast
qed

text \<open>
  A token that no request can carry. The checks accept an internal token with blanks around it, but the middleware trims the
  token of every request before it compares: a payment service that started with such a token refuses every request below
  /api/v1 with 401.
\<close>

theorem padded_token_refuses_all:
  fixes cx :: "'x ctx_scheme"
  assumes "payment_Load E = Inr cfg" and padded: "\<not> trimmed (pc_InternalToken cfg)"
    and "api_InternalToken acfg = pc_InternalToken cfg"
    and "\<forall>x. sha256 cx x = sha256 cx (pc_InternalToken cfg) \<longrightarrow> x = pc_InternalToken cfg"
    and "mounted ''/api/v1'' rq"
  shows "\<exists>resp. payment_api mt acfg R cx cx' others rq hs s = (resp, s) \<and> rs_Status resp = 401"
proof -
  have "trimmed (trim_space (header_get (rq_Headers rq) ''X-Internal-Service-Token''))" by (rule trim_space_trimmed)
  with padded assms(3,4) have "\<not> secret_matches cx (api_InternalToken acfg) (trim_space (header_get (rq_Headers rq) ''X-Internal-Service-Token''))"
    by (auto simp: secret_matches_def)
  with assms(5) show ?thesis by (simp add: payment_api_def middleware_defs writeError_def)
qed

abbreviation padded_api where
  "padded_api rq db \<equiv> payment_api (\<lambda>_ _. Some []) \<lparr>api_AppEnv = [], api_InternalToken = ''tok '', api_MaxBodyBytes = 1, api_ping = None,
        api_metrics = \<lparr>rs_Status = 200, rs_Headers = [], rs_Body = None\<rparr>\<rparr>
      PostgresPaymentRepository ((sample_ctx [])\<lparr>sha256 := id\<rparr>) (sample_ctx []) id rq [] db"

theorem padded_token_refuses_all_witness:
  "\<exists>cfg resp. payment_Load (env_with [(''INTERNAL_SERVICE_TOKEN'', ''tok '')]) = Inr cfg
    \<and> padded_api \<lparr>rq_Method = ''GET'', rq_Path = ''/api/v1/payments/a'', rq_Host = [], rq_RemoteAddr = [],
        rq_Headers = [(''X-Internal-Service-Token'', ''tok '')], rq_Body = [], rq_Limit = None, rq_Params = [], rq_RequestID = []\<rparr> empty_pay_db
      = (resp, empty_pay_db) \<and> rs_Status resp = 401"
proof -
  let ?E = "env_with [(''INTERNAL_SERVICE_TOKEN'', ''tok '')]"
  let ?rq = "\<lparr>rq_Method = ''GET'', rq_Path = ''/api/v1/payments/a'', rq_Host = [], rq_RemoteAddr = [],
        rq_Headers = [(''X-Internal-Service-Token'', ''tok '')], rq_Body = [], rq_Limit = None, rq_Params = [], rq_RequestID = []\<rparr>"
  have "case payment_Load ?E of Inl e \<Rightarrow> False | Inr cfg \<Rightarrow> pc_InternalToken cfg = ''tok ''" by code_simp
  then obtain cfg where l: "payment_Load ?E = Inr cfg" "pc_InternalToken cfg = ''tok ''" by (auto split: sum.splits)
  have t: "\<not> trimmed ''tok ''" by code_simp
  have "\<exists>resp. padded_api ?rq empty_pay_db = (resp, empty_pay_db) \<and> rs_Status resp = 401"
    by (rule padded_token_refuses_all [OF l(1)]) (simp_all add: l(2) t mounted_def)
  with l(1) show ?thesis by blast
qed

end
