(* ===== verification/Retention.thy ===== *)
theory Retention
  imports Configuration Outbox_Publisher Ledger_Repo
begin

text \<open>
  Retention of operational rows: \<open>internal/retention/retention.go\<close> and \<open>cmd/retention/main.go\<close>.
  The three SQL statements pairs act on the tables of both services, which share the database.
  A row is deleted in bounded batches, skipping locked rows, until a batch is not full.
\<close>

section \<open>Rules\<close>

record op_db =
  od_pay :: pay_db
  od_led :: led_db

text \<open>One batch: which rows others have locked, and the order of the server's scan.\<close>

record scan =
  sc_locked :: "string \<Rightarrow> bool"
  sc_order :: "nat list"

text \<open>
  \<open>WITH candidates AS (SELECT ctid ... WHERE P LIMIT $2 FOR UPDATE SKIP LOCKED), deleted AS (DELETE ... RETURNING 1)
  SELECT count(*)\<close> on a table with a unique identifier.
\<close>

definition candidates :: "('r \<Rightarrow> string) \<Rightarrow> ('r \<Rightarrow> bool) \<Rightarrow> scan \<Rightarrow> int \<Rightarrow> 'r list \<Rightarrow> 'r list" where
  "candidates key P sc limit rows =
     take (nat limit) (filter (\<lambda>r. \<not> sc_locked sc (key r)) (reorder (sc_order sc) (filter P rows)))"

definition delete_batch :: "('r \<Rightarrow> string) \<Rightarrow> ('r \<Rightarrow> bool) \<Rightarrow> scan \<Rightarrow> int \<Rightarrow> 'r list \<Rightarrow> int \<times> 'r list" where
  "delete_batch key P sc limit rows =
     (let cs = candidates key P sc limit rows
      in (int (length cs), sql_delete (\<lambda>r. key r \<in> set (map key cs)) rows))"

record 'db rule =
  ru_Name :: string
  ru_Retention :: i64
  ru_CountSQL :: "int \<Rightarrow> 'db \<Rightarrow> int"
  ru_DeleteSQL :: "scan \<Rightarrow> int \<Rightarrow> int \<Rightarrow> 'db \<Rightarrow> int \<times> 'db"

record result =
  re_Name :: string
  re_Eligible :: int
  re_Deleted :: int
  re_DryRun :: bool

definition before :: "int \<Rightarrow> int option \<Rightarrow> bool" where
  "before cutoff t = (case t of None \<Rightarrow> False | Some x \<Rightarrow> x < cutoff)"

definition old_outbox :: "int \<Rightarrow> outbox_row \<Rightarrow> bool" where
  "old_outbox cutoff e \<longleftrightarrow> ob_status e = ''published'' \<and> before cutoff (ob_published_at e)"

definition old_consumed :: "int \<Rightarrow> consumed_row \<Rightarrow> bool" where
  "old_consumed cutoff c \<longleftrightarrow> ce_consumed_at c < cutoff"

definition old_replay :: "int \<Rightarrow> replay_row \<Rightarrow> bool" where
  "old_replay cutoff r \<longleftrightarrow> dr_status r \<in> {''succeeded'', ''failed''} \<and> before cutoff (dr_completed_at r)"

definition outbox_rule :: "i64 \<Rightarrow> op_db rule" where
  "outbox_rule retention =
     \<lparr>ru_Name = ''published_outbox_events'', ru_Retention = retention,
      ru_CountSQL = (\<lambda>cutoff db. int (length (filter (old_outbox cutoff) (outbox (od_pay db))))),
      ru_DeleteSQL = (\<lambda>sc cutoff limit db.
        (case delete_batch ob_id (old_outbox cutoff) sc limit (outbox (od_pay db)) of
           (n, rows) \<Rightarrow> (n, db\<lparr>od_pay := (od_pay db)\<lparr>outbox := rows\<rparr>\<rparr>)))\<rparr>"

definition consumed_rule :: "i64 \<Rightarrow> op_db rule" where
  "consumed_rule retention =
     \<lparr>ru_Name = ''consumed_ledger_events'', ru_Retention = retention,
      ru_CountSQL = (\<lambda>cutoff db. int (length (filter (old_consumed cutoff) (consumed (od_led db))))),
      ru_DeleteSQL = (\<lambda>sc cutoff limit db.
        (case delete_batch ce_event_id (old_consumed cutoff) sc limit (consumed (od_led db)) of
           (n, rows) \<Rightarrow> (n, db\<lparr>od_led := (od_led db)\<lparr>consumed := rows\<rparr>\<rparr>)))\<rparr>"

definition replay_rule :: "i64 \<Rightarrow> op_db rule" where
  "replay_rule retention =
     \<lparr>ru_Name = ''completed_dead_letter_replays'', ru_Retention = retention,
      ru_CountSQL = (\<lambda>cutoff db. int (length (filter (old_replay cutoff) (replays (od_led db))))),
      ru_DeleteSQL = (\<lambda>sc cutoff limit db.
        (case delete_batch dr_id (old_replay cutoff) sc limit (replays (od_led db)) of
           (n, rows) \<Rightarrow> (n, db\<lparr>od_led := (od_led db)\<lparr>replays := rows\<rparr>\<rparr>)))\<rparr>"

definition Rules :: "i64 \<Rightarrow> i64 \<Rightarrow> i64 \<Rightarrow> op_db rule list" where
  "Rules outboxRetention consumedRetention replayRetention =
     [outbox_rule outboxRetention, consumed_rule consumedRetention, replay_rule replayRetention]"

section \<open>Running a rule\<close>

text \<open>
  The environment of a run: which query fails (query 0 counts, query k + 1 is batch k), with or
  without the server having done it; the scan of each batch; and what others do to the tables before it.
\<close>

record 'db run_env =
  rn_fault :: "nat \<Rightarrow> (fault \<times> bool) option"
  rn_scan :: "nat \<Rightarrow> scan"
  rn_others :: "nat \<Rightarrow> 'db \<Rightarrow> 'db"

text \<open>The loop may run as long as others keep adding rows: not to return is \<open>None\<close>.\<close>

partial_function (option) delete_loop ::
  "'db run_env \<Rightarrow> 'db rule \<Rightarrow> int \<Rightarrow> int \<Rightarrow> nat \<Rightarrow> int \<Rightarrow> 'db \<Rightarrow> ((err + int) \<times> 'db) option"
where
  "delete_loop E rule cutoff batchSize k done_so_far db =
     (case ru_DeleteSQL rule (rn_scan E k) cutoff batchSize (rn_others E k db) of
        (deleted, db') \<Rightarrow>
          (case rn_fault E (k + 1) of
             Some (f, applied) \<Rightarrow>
               Some (Inl (wrap (''delete '' @ ru_Name rule @ '' batch'') (fault_err f)), if applied then db' else rn_others E k db)
           | None \<Rightarrow>
               if deleted < batchSize then Some (Inr (done_so_far + deleted), db')
               else delete_loop E rule cutoff batchSize (k + 1) (done_so_far + deleted) db'))"

definition RunRule ::
  "'db run_env \<Rightarrow> 'db rule \<Rightarrow> int \<Rightarrow> i64 \<Rightarrow> bool \<Rightarrow> 'db \<Rightarrow> ((err + result) \<times> 'db) option"
where
  "RunRule E rule now batchSize dryRun db =
     (if ru_Retention rule \<le>s 0 then Some (Inl (ErrText (ru_Name rule @ '' retention must be greater than zero'')), db)
      else if batchSize <s 1 then Some (Inl (ErrText ''batch size must be at least 1''), db)
      else
        (let cutoff = now - sint (ru_Retention rule);
             eligible = ru_CountSQL rule cutoff db;
             res = \<lparr>re_Name = ru_Name rule, re_Eligible = eligible, re_Deleted = 0, re_DryRun = dryRun\<rparr>
         in case rn_fault E 0 of
              Some (f, _) \<Rightarrow> Some (Inl (wrap (''count '' @ ru_Name rule) (fault_err f)), db)
            | None \<Rightarrow>
                if dryRun then Some (Inr res, db)
                else map_option (\<lambda>(r, db'). (case r of Inl e \<Rightarrow> (Inl e, db') | Inr n \<Rightarrow> (Inr (res\<lparr>re_Deleted := n\<rparr>), db')))
                       (delete_loop E rule cutoff (sint batchSize) 0 0 db)))"

section \<open>The command\<close>

record retention_config =
  rc_databaseURL :: string
  rc_dryRun :: bool
  rc_batchSize :: i64
  rc_outboxRetention :: i64
  rc_consumedRetention :: i64
  rc_replayRetention :: i64

definition retentionConfirmation :: string where
  "retentionConfirmation = ''DELETE_OPERATIONAL_DATA''"

definition durationEnv :: "'x env_scheme \<Rightarrow> string \<Rightarrow> i64 \<Rightarrow> err + i64" where
  "durationEnv E key fallback =
     (let value = trim_space (ev_Getenv E key)
      in if value = [] then Inr fallback
         else (case ev_ParseDuration E value of
                 None \<Rightarrow> Inl (ErrText (key @ '' must be a positive duration''))
               | Some parsed \<Rightarrow>
                   if parsed \<le>s 0 then Inl (ErrText (key @ '' must be a positive duration'')) else Inr parsed))"

text \<open>The default durations: 30, 90 and 365 days in nanoseconds.\<close>

definition loadConfig :: "'x env_scheme \<Rightarrow> err + retention_config" where
  "loadConfig E =
     (let databaseURL = trim_space (ev_Getenv E ''DATABASE_URL'');
          dry = trim_space (ev_Getenv E ''RETENTION_DRY_RUN'');
          size = trim_space (ev_Getenv E ''RETENTION_BATCH_SIZE'')
      in if databaseURL = [] then Inl (ErrText ''DATABASE_URL is required'')
         else (case (if dry = [] then Some True else parse_bool dry) of
            None \<Rightarrow> Inl (ErrText ''RETENTION_DRY_RUN must be a boolean'')
          | Some dryRun \<Rightarrow>
         if \<not> dryRun \<and> trim_space (ev_Getenv E ''RETENTION_CONFIRM'') \<noteq> retentionConfirmation
         then Inl (ErrText (''RETENTION_CONFIRM must equal '' @ go_quote retentionConfirmation @ '' when RETENTION_DRY_RUN=false''))
         else (case (if size = [] then Some 1000
                     else (case parse_int64 size of
                             None \<Rightarrow> None
                           | Some n \<Rightarrow> if n <s 1 \<or> 10000 <s n then None else Some n)) of
            None \<Rightarrow> Inl (ErrText ''RETENTION_BATCH_SIZE must be between 1 and 10000'')
          | Some batchSize \<Rightarrow>
         (case durationEnv E ''OUTBOX_RETENTION'' 2592000000000000 of
            Inl e \<Rightarrow> Inl e
          | Inr outboxRetention \<Rightarrow>
         (case durationEnv E ''CONSUMED_EVENT_RETENTION'' 7776000000000000 of
            Inl e \<Rightarrow> Inl e
          | Inr consumedRetention \<Rightarrow>
         (case durationEnv E ''REPLAY_AUDIT_RETENTION'' 31536000000000000 of
            Inl e \<Rightarrow> Inl e
          | Inr replayRetention \<Rightarrow>
              Inr \<lparr>rc_databaseURL = databaseURL, rc_dryRun = dryRun, rc_batchSize = batchSize,
                   rc_outboxRetention = outboxRetention, rc_consumedRetention = consumedRetention,
                   rc_replayRetention = replayRetention\<rparr>))))))"

text \<open>The rules in order; the first error ends the run.\<close>

fun run_rules ::
  "(nat \<Rightarrow> 'db run_env) \<Rightarrow> nat \<Rightarrow> 'db rule list \<Rightarrow> (nat \<Rightarrow> int) \<Rightarrow> i64 \<Rightarrow> bool \<Rightarrow> 'db \<Rightarrow> ((err + result list) \<times> 'db) option"
where
  "run_rules Es i [] now batchSize dryRun db = Some (Inr [], db)"
| "run_rules Es i (rule # rules) now batchSize dryRun db =
     (case RunRule (Es i) rule (now i) batchSize dryRun db of
        None \<Rightarrow> None
      | Some (Inl e, db') \<Rightarrow> Some (Inl e, db')
      | Some (Inr r, db') \<Rightarrow>
          (case run_rules Es (i + 1) rules now batchSize dryRun db' of
             None \<Rightarrow> None
           | Some (Inl e, db'') \<Rightarrow> Some (Inl e, db'')
           | Some (Inr rs, db'') \<Rightarrow> Some (Inr (r # rs), db'')))"

text \<open>
  The connection, and what \<open>pg_try_advisory_lock\<close> says: a failure, or whether this run got it.
\<close>

definition retention_run ::
  "'x env_scheme \<Rightarrow> err option \<Rightarrow> fault + bool \<Rightarrow> (nat \<Rightarrow> op_db run_env) \<Rightarrow> (nat \<Rightarrow> int) \<Rightarrow> op_db
     \<Rightarrow> ((err + result list) \<times> op_db) option"
where
  "retention_run E connection lock_answer Es now db =
     (case loadConfig E of
        Inl e \<Rightarrow> Some (Inl e, db)
      | Inr cfg \<Rightarrow>
          (case connection of
             Some e \<Rightarrow> Some (Inl e, db)
           | None \<Rightarrow>
               (case lock_answer of
                  Inl f \<Rightarrow> Some (Inl (wrap ''acquire retention lock'' (fault_err f)), db)
                | Inr locked \<Rightarrow>
                    if \<not> locked then Some (Inl (ErrText ''another retention run holds the advisory lock''), db)
                    else run_rules Es 0 (Rules (rc_outboxRetention cfg) (rc_consumedRetention cfg) (rc_replayRetention cfg))
                           now (rc_batchSize cfg) (rc_dryRun cfg) db)))"

end
