(* ===== verification/Retention_Properties.thy ===== *)
theory Retention_Properties
  imports Retention Payment_Samples
begin

text \<open>
  Properties of the retention command: what a run deletes, that it returns, and that it deletes
  nothing that it must keep. The contract of a rule is a locale: a rule counts and deletes the old rows
  of one table; each of the three rules is an interpretation.
\<close>

section \<open>One batch\<close>

lemma candidates_facts:
  assumes "distinct (map key rows)"
  shows "distinct (candidates key P sc limit rows)" and "set (candidates key P sc limit rows) \<subseteq> {r \<in> set rows. P r}"
    and "length (candidates key P sc limit rows) \<le> nat limit"
    and "(\<And>i. \<not> sc_locked sc i) \<Longrightarrow> length (candidates key P sc limit rows) = min (nat limit) (length (filter P rows))"
proof -
  have "distinct rows" using assms by (simp add: distinct_map)
  then have "distinct (reorder (sc_order sc) (filter P rows))"
    using mset_eq_imp_distinct_iff [OF mset_reorder, of "sc_order sc" "filter P rows"] by simp
  then show "distinct (candidates key P sc limit rows)" by (simp add: candidates_def)
  show "set (candidates key P sc limit rows) \<subseteq> {r \<in> set rows. P r}"
    unfolding candidates_def by (rule subset_trans [OF set_take_subset]) auto
  show "length (candidates key P sc limit rows) \<le> nat limit" by (simp add: candidates_def)
  have len: "length (reorder (sc_order sc) (filter P rows)) = length (filter P rows)"
    by (metis mset_reorder size_mset)
  show "length (candidates key P sc limit rows) = min (nat limit) (length (filter P rows))" if "\<And>i. \<not> sc_locked sc i"
    using that len by (simp add: candidates_def min.commute)
qed

lemma delete_batch_rows:
  assumes ids: "distinct (map key rows)" and run: "delete_batch key P sc limit rows = (n, rows')"
  shows "\<exists>S \<subseteq> {r \<in> set rows. P r}. rows' = filter (\<lambda>r. r \<notin> S) rows"
    and "int (length (filter P rows')) = int (length (filter P rows)) - n" and "0 \<le> n" and "n \<le> max 0 limit"
    and "(\<And>i. \<not> sc_locked sc i) \<Longrightarrow> n = min (max 0 limit) (int (length (filter P rows)))"
proof -
  let ?cs = "candidates key P sc limit rows"
  note cs = candidates_facts [OF ids, where P = P and sc = sc and limit = limit]
  have key: "key r \<in> set (map key ?cs) \<longleftrightarrow> r \<in> set ?cs" if "r \<in> set rows" for r
  proof -
    have inj: "inj_on key (set rows)" using ids by (simp add: distinct_map)
    show ?thesis using inj_on_image_mem_iff [OF inj that, of "set ?cs"] cs(2) by auto
  qed
  have n: "n = int (length ?cs)" and "rows' = sql_delete (\<lambda>r. key r \<in> set (map key ?cs)) rows"
    using run by (auto simp: delete_batch_def Let_def)
  then have rows': "rows' = filter (\<lambda>r. r \<notin> set ?cs) rows"
    using key by (auto simp: sql_delete_def intro: filter_cong)
  then show "\<exists>S \<subseteq> {r \<in> set rows. P r}. rows' = filter (\<lambda>r. r \<notin> S) rows" using cs(2) by blast
  have d: "distinct rows" using ids by (simp add: distinct_map)
  have "length (filter P rows') = card ({r \<in> set rows. P r} - set ?cs)"
    using d unfolding rows' by (subst distinct_card [symmetric]) (auto intro!: arg_cong [where f = card])
  also have "\<dots> = card {r \<in> set rows. P r} - length ?cs"
    using cs(1,2) by (simp add: card_Diff_subset distinct_card)
  also have "card {r \<in> set rows. P r} = length (filter P rows)"
    using d by (subst distinct_card [symmetric]) (auto intro!: arg_cong [where f = card])
  finally have "length (filter P rows') = length (filter P rows) - length ?cs" .
  moreover have "length ?cs \<le> length (filter P rows)"
    using cs(1,2) d by (metis card_mono distinct_card distinct_filter finite_set set_filter)
  ultimately show "int (length (filter P rows')) = int (length (filter P rows)) - n" by (simp add: n)
  show "0 \<le> n" by (simp add: n)
  show "n \<le> max 0 limit" using cs(3) n by linarith
  show "n = min (max 0 limit) (int (length (filter P rows)))" if "\<And>i. \<not> sc_locked sc i"
    using cs(4) [OF that] n by linarith
qed

section \<open>The contract of a rule\<close>

locale retention_rule =
  fixes rule :: "'db rule" and get_rows :: "'db \<Rightarrow> 'r list" and put_rows :: "'r list \<Rightarrow> 'db \<Rightarrow> 'db"
    and key :: "'r \<Rightarrow> string" and old :: "int \<Rightarrow> 'r \<Rightarrow> bool"
  assumes get_put [simp]: "get_rows (put_rows rows db) = rows"
    and put_put [simp]: "put_rows rows (put_rows rows' db) = put_rows rows db"
    and put_get [simp]: "put_rows (get_rows db) db = db"
    and count_sql: "ru_CountSQL rule cutoff db = int (length (filter (old cutoff) (get_rows db)))"
    and delete_sql: "ru_DeleteSQL rule sc cutoff limit db =
      (case delete_batch key (old cutoff) sc limit (get_rows db) of (n, rows) \<Rightarrow> (n, put_rows rows db))"
begin

definition eligible :: "int \<Rightarrow> 'db \<Rightarrow> int" where
  "eligible cutoff db = int (length (filter (old cutoff) (get_rows db)))"

definition ids_ok :: "'db \<Rightarrow> bool" where
  "ids_ok db \<longleftrightarrow> distinct (map key (get_rows db))"

text \<open>Nothing but old rows of the table was removed.\<close>

definition trimmed_to :: "int \<Rightarrow> 'db \<Rightarrow> 'db \<Rightarrow> bool" where
  "trimmed_to cutoff db db' \<longleftrightarrow>
     (\<exists>S. (\<forall>r \<in> S. old cutoff r) \<and> db' = put_rows (filter (\<lambda>r. r \<notin> S) (get_rows db)) db)"

lemma trimmed_refl: "trimmed_to cutoff db db"
  unfolding trimmed_to_def by (rule exI [of _ "{}"]) simp

lemma trimmed_trans:
  assumes "trimmed_to cutoff db db'" and "trimmed_to cutoff db' db''"
  shows "trimmed_to cutoff db db''"
proof -
  obtain S where "\<forall>r \<in> S. old cutoff r" "db' = put_rows (filter (\<lambda>r. r \<notin> S) (get_rows db)) db"
    using assms(1) unfolding trimmed_to_def by blast
  moreover obtain T where "\<forall>r \<in> T. old cutoff r" "db'' = put_rows (filter (\<lambda>r. r \<notin> T) (get_rows db')) db'"
    using assms(2) unfolding trimmed_to_def by blast
  ultimately show ?thesis unfolding trimmed_to_def by (intro exI [of _ "S \<union> T"]) auto
qed

lemma trimmed_all:
  assumes "trimmed_to cutoff db db'" and "eligible cutoff db' = 0"
  shows "db' = put_rows (filter (\<lambda>r. \<not> old cutoff r) (get_rows db)) db"
proof -
  obtain S where S: "\<forall>r \<in> S. old cutoff r" "db' = put_rows (filter (\<lambda>r. r \<notin> S) (get_rows db)) db"
    using assms(1) by (auto simp: trimmed_to_def)
  with assms(2) have "\<forall>r \<in> set (get_rows db). r \<notin> S \<longrightarrow> \<not> old cutoff r"
    by (auto simp: eligible_def filter_empty_conv)
  with S show ?thesis by (metis (mono_tags, lifting) filter_cong)
qed

lemma batch:
  assumes "ids_ok db" and "ru_DeleteSQL rule sc cutoff limit db = (n, db')"
  shows "ids_ok db'" and "eligible cutoff db' = eligible cutoff db - n" and "0 \<le> n" and "n \<le> max 0 limit"
    and "trimmed_to cutoff db db'" and "(\<And>i. \<not> sc_locked sc i) \<Longrightarrow> n = min (max 0 limit) (eligible cutoff db)"
proof -
  obtain rows' where run: "delete_batch key (old cutoff) sc limit (get_rows db) = (n, rows')" and db': "db' = put_rows rows' db"
    using assms(2) by (auto simp: delete_sql split: prod.splits)
  note facts = delete_batch_rows [OF assms(1) [unfolded ids_ok_def] run]
  from facts(1) obtain S where S: "S \<subseteq> {r \<in> set (get_rows db). old cutoff r}" "rows' = filter (\<lambda>r. r \<notin> S) (get_rows db)" by blast
  show "ids_ok db'" using assms(1) S by (auto simp: ids_ok_def db' distinct_map inj_on_def)
  show "trimmed_to cutoff db db'" unfolding trimmed_to_def using S db' by blast
  show "eligible cutoff db' = eligible cutoff db - n" "0 \<le> n" "n \<le> max 0 limit"
    using facts(2-4) by (simp_all add: eligible_def db')
  show "(\<And>i. \<not> sc_locked sc i) \<Longrightarrow> n = min (max 0 limit) (eligible cutoff db)"
    using facts(5) by (simp add: eligible_def)
qed

text \<open>The loop returns as long as the others do not add old rows.\<close>

lemma loop_returns:
  assumes others: "\<And>k db. ids_ok db \<Longrightarrow> ids_ok (rn_others E k db) \<and> eligible cutoff (rn_others E k db) \<le> eligible cutoff db"
    and "0 < limit" and "ids_ok db"
  shows "delete_loop E rule cutoff limit k n db \<noteq> None"
  using assms(3)
proof (induction "nat (eligible cutoff db)" arbitrary: k n db rule: less_induct)
  case less
  obtain d db' where run: "ru_DeleteSQL rule (rn_scan E k) cutoff limit (rn_others E k db) = (d, db')" by force
  note o = others [OF less.prems, of k]
  note b = batch [OF conjunct1 [OF o] run]
  show ?case
  proof (cases "rn_fault E (k + 1) = None \<and> \<not> d < limit")
    case True
    have "0 \<le> eligible cutoff db'" by (simp add: eligible_def)
    with True b(2) o assms(2) have "nat (eligible cutoff db') < nat (eligible cutoff db)" by linarith
    from less.hyps [OF this b(1)] True run show ?thesis by (subst delete_loop.simps) simp
  next
    case False
    with run show ?thesis by (subst delete_loop.simps) (auto split: option.split)
  qed
qed

text \<open>Whatever fails and whatever is locked, only old rows go.\<close>

lemma loop_trims:
  assumes "delete_loop E rule cutoff limit k n db = Some (r, db')" and "\<And>k. rn_others E k = id" and "ids_ok db"
  shows "trimmed_to cutoff db db' \<and> ids_ok db'"
proof -
  have "rl = rule \<longrightarrow> c = cutoff \<longrightarrow> (\<forall>k. rn_others e k = id) \<longrightarrow> ids_ok d \<longrightarrow> trimmed_to c d (snd y) \<and> ids_ok (snd y)"
    if "delete_loop e rl c l k n d = Some y" for e rl c l k n d y
    using that
  proof (rule delete_loop.raw_induct [rotated], goal_cases)
    case (1 f E rl c l k n d y)
    show ?case
    proof (intro impI)
      assume rl: "rl = rule" "c = cutoff" and quiet: "\<forall>k. rn_others E k = id" and ok: "ids_ok d"
      obtain m d' where run: "ru_DeleteSQL rule (rn_scan E k) cutoff l d = (m, d')" by force
      note b = batch [OF ok run]
      show "trimmed_to c d (snd y) \<and> ids_ok (snd y)"
        using 1 rl quiet run b ok trimmed_refl [of cutoff d] trimmed_trans [OF b(5)]
        by (auto split: option.splits if_splits)
    qed
  qed
  from this [OF assms(1)] assms(2,3) show ?thesis by simp
qed

text \<open>Without failures, locks and other writers every old row goes.\<close>

lemma loop_exact:
  assumes "\<And>k. rn_fault E k = None" "\<And>k. rn_others E k = id" "\<And>k i. \<not> sc_locked (rn_scan E k) i"
    and "0 < limit" and "ids_ok db"
  shows "\<exists>db'. delete_loop E rule cutoff limit k n db = Some (Inr (n + eligible cutoff db), db') \<and> eligible cutoff db' = 0"
  using assms(5)
proof (induction "nat (eligible cutoff db)" arbitrary: k n db rule: less_induct)
  case less
  obtain d db' where run: "ru_DeleteSQL rule (rn_scan E k) cutoff limit db = (d, db')" by force
  note b = batch [OF less.prems run]
  have d: "d = min limit (eligible cutoff db)" using b(6) assms(3,4) by simp
  have nonneg: "0 \<le> eligible cutoff db" "0 \<le> eligible cutoff db'" by (simp_all add: eligible_def)
  show ?case
  proof (cases "d < limit")
    case True
    have "d = eligible cutoff db" using True unfolding d by linarith
    with b(2) have "eligible cutoff db' = 0" "n + d = n + eligible cutoff db" by simp_all
    with True run assms(1,2) show ?thesis by (subst delete_loop.simps) (auto simp del: add_left_cancel)
  next
    case False
    with b(2) assms(4) nonneg have "nat (eligible cutoff db') < nat (eligible cutoff db)" by linarith
    from less.hyps [OF this b(1), of "k + 1" "n + d"] False run assms(1,2) b(2) show ?thesis
      by (subst delete_loop.simps) simp
  qed
qed

text \<open>The three facts for the whole rule.\<close>

lemma rule_trims:
  assumes "RunRule E rule now batchSize dryRun db = Some (r, db')" and "\<And>k. rn_others E k = id" and "ids_ok db"
  shows "trimmed_to (now - sint (ru_Retention rule)) db db'" and "dryRun \<Longrightarrow> db' = db"
proof -
  from assms(1) consider "db' = db"
    | r' where "\<not> dryRun" "delete_loop E rule (now - sint (ru_Retention rule)) (sint batchSize) 0 0 db = Some (r', db')"
    apply (auto simp: RunRule_def Let_def split: if_splits option.splits)
    subgoal for a b by (cases a) auto
    done
  then have "trimmed_to (now - sint (ru_Retention rule)) db db' \<and> (dryRun \<longrightarrow> db' = db)"
    using loop_trims assms(2,3) trimmed_refl by cases blast+
  then show "trimmed_to (now - sint (ru_Retention rule)) db db'" and "dryRun \<Longrightarrow> db' = db" by auto
qed

lemma rule_exact:
  assumes "\<And>k. rn_fault E k = None" "\<And>k. rn_others E k = id" "\<And>k i. \<not> sc_locked (rn_scan E k) i"
    and "0 < sint (ru_Retention rule)" "1 \<le> sint batchSize" "ids_ok db"
    and cutoff: "cutoff = now - sint (ru_Retention rule)"
  shows "RunRule E rule now batchSize False db =
    Some (Inr \<lparr>re_Name = ru_Name rule, re_Eligible = eligible cutoff db, re_Deleted = eligible cutoff db, re_DryRun = False\<rparr>,
          put_rows (filter (\<lambda>r. \<not> old cutoff r) (get_rows db)) db)"
proof -
  have pos: "0 < sint batchSize" using assms(5) by simp
  obtain db' where run: "delete_loop E rule cutoff (sint batchSize) 0 0 db = Some (Inr (0 + eligible cutoff db), db')"
    and none: "eligible cutoff db' = 0"
    using loop_exact [OF assms(1-3) pos assms(6), of cutoff 0 0] by blast
  have "trimmed_to cutoff db db'" using loop_trims [OF run assms(2,6)] by simp
  from trimmed_all [OF this none] run assms(1,4,5) show ?thesis
    by (simp add: RunRule_def Let_def word_sle_eq word_sless_alt cutoff count_sql eligible_def)
qed

lemma rule_returns:
  assumes "\<And>k db c. ids_ok db \<Longrightarrow> ids_ok (rn_others E k db) \<and> eligible c (rn_others E k db) \<le> eligible c db" and "ids_ok db"
  shows "RunRule E rule now batchSize dryRun db \<noteq> None"
proof (cases "0 < sint batchSize")
  case True
  obtain y where "delete_loop E rule (now - sint (ru_Retention rule)) (sint batchSize) 0 0 db = Some y"
    using loop_returns [OF assms(1) True assms(2), where k = 0] by blast
  then show ?thesis by (simp add: RunRule_def Let_def split: option.split)
next
  case False
  then have "batchSize <s 1" by (simp add: word_sless_alt)
  then show ?thesis by (simp add: RunRule_def)
qed

end

section \<open>The three rules\<close>

interpretation outbox_table: retention_rule "outbox_rule retention" "\<lambda>db. outbox (od_pay db)"
    "\<lambda>rows db. db\<lparr>od_pay := (od_pay db)\<lparr>outbox := rows\<rparr>\<rparr>" ob_id old_outbox for retention
  by unfold_locales (simp_all add: outbox_rule_def)

interpretation consumed_table: retention_rule "consumed_rule retention" "\<lambda>db. consumed (od_led db)"
    "\<lambda>rows db. db\<lparr>od_led := (od_led db)\<lparr>consumed := rows\<rparr>\<rparr>" ce_event_id old_consumed for retention
  by unfold_locales (simp_all add: consumed_rule_def)

interpretation replay_table: retention_rule "replay_rule retention" "\<lambda>db. replays (od_led db)"
    "\<lambda>rows db. db\<lparr>od_led := (od_led db)\<lparr>replays := rows\<rparr>\<rparr>" dr_id old_replay for retention
  by unfold_locales (simp_all add: replay_rule_def)

definition unique_ids :: "op_db \<Rightarrow> bool" where
  "unique_ids db \<longleftrightarrow> distinct (map ob_id (outbox (od_pay db))) \<and> distinct (map ce_event_id (consumed (od_led db)))
     \<and> distinct (map dr_id (replays (od_led db)))"

text \<open>A run in which no query fails, no row is locked and nobody else writes.\<close>

definition quiet :: "'db run_env \<Rightarrow> bool" where
  "quiet E \<longleftrightarrow> (\<forall>k. rn_fault E k = None \<and> rn_others E k = id \<and> (\<forall>i. \<not> sc_locked (rn_scan E k) i))"

text \<open>What the rule of the consumed events leaves.\<close>

lemma consumed_rule_run:
  assumes "quiet E" and "unique_ids db" and "0 < sint keep" and "1 \<le> sint batchSize"
  shows "\<exists>res. RunRule E (consumed_rule keep) now batchSize False db = Some (Inr res,
     db\<lparr>od_led := (od_led db)\<lparr>consumed := filter (\<lambda>c. \<not> old_consumed (now - sint keep) c) (consumed (od_led db))\<rparr>\<rparr>)"
  using consumed_table.rule_exact [where E = E and retention = keep and batchSize = batchSize and db = db and now = now]
    assms(1) [unfolded quiet_def] assms(2-4)
  by (simp add: consumed_rule_def unique_ids_def consumed_table.ids_ok_def)

text \<open>
  C34. A quiet retention run is exact. In any order of the scans and in any batch size from one up, each rule counts its eligible rows, deletes exactly
  those (published outbox rows, consumed events, finished replays older than their retention), reports both numbers, and
  leaves everything else as it was.
\<close>

theorem retention_exact:
  assumes "quiet E" and "unique_ids db" and "0 < sint keep" and "1 \<le> sint batchSize"
    and cutoff: "cutoff = now - sint keep"
  shows "(\<exists>n. RunRule E (outbox_rule keep) now batchSize False db =
      Some (Inr \<lparr>re_Name = ''published_outbox_events'', re_Eligible = n, re_Deleted = n, re_DryRun = False\<rparr>,
        db\<lparr>od_pay := (od_pay db)\<lparr>outbox := filter (\<lambda>e. \<not> old_outbox cutoff e) (outbox (od_pay db))\<rparr>\<rparr>)
      \<and> n = int (length (filter (old_outbox cutoff) (outbox (od_pay db)))))
    \<and> (\<exists>n. RunRule E (consumed_rule keep) now batchSize False db =
      Some (Inr \<lparr>re_Name = ''consumed_ledger_events'', re_Eligible = n, re_Deleted = n, re_DryRun = False\<rparr>,
        db\<lparr>od_led := (od_led db)\<lparr>consumed := filter (\<lambda>c. \<not> old_consumed cutoff c) (consumed (od_led db))\<rparr>\<rparr>)
      \<and> n = int (length (filter (old_consumed cutoff) (consumed (od_led db)))))
    \<and> (\<exists>n. RunRule E (replay_rule keep) now batchSize False db =
      Some (Inr \<lparr>re_Name = ''completed_dead_letter_replays'', re_Eligible = n, re_Deleted = n, re_DryRun = False\<rparr>,
        db\<lparr>od_led := (od_led db)\<lparr>replays := filter (\<lambda>r. \<not> old_replay cutoff r) (replays (od_led db))\<rparr>\<rparr>)
      \<and> n = int (length (filter (old_replay cutoff) (replays (od_led db)))))"
proof -
  note q = assms(1) [unfolded quiet_def]
  have rules: "ru_Retention (outbox_rule keep) = keep" "ru_Retention (consumed_rule keep) = keep" "ru_Retention (replay_rule keep) = keep"
    "ru_Name (outbox_rule keep) = ''published_outbox_events''" "ru_Name (consumed_rule keep) = ''consumed_ledger_events''"
    "ru_Name (replay_rule keep) = ''completed_dead_letter_replays''"
    by (simp_all add: outbox_rule_def consumed_rule_def replay_rule_def)
  from outbox_table.rule_exact [where E = E and retention = keep and batchSize = batchSize and db = db and now = now] consumed_table.rule_exact [where E = E and retention = keep and batchSize = batchSize and db = db and now = now]
    replay_table.rule_exact [where E = E and retention = keep and batchSize = batchSize and db = db and now = now] q assms(2-4)
  show ?thesis
    by (simp add: rules cutoff unique_ids_def outbox_table.ids_ok_def consumed_table.ids_ok_def replay_table.ids_ok_def
        outbox_table.eligible_def consumed_table.eligible_def replay_table.eligible_def)
qed

definition sample_op_db :: op_db where
  "sample_op_db = \<lparr>od_pay = \<lparr>payments = [sample_row], outbox = [sample_published_row, sample_outbox_row\<lparr>ob_id := ''b2''\<rparr>]\<rparr>,
     od_led = \<lparr>accounts = [], entries = [], consumed = [\<lparr>ce_event_id = ''b1'', ce_event_type = ''payment.created'', ce_aggregate_id = ''a1'', ce_consumed_at = 9000\<rparr>],
       replays = []\<rparr>\<rparr>"

definition quiet_env :: "op_db run_env" where
  "quiet_env = \<lparr>rn_fault = (\<lambda>_. None), rn_scan = (\<lambda>_. \<lparr>sc_locked = (\<lambda>_. False), sc_order = []\<rparr>), rn_others = (\<lambda>_. id)\<rparr>"

lemma sample_unique_ids: "unique_ids sample_op_db"
  by code_simp

theorem retention_exact_witness:
  "\<exists>db'. RunRule quiet_env (outbox_rule 1000) 4000 1 False sample_op_db =
     Some (Inr \<lparr>re_Name = ''published_outbox_events'', re_Eligible = 1, re_Deleted = 1, re_DryRun = False\<rparr>, db')
   \<and> map ob_id (outbox (od_pay db')) = [''b2'']"
proof -
  have w: "sint (1000 :: i64) = 1000" "sint (1 :: i64) = 1" by code_simp+
  have n: "int (length (filter (old_outbox 3000) (outbox (od_pay sample_op_db)))) = 1"
    "map ob_id (filter (\<lambda>e. \<not> old_outbox 3000 e) (outbox (od_pay sample_op_db))) = [''b2'']" by code_simp+
  have "quiet quiet_env" by (simp add: quiet_def quiet_env_def)
  from retention_exact [OF this sample_unique_ids, of 1000 1 3000 4000] n show ?thesis by (simp add: w)
qed

section \<open>The command\<close>

lemma filter_removed: "\<forall>r \<in> S. \<not> P r \<Longrightarrow> filter P (filter (\<lambda>r. r \<notin> S) xs) = filter P xs"
  by (induction xs) auto

definition only_old :: "int \<Rightarrow> int \<Rightarrow> int \<Rightarrow> op_db \<Rightarrow> op_db \<Rightarrow> bool" where
  "only_old c1 c2 c3 db db' \<longleftrightarrow>
     (\<exists>S T U. (\<forall>e \<in> S. old_outbox c1 e) \<and> (\<forall>c \<in> T. old_consumed c2 c) \<and> (\<forall>r \<in> U. old_replay c3 r)
        \<and> db' = \<lparr>od_pay = (od_pay db)\<lparr>outbox := filter (\<lambda>e. e \<notin> S) (outbox (od_pay db))\<rparr>,
                 od_led = (od_led db)\<lparr>consumed := filter (\<lambda>c. c \<notin> T) (consumed (od_led db)),
                                      replays := filter (\<lambda>r. r \<notin> U) (replays (od_led db))\<rparr>\<rparr>)"

lemma only_old_refl: "only_old c1 c2 c3 db db"
  unfolding only_old_def by (intro exI [of _ "{}"]) simp

lemma only_old_unique: "only_old c1 c2 c3 db db' \<Longrightarrow> unique_ids db \<Longrightarrow> unique_ids db'"
  by (auto simp: only_old_def unique_ids_def distinct_map inj_on_def)

lemma only_old_trans:
  assumes "only_old c1 c2 c3 db db'" and "only_old c1 c2 c3 db' db''"
  shows "only_old c1 c2 c3 db db''"
proof -
  obtain S T U where a: "\<forall>e \<in> S. old_outbox c1 e" "\<forall>c \<in> T. old_consumed c2 c" "\<forall>r \<in> U. old_replay c3 r"
    "db' = \<lparr>od_pay = (od_pay db)\<lparr>outbox := filter (\<lambda>e. e \<notin> S) (outbox (od_pay db))\<rparr>,
            od_led = (od_led db)\<lparr>consumed := filter (\<lambda>c. c \<notin> T) (consumed (od_led db)),
                                 replays := filter (\<lambda>r. r \<notin> U) (replays (od_led db))\<rparr>\<rparr>"
    using assms(1) unfolding only_old_def by blast
  obtain S' T' U' where b: "\<forall>e \<in> S'. old_outbox c1 e" "\<forall>c \<in> T'. old_consumed c2 c" "\<forall>r \<in> U'. old_replay c3 r"
    "db'' = \<lparr>od_pay = (od_pay db')\<lparr>outbox := filter (\<lambda>e. e \<notin> S') (outbox (od_pay db'))\<rparr>,
             od_led = (od_led db')\<lparr>consumed := filter (\<lambda>c. c \<notin> T') (consumed (od_led db')),
                                   replays := filter (\<lambda>r. r \<notin> U') (replays (od_led db'))\<rparr>\<rparr>"
    using assms(2) unfolding only_old_def by blast
  show ?thesis unfolding only_old_def
    by (rule exI [of _ "S \<union> S'"], rule exI [of _ "T \<union> T'"], rule exI [of _ "U \<union> U'"]) (use a b in auto)
qed

lemma trimmed_only_old:
  "outbox_table.trimmed_to c1 db db' \<Longrightarrow> only_old c1 c2 c3 db db'"
  "consumed_table.trimmed_to c2 db db' \<Longrightarrow> only_old c1 c2 c3 db db'"
  "replay_table.trimmed_to c3 db db' \<Longrightarrow> only_old c1 c2 c3 db db'"
proof -
  show "only_old c1 c2 c3 db db'" if t: "outbox_table.trimmed_to c1 db db'"
  proof -
    obtain S where "\<forall>r \<in> S. old_outbox c1 r" "db' = db\<lparr>od_pay := (od_pay db)\<lparr>outbox := filter (\<lambda>r. r \<notin> S) (outbox (od_pay db))\<rparr>\<rparr>"
      using t unfolding outbox_table.trimmed_to_def by blast
    then show ?thesis unfolding only_old_def by (intro exI [of _ S] exI [of _ "{}"]) simp
  qed
  show "only_old c1 c2 c3 db db'" if t: "consumed_table.trimmed_to c2 db db'"
  proof -
    obtain T where "\<forall>r \<in> T. old_consumed c2 r" "db' = db\<lparr>od_led := (od_led db)\<lparr>consumed := filter (\<lambda>r. r \<notin> T) (consumed (od_led db))\<rparr>\<rparr>"
      using t unfolding consumed_table.trimmed_to_def by blast
    then show ?thesis unfolding only_old_def by (rule_tac exI [of _ "{}"], rule_tac exI [of _ T], rule_tac exI [of _ "{}"]) simp
  qed
  show "only_old c1 c2 c3 db db'" if t: "replay_table.trimmed_to c3 db db'"
  proof -
    obtain U where "\<forall>r \<in> U. old_replay c3 r" "db' = db\<lparr>od_led := (od_led db)\<lparr>replays := filter (\<lambda>r. r \<notin> U) (replays (od_led db))\<rparr>\<rparr>"
      using t unfolding replay_table.trimmed_to_def by blast
    then show ?thesis unfolding only_old_def by (rule_tac exI [of _ "{}"], rule_tac exI [of _ "{}"], rule_tac exI [of _ U]) simp
  qed
qed

text \<open>One rule of the list, and then all of them.\<close>

lemma rule_step:
  assumes which: "rule = outbox_rule k \<and> c1 = now - sint k \<or> rule = consumed_rule k \<and> c2 = now - sint k
      \<or> rule = replay_rule k \<and> c3 = now - sint k"
    and alone: "\<And>k. rn_others E k = id" and "unique_ids db"
  shows "\<exists>r db'. RunRule E rule now n dry db = Some (r, db') \<and> only_old c1 c2 c3 db db' \<and> (dry \<longrightarrow> db' = db)"
proof -
  have ids: "outbox_table.ids_ok db" "consumed_table.ids_ok db" "replay_table.ids_ok db"
    using assms(3) by (simp_all add: unique_ids_def outbox_table.ids_ok_def consumed_table.ids_ok_def replay_table.ids_ok_def)
  have ret: "ru_Retention (outbox_rule k) = k" "ru_Retention (consumed_rule k) = k" "ru_Retention (replay_rule k) = k"
    by (simp_all add: outbox_rule_def consumed_rule_def replay_rule_def)
  have "RunRule E (outbox_rule k) now n dry db \<noteq> None" by (rule outbox_table.rule_returns) (simp_all add: alone ids)
  moreover have "RunRule E (consumed_rule k) now n dry db \<noteq> None" by (rule consumed_table.rule_returns) (simp_all add: alone ids)
  moreover have "RunRule E (replay_rule k) now n dry db \<noteq> None" by (rule replay_table.rule_returns) (simp_all add: alone ids)
  ultimately have "RunRule E rule now n dry db \<noteq> None" using which by blast
  then obtain r db' where run: "RunRule E rule now n dry db = Some (r, db')" by force
  from which show ?thesis
  proof (elim disjE conjE)
    assume rule: "rule = outbox_rule k" "c1 = now - sint k"
    note t = outbox_table.rule_trims [OF run [unfolded rule(1)] alone ids(1), unfolded ret]
    from t trimmed_only_old(1) run rule show ?thesis by blast
  next
    assume rule: "rule = consumed_rule k" "c2 = now - sint k"
    note t = consumed_table.rule_trims [OF run [unfolded rule(1)] alone ids(2), unfolded ret]
    from t trimmed_only_old(2) run rule show ?thesis by blast
  next
    assume rule: "rule = replay_rule k" "c3 = now - sint k"
    note t = replay_table.rule_trims [OF run [unfolded rule(1)] alone ids(3), unfolded ret]
    from t trimmed_only_old(3) run rule show ?thesis by blast
  qed
qed

lemma rules_step:
  assumes alone: "\<And>i k. rn_others (Es i) k = id" and ids: "unique_ids db"
  shows "\<exists>r db'. run_rules Es 0 (Rules k1 k2 k3) now n dry db = Some (r, db')
     \<and> only_old (now 0 - sint k1) (now 1 - sint k2) (now 2 - sint k3) db db' \<and> (dry \<longrightarrow> db' = db)"
proof -
  let ?old = "only_old (now 0 - sint k1) (now 1 - sint k2) (now 2 - sint k3)"
  have one: "\<exists>r db'. RunRule (Es i) rule (now i) n dry db = Some (r, db') \<and> ?old db db' \<and> (dry \<longrightarrow> db' = db)"
    if "rule = outbox_rule k1 \<and> i = 0 \<or> rule = consumed_rule k2 \<and> i = 1 \<or> rule = replay_rule k3 \<and> i = 2" "unique_ids db"
    for rule i db
    using that(1)
  proof (elim disjE conjE)
    assume "rule = outbox_rule k1" "i = 0"
    then show ?thesis by (intro rule_step [OF _ alone that(2), where k = k1]) simp
  next
    assume "rule = consumed_rule k2" "i = 1"
    then show ?thesis by (intro rule_step [OF _ alone that(2), where k = k2]) simp
  next
    assume "rule = replay_rule k3" "i = 2"
    then show ?thesis by (intro rule_step [OF _ alone that(2), where k = k3]) simp
  qed
  have rest: "\<exists>r db'. run_rules Es i (rule # rules) now n dry db = Some (r, db') \<and> ?old db db' \<and> (dry \<longrightarrow> db' = db)"
    if one: "\<exists>r db'. RunRule (Es i) rule (now i) n dry db = Some (r, db') \<and> ?old db db' \<and> (dry \<longrightarrow> db' = db)"
      and more: "\<And>db. unique_ids db \<Longrightarrow> \<exists>r db'. run_rules Es (i + 1) rules now n dry db = Some (r, db') \<and> ?old db db' \<and> (dry \<longrightarrow> db' = db)"
      and ids: "unique_ids db" for i rule rules db
  proof -
    from one obtain r db1 where r: "RunRule (Es i) rule (now i) n dry db = Some (r, db1)" "?old db db1" "dry \<longrightarrow> db1 = db" by blast
    from more [OF only_old_unique [OF r(2) ids]] obtain r' db2 where
      r': "run_rules Es (i + 1) rules now n dry db1 = Some (r', db2)" "?old db1 db2" "dry \<longrightarrow> db2 = db1" by blast
    show ?thesis
    proof (cases r)
      case (Inl e)
      with r show ?thesis by auto
    next
      case (Inr x)
      with r r' only_old_trans [OF r(2) r'(2)] show ?thesis by (cases r') auto
    qed
  qed
  have last: "\<exists>r db'. run_rules Es 3 [] now n dry db = Some (r, db') \<and> ?old db db' \<and> (dry \<longrightarrow> db' = db)" for db
    by (simp add: only_old_refl)
  have two: "\<exists>r db'. run_rules Es 2 [replay_rule k3] now n dry db = Some (r, db') \<and> ?old db db' \<and> (dry \<longrightarrow> db' = db)"
    if "unique_ids db" for db
    by (rule rest [OF one [OF _ that] _ that]) (use last in simp_all)
  have three: "\<exists>r db'. run_rules Es 1 [consumed_rule k2, replay_rule k3] now n dry db = Some (r, db') \<and> ?old db db' \<and> (dry \<longrightarrow> db' = db)"
    if "unique_ids db" for db
    by (rule rest [OF one [OF _ that] _ that], simp, simp only: one_add_one, erule two)
  show ?thesis
    unfolding Rules_def by (rule rest [OF one [OF _ ids] _ ids], simp, simp only: add_0, erule three)
qed

text \<open>
  C35. The retention command is safe and returns. Whatever queries fail and whatever rows are locked, with no other writer the
  command returns; unless it was told not to run dry, with the confirmation text, and got the advisory lock, it changes nothing; and then it
  removes nothing but published outbox rows, consumed events and finished replays older than their positive retentions: payments, accounts and
  entries stay, and so does every row that is pending, in work or failed.
\<close>

theorem retention_safe:
  assumes "\<And>i k. rn_others (Es i) k = id" and "unique_ids db"
  shows "\<exists>r db'. retention_run E connection lock_answer Es now db = Some (r, db')
    \<and> (db' = db
       \<or> (\<exists>cfg. loadConfig E = Inr cfg \<and> \<not> rc_dryRun cfg \<and> trim_space (ev_Getenv E ''RETENTION_CONFIRM'') = ''DELETE_OPERATIONAL_DATA''
            \<and> lock_answer = Inr True
            \<and> only_old (now 0 - sint (rc_outboxRetention cfg)) (now 1 - sint (rc_consumedRetention cfg)) (now 2 - sint (rc_replayRetention cfg)) db db'))
    \<and> payments (od_pay db') = payments (od_pay db) \<and> accounts (od_led db') = accounts (od_led db) \<and> entries (od_led db') = entries (od_led db)
    \<and> filter (\<lambda>e. ob_status e \<noteq> ''published'') (outbox (od_pay db')) = filter (\<lambda>e. ob_status e \<noteq> ''published'') (outbox (od_pay db))
    \<and> filter (\<lambda>r. dr_status r = ''started'') (replays (od_led db')) = filter (\<lambda>r. dr_status r = ''started'') (replays (od_led db))"
proof -
  have kept: "payments (od_pay db') = payments (od_pay db) \<and> accounts (od_led db') = accounts (od_led db) \<and> entries (od_led db') = entries (od_led db)
    \<and> filter (\<lambda>e. ob_status e \<noteq> ''published'') (outbox (od_pay db')) = filter (\<lambda>e. ob_status e \<noteq> ''published'') (outbox (od_pay db))
    \<and> filter (\<lambda>r. dr_status r = ''started'') (replays (od_led db')) = filter (\<lambda>r. dr_status r = ''started'') (replays (od_led db))"
    if "only_old c1 c2 c3 db db'" for c1 c2 c3 db'
  proof -
    obtain S T U where a: "\<forall>e \<in> S. old_outbox c1 e" "\<forall>r \<in> U. old_replay c3 r"
      "db' = \<lparr>od_pay = (od_pay db)\<lparr>outbox := filter (\<lambda>e. e \<notin> S) (outbox (od_pay db))\<rparr>,
              od_led = (od_led db)\<lparr>consumed := filter (\<lambda>c. c \<notin> T) (consumed (od_led db)),
                                   replays := filter (\<lambda>r. r \<notin> U) (replays (od_led db))\<rparr>\<rparr>"
      using \<open>only_old c1 c2 c3 db db'\<close> unfolding only_old_def by blast
    have "\<forall>e \<in> S. \<not> ob_status e \<noteq> ''published''" "\<forall>r \<in> U. \<not> dr_status r = ''started''"
      using a(1,2) by (auto simp: old_outbox_def old_replay_def)
    with a(3) show ?thesis by (simp add: filter_removed del: filter_filter)
  qed
  show ?thesis
  proof (cases "\<exists>cfg. loadConfig E = Inr cfg \<and> connection = None \<and> lock_answer = Inr True")
    case True
    then obtain cfg where cfg: "loadConfig E = Inr cfg" "connection = None" "lock_answer = Inr True" by blast
    obtain r db' where run: "run_rules Es 0 (Rules (rc_outboxRetention cfg) (rc_consumedRetention cfg) (rc_replayRetention cfg)) now
        (rc_batchSize cfg) (rc_dryRun cfg) db = Some (r, db')"
      and old: "only_old (now 0 - sint (rc_outboxRetention cfg)) (now 1 - sint (rc_consumedRetention cfg)) (now 2 - sint (rc_replayRetention cfg)) db db'"
      and dry: "rc_dryRun cfg \<longrightarrow> db' = db"
      using rules_step [where Es = Es, OF assms] by blast
    have conf: "rc_dryRun cfg \<or> trim_space (ev_Getenv E ''RETENTION_CONFIRM'') = ''DELETE_OPERATIONAL_DATA''"
      using cfg(1) by (auto simp: loadConfig_def Let_def retentionConfirmation_def split: if_splits option.splits sum.splits)
    from run cfg have "retention_run E connection lock_answer Es now db = Some (r, db')" by (simp add: retention_run_def)
    with kept [OF old] old dry conf cfg show ?thesis by blast
  next
    case False
    then have "\<exists>r. retention_run E connection lock_answer Es now db = Some (r, db)"
      by (auto simp: retention_run_def split: sum.split option.split)
    then show ?thesis by blast
  qed
qed

text \<open>A run whose connection breaks after its first batch.\<close>

definition failing_env :: "op_db run_env" where
  "failing_env = quiet_env\<lparr>rn_fault := (\<lambda>k. if k = 1 then Some (Fault ''conn closed'', True) else None)\<rparr>"

theorem retention_safe_witness:
  "\<exists>r db'. retention_run (env_with [(''DATABASE_URL'', ''u''), (''RETENTION_DRY_RUN'', ''false''), (''RETENTION_CONFIRM'', ''DELETE_OPERATIONAL_DATA'')])
      None (Inr True) (\<lambda>_. failing_env) (\<lambda>_. 0) sample_op_db = Some (r, db')
    \<and> payments (od_pay db') = [sample_row]"
  using retention_safe [of "\<lambda>_. failing_env" sample_op_db
      "env_with [(''DATABASE_URL'', ''u''), (''RETENTION_DRY_RUN'', ''false''), (''RETENTION_CONFIRM'', ''DELETE_OPERATIONAL_DATA'')]" None "Inr True" "\<lambda>_. 0"]
    sample_unique_ids
  by (auto simp: failing_env_def quiet_env_def sample_op_db_def)

end
