(* ===== verification/Retention_Delivery.thy ===== *)
theory Retention_Delivery
  imports Retention_Properties Ledger_Progress Ledger_Properties
begin

text \<open>
  Retention and the ledger together: the table of consumed events is what makes deliveries
  idempotent, and the retention command deletes from it.
\<close>

text \<open>
  C40. Retention reopens old events. A payment whose event was consumed is booked; delivering the event again does nothing. After a quiet retention
  run the same delivery still does nothing if the event was consumed within the retention; but if it was consumed before, the delivery
  books the payment a second time, with one more debit and one more credit. So duplicates are suppressed exactly as long as the setting
  keeps the consumed events, and nothing in the command relates that setting to how long Kafka keeps messages.
\<close>

theorem retention_reopens_events:
  assumes "quiet E" and "unique_ids db" and "0 < sint keep" and "1 \<le> sint batchSize"
    and inv: "led_inv L (od_led db)" and canon: "\<forall>x u. pg_uuid L x = Some u \<longrightarrow> pg_uuid L u = Some u"
    and ready: "movement_ready L cx eid et request" and fresh: "ids_fresh L cx (od_led db)"
    and event: "pg_uuid L (trim_space eid) = Some (ce_event_id c)" "c \<in> set (consumed (od_led db))"
    and p: "p = trim_space (mr_PaymentID request)"
  shows "(\<exists>db1. RecordPaymentMovementOnce PostgresLedgerRepository cx (\<lambda>s. s) eid et request (od_led db) = (Inr ([], False), db1)
            \<and> entries db1 = entries (od_led db))
    \<and> (\<exists>res db2 x db3. RunRule E (consumed_rule keep) now batchSize False db = Some (Inr res, db2)
         \<and> RecordPaymentMovementOnce PostgresLedgerRepository cx (\<lambda>s. s) eid et request (od_led db2) = (Inr x, db3)
         \<and> (if ce_consumed_at c < now - sint keep
            then \<forall>d \<in> {DirectionDebit, DirectionCredit}.
                   length (entries_for d p (entries db3)) = Suc (length (entries_for d p (entries (od_led db))))
            else x = ([], False) \<and> entries db3 = entries (od_led db)))"
proof
  have acc: "accounts_ok L (accounts (od_led db))" using inv by (simp add: led_inv_def)
  have seen: "ce_event_id c \<in> fst ` set (seen_events (od_led db))"
    using event(2) unfolding fst_seen_events by simp
  from record_once_result [OF ready fresh acc canon event(1)] seen
  show "\<exists>db1. RecordPaymentMovementOnce PostgresLedgerRepository cx (\<lambda>s. s) eid et request (od_led db) = (Inr ([], False), db1)
      \<and> entries db1 = entries (od_led db)" by auto
  let ?led = "(od_led db)\<lparr>consumed := filter (\<lambda>c. \<not> old_consumed (now - sint keep) c) (consumed (od_led db))\<rparr>"
  obtain res where run: "RunRule E (consumed_rule keep) now batchSize False db = Some (Inr res, db\<lparr>od_led := ?led\<rparr>)"
    using consumed_rule_run [OF assms(1-4)] by blast
  have left: "ce_event_id c \<in> fst ` set (seen_events ?led) \<longleftrightarrow> \<not> ce_consumed_at c < now - sint keep"
  proof -
    have "ce_event_id c \<in> ce_event_id ` {x \<in> set (consumed (od_led db)). \<not> old_consumed (now - sint keep) x}
        \<longleftrightarrow> \<not> old_consumed (now - sint keep) c"
      using assms(2) event(2) by (auto simp: unique_ids_def distinct_map inj_on_def)
    then show ?thesis unfolding fst_seen_events by (simp add: old_consumed_def)
  qed
  have "ids_fresh L cx ?led" "accounts_ok L (accounts ?led)" using fresh acc by (simp_all add: ids_fresh_def)
  from record_once_result [OF ready this canon event(1)] obtain x db3
    where again: "RecordPaymentMovementOnce PostgresLedgerRepository cx (\<lambda>s. s) eid et request ?led = (Inr x, db3)"
      "if ce_event_id c \<in> fst ` set (seen_events ?led) then x = ([], False) \<and> entries db3 = entries ?led
       else snd x \<and> (\<forall>d \<in> {DirectionDebit, DirectionCredit}. length (entries_for d p (entries db3)) = Suc (length (entries_for d p (entries ?led))))"
    unfolding p by blast
  show "\<exists>res db2 x db3. RunRule E (consumed_rule keep) now batchSize False db = Some (Inr res, db2)
       \<and> RecordPaymentMovementOnce PostgresLedgerRepository cx (\<lambda>s. s) eid et request (od_led db2) = (Inr x, db3)
       \<and> (if ce_consumed_at c < now - sint keep
          then \<forall>d \<in> {DirectionDebit, DirectionCredit}.
                 length (entries_for d p (entries db3)) = Suc (length (entries_for d p (entries (od_led db))))
          else x = ([], False) \<and> entries db3 = entries (od_led db))"
    using run again left by (intro exI [of _ res] exI [of _ "db\<lparr>od_led := ?led\<rparr>"] exI [of _ x] exI [of _ db3]) (simp split: if_splits)
qed

text \<open>One consumed event of a booked payment, and identifiers for the second delivery.\<close>

definition booked_db :: op_db where
  "booked_db = \<lparr>od_pay = \<lparr>payments = [], outbox = []\<rparr>, od_led = sample_ledger\<rparr>"

definition second_ctx :: "nat \<Rightarrow> ctx" where
  "second_ctx i =
     (sample_ctx [])\<lparr>cx_uuid := (\<lambda>k. if i = 0 then ''a2'' else if i = 1 then ''b2''
        else if k = 0 then ''t2'' else if k = 1 then ''x2'' else ''y2'')\<rparr>"

theorem retention_reopens_events_witness:
  "\<exists>x db3. RecordPaymentMovementOnce PostgresLedgerRepository second_ctx (\<lambda>s. s) ''e'' ''payment.created'' sample_movement
      (sample_ledger\<lparr>consumed := []\<rparr>) = (Inr x, db3)
    \<and> length (entries_for DirectionDebit ''p'' (entries db3)) = 2"
proof -
  have u: "unique_ids booked_db" by code_simp
  have w: "sint (1000 :: i64) = 1000" "sint (1 :: i64) = 1" by code_simp+
  have q: "quiet quiet_env" by (simp add: quiet_def quiet_env_def)
  have lib: "lib.truncate (second_ctx i) = lib.truncate sample_lib" for i
    by (simp add: second_ctx_def sample_ctx_def sample_lib_def lib.defs)
  have texts: "trim_space ''e'' = ''e''" "trim_space ''payment.created'' = ''payment.created''"
    "pg_text_ok ''payment.created''" "pg_text_ok (trim_space (mr_PaymentID sample_movement))"
    "validatePaymentMovement (second_ctx 0) (normalize_movement (second_ctx 0) sample_movement) = None"
    "pg_char3 (mr_Currency (normalize_movement (second_ctx 0) sample_movement)) = Some ''USD''"
    "trim_space (mr_PaymentID sample_movement) = ''p''" "pg_text_ok ''p''"
    by code_simp+
  have nf: "no_faults (second_ctx i)" for i by (simp add: second_ctx_def no_faults_def)
  have ready: "movement_ready sample_lib second_ctx ''e'' ''payment.created'' sample_movement"
    unfolding movement_ready_def texts using nf lib by (simp add: texts sample_lib_def)
  have fresh: "ids_fresh sample_lib second_ctx (od_led booked_db)"
    by (simp add: ids_fresh_def second_ctx_def sample_lib_def booked_db_def sample_ledger_def)
  have inv: "led_inv sample_lib (od_led booked_db)" using sample_ledger_inv by (simp add: booked_db_def)
  have c: "pg_uuid sample_lib (trim_space ''e'') = Some (ce_event_id (hd (consumed sample_ledger)))"
    "hd (consumed sample_ledger) \<in> set (consumed (od_led booked_db))"
    by (simp_all add: texts sample_lib_def sample_ledger_def booked_db_def)
  have old: "ce_consumed_at (hd (consumed sample_ledger)) < 5000 - sint (1000 :: i64)"
    "map (\<lambda>c. \<not> old_consumed (5000 - sint (1000 :: i64)) c) (consumed sample_ledger) = [False]"
    "length (entries_for DirectionDebit ''p'' (entries sample_ledger)) = 1" by code_simp+
  have left: "filter (\<lambda>c. \<not> old_consumed (5000 - sint (1000 :: i64)) c) (consumed sample_ledger) = []"
    using old(2) by (auto simp: filter_empty_conv)
  have kept: "RunRule quiet_env (consumed_rule 1000) 5000 1 False booked_db = Some (Inr res, db2) \<Longrightarrow> od_led db2 = sample_ledger\<lparr>consumed := []\<rparr>" for res db2
    using consumed_rule_run [OF q u, of 1000 1 5000] left by (simp add: w booked_db_def)
  from retention_reopens_events [OF q u _ _ inv sample_uuid_canonical ready fresh c refl, of 1000 1 5000, THEN conjunct2] old
  show ?thesis by (auto simp: w texts booked_db_def dest!: kept [unfolded booked_db_def])
qed

end
