(* ===== verification/Migration.thy ===== *)
theory Migration
  imports Go_Runtime
begin

text \<open>
  Database migrations (\<open>internal/migration/migration.go\<close>): finding the directory and the files,
  and applying in one transaction what is not recorded yet. The file system is a record of
  functions; executing the text of a migration is the parameter \<open>sql_exec\<close>, on a schema that is
  apart from the table \<open>schema_migrations\<close>.
\<close>

section \<open>Files\<close>

record migration =
  mg_Version :: i64
  mg_Name :: string
  mg_Path :: string

record file_system =
  fs_Abs :: "string \<Rightarrow> err + string"
  fs_IsDir :: "string \<Rightarrow> err + bool"
  fs_ReadDir :: "string \<Rightarrow> err + (string \<times> bool) list"
  fs_ReadFile :: "string \<Rightarrow> err + string"

text \<open>\<open>filepath.Join\<close> of a clean directory and a plain name.\<close>

definition path_join :: "string \<Rightarrow> string \<Rightarrow> string" where
  "path_join dir name = (if has_suffix dir ''/'' then dir @ name else dir @ ''/'' @ name)"

definition existingDir :: "file_system \<Rightarrow> string \<Rightarrow> err + string" where
  "existingDir fs dir =
     (case fs_Abs fs dir of
        Inl e \<Rightarrow> Inl (wrap (''resolve migrations directory '' @ go_quote dir) e)
      | Inr absolute \<Rightarrow>
          (case fs_IsDir fs absolute of
             Inl e \<Rightarrow> Inl e
           | Inr is_dir \<Rightarrow>
               if \<not> is_dir then Inl (ErrText (absolute @ '' is not a directory'')) else Inr absolute))"

fun first_dir :: "file_system \<Rightarrow> string list \<Rightarrow> err + string" where
  "first_dir fs [] = Inl (ErrText ''migrations directory not found'')"
| "first_dir fs (candidate # rest) =
     (case existingDir fs candidate of Inr resolved \<Rightarrow> Inr resolved | Inl _ \<Rightarrow> first_dir fs rest)"

definition ResolveDir :: "file_system \<Rightarrow> string \<Rightarrow> err + string" where
  "ResolveDir fs dir =
     (if trim_space dir \<noteq> [] then existingDir fs dir
      else first_dir fs [''migrations'', ''../../migrations'', ''../../../migrations''])"

text \<open>The two errors of \<open>ParseInt\<close>: no number, or one out of range.\<close>

definition parse_int_error :: "string \<Rightarrow> err" where
  "parse_int_error s =
     (let digits = (case s of c # s' \<Rightarrow> if c = CHR ''-'' \<or> c = CHR ''+'' then s' else s | [] \<Rightarrow> [])
      in ErrText (''strconv.ParseInt: parsing '' @ go_quote s @ '': '' @
           (if parse_nat digits = None then ''invalid syntax'' else ''value out of range'')))"

definition parseMigration :: "string \<Rightarrow> string \<Rightarrow> err + migration" where
  "parseMigration path name =
     (case split2_on CHR ''_'' name of
        [version, _] \<Rightarrow>
          (case parse_int64 version of
             None \<Rightarrow> Inl (wrap (''invalid migration version '' @ go_quote name) (parse_int_error version))
           | Some v \<Rightarrow> Inr \<lparr>mg_Version = v, mg_Name = trim_suffix name ''.up.sql'', mg_Path = path\<rparr>)
      | _ \<Rightarrow> Inl (ErrText (''invalid migration filename '' @ go_quote name)))"

fun parse_entries :: "string \<Rightarrow> (string \<times> bool) list \<Rightarrow> err + migration list" where
  "parse_entries dir [] = Inr []"
| "parse_entries dir ((name, is_dir) # entries) =
     (if is_dir \<or> \<not> has_suffix name ''.up.sql'' then parse_entries dir entries
      else (case parseMigration (path_join dir name) name of
              Inl e \<Rightarrow> Inl e
            | Inr m \<Rightarrow> (case parse_entries dir entries of Inl e \<Rightarrow> Inl e | Inr ms \<Rightarrow> Inr (m # ms))))"

text \<open>\<open>sort.Slice\<close> is not stable: equal versions may come in any order.\<close>

definition Discover :: "file_system \<Rightarrow> nat list \<Rightarrow> string \<Rightarrow> err + migration list" where
  "Discover fs perm dir =
     (case fs_ReadDir fs dir of
        Inl e \<Rightarrow> Inl (wrap ''read migrations directory'' e)
      | Inr dir_entries \<Rightarrow>
          (case parse_entries dir dir_entries of
             Inl e \<Rightarrow> Inl e
           | Inr migrations \<Rightarrow> Inr (sort_key (\<lambda>m. sint (mg_Version m)) (reorder perm migrations))))"

section \<open>The run\<close>

record 's migration_db =
  md_applied :: "(i64 \<times> string) list option"
  md_schema :: 's

type_synonym 's executor = "string \<Rightarrow> 's \<Rightarrow> err + 's"

definition applied_rows :: "'s migration_db \<Rightarrow> (i64 \<times> string) list" where
  "applied_rows db = (case md_applied db of None \<Rightarrow> [] | Some rows \<Rightarrow> rows)"

definition ensure_table :: "'s migration_db \<Rightarrow> 's migration_db" where
  "ensure_table db = db\<lparr>md_applied := Some (applied_rows db)\<rparr>"

definition record_version :: "migration \<Rightarrow> 's migration_db \<Rightarrow> err + 's migration_db" where
  "record_version m db =
     (if \<not> pg_text_ok (mg_Name m) then Inl (ErrText ''invalid byte sequence for encoding'')
      else if mg_Version m \<in> fst ` set (applied_rows db) then Inl (ErrText ''duplicate key value violates unique constraint'')
      else Inr (db\<lparr>md_applied := Some (applied_rows db @ [(mg_Version m, mg_Name m)])\<rparr>))"

definition apply_one ::
  "'x ctx_scheme \<Rightarrow> file_system \<Rightarrow> 's executor \<Rightarrow> nat \<Rightarrow> migration \<Rightarrow> 's migration_db \<Rightarrow> err + 's migration_db"
where
  "apply_one cx fs sql_exec k m db =
     (case fs_ReadFile fs (mg_Path m) of
        Inl e \<Rightarrow> Inl (wrap (''read migration '' @ mg_Name m) e)
      | Inr sql \<Rightarrow>
          (case (if trim_space sql = [] then Inr (md_schema db) else stmt cx k (sql_exec sql (md_schema db))) of
             Inl e \<Rightarrow> Inl (wrap (''apply migration '' @ mg_Name m) e)
           | Inr schema \<Rightarrow>
               (case stmt cx (k + 1) (record_version m (db\<lparr>md_schema := schema\<rparr>)) of
                  Inl e \<Rightarrow> Inl (wrap (''record migration '' @ mg_Name m) e)
                | Inr db' \<Rightarrow> Inr db')))"

text \<open>The set of applied versions is the one read before the loop.\<close>

fun apply_pending ::
  "'x ctx_scheme \<Rightarrow> file_system \<Rightarrow> 's executor \<Rightarrow> i64 set \<Rightarrow> nat \<Rightarrow> migration list \<Rightarrow> 's migration_db \<Rightarrow> err + 's migration_db"
where
  "apply_pending cx fs sql_exec applied k [] db = Inr db"
| "apply_pending cx fs sql_exec applied k (m # ms) db =
     (if mg_Version m \<in> applied then apply_pending cx fs sql_exec applied k ms db
      else (case apply_one cx fs sql_exec k m db of
              Inl e \<Rightarrow> Inl e
            | Inr db' \<Rightarrow> apply_pending cx fs sql_exec applied (k + 2) ms db'))"

definition appliedVersions :: "'x ctx_scheme \<Rightarrow> 's migration_db \<Rightarrow> err + i64 set" where
  "appliedVersions cx db =
     (case stmt cx 2 (Inr (fst ` set (applied_rows db))) of
        Inl e \<Rightarrow> Inl (wrap ''read applied migrations'' e)
      | Inr applied \<Rightarrow> Inr applied)"

definition migration_body ::
  "'x ctx_scheme \<Rightarrow> file_system \<Rightarrow> 's executor \<Rightarrow> migration list \<Rightarrow> 's migration_db \<Rightarrow> (err + unit) \<times> 's migration_db"
where
  "migration_body cx fs sql_exec migrations db =
     (case stmt cx 0 (Inr (ensure_table db)) of
        Inl e \<Rightarrow> (Inl (wrap ''ensure schema_migrations table'' e), db)
      | Inr db1 \<Rightarrow>
          (case stmt cx 1 (Inr ()) of
             Inl e \<Rightarrow> (Inl (wrap ''acquire migration lock'' e), db)
           | Inr _ \<Rightarrow>
               (case appliedVersions cx db1 of
                  Inl e \<Rightarrow> (Inl e, db)
                | Inr applied \<Rightarrow>
                    (case apply_pending cx fs sql_exec applied 3 migrations db1 of
                       Inl e \<Rightarrow> (Inl e, db)
                     | Inr db2 \<Rightarrow> (Inr (), db2)))))"

definition Migration_Run ::
  "'x ctx_scheme \<Rightarrow> file_system \<Rightarrow> nat list \<Rightarrow> 's executor \<Rightarrow> string \<Rightarrow> 's migration_db \<Rightarrow> (err + unit) \<times> 's migration_db"
where
  "Migration_Run cx fs perm sql_exec dir db =
     (case ResolveDir fs dir of
        Inl e \<Rightarrow> (Inl e, db)
      | Inr migrationsDir \<Rightarrow>
          (case Discover fs perm migrationsDir of
             Inl e \<Rightarrow> (Inl e, db)
           | Inr migrations \<Rightarrow>
               in_tx cx ''begin migration transaction'' (\<lambda>_. ''commit migration transaction'')
                 (migration_body cx fs sql_exec migrations) db))"

end
