(* ===== verification/Migration_Properties.thy ===== *)
theory Migration_Properties
  imports Migration Samples
begin

text \<open>
  Properties of the migrations: a run applies exactly what is pending, in order and as a whole or not at
  all, and repeating it changes nothing.
\<close>

definition pending :: "'s migration_db \<Rightarrow> migration list \<Rightarrow> migration list" where
  "pending db ms = filter (\<lambda>m. mg_Version m \<notin> fst ` set (applied_rows db)) ms"

text \<open>The schema after the texts of the files, one after the other.\<close>

fun exec_files :: "file_system \<Rightarrow> 's executor \<Rightarrow> migration list \<Rightarrow> 's \<Rightarrow> 's option" where
  "exec_files fs sql_exec [] s = Some s"
| "exec_files fs sql_exec (m # ms) s =
     (case fs_ReadFile fs (mg_Path m) of
        Inl _ \<Rightarrow> None
      | Inr sql \<Rightarrow>
          (case (if trim_space sql = [] then Inr s else sql_exec sql s) of
             Inl _ \<Rightarrow> None
           | Inr s' \<Rightarrow> exec_files fs sql_exec ms s'))"

lemma applied_rows_ensure [simp]: "applied_rows (ensure_table db) = applied_rows db" "md_schema (ensure_table db) = md_schema db"
  by (simp_all add: ensure_table_def applied_rows_def)

lemma record_version_Inr:
  assumes "record_version m db = Inr db'"
  shows "mg_Version m \<notin> fst ` set (applied_rows db) \<and> db' = db\<lparr>md_applied := Some (applied_rows db @ [(mg_Version m, mg_Name m)])\<rparr>"
  using assms by (simp add: record_version_def split: if_splits)

lemma apply_one_Inr:
  assumes "apply_one cx fs sql_exec k m db = Inr db'"
  obtains sql schema where "fs_ReadFile fs (mg_Path m) = Inr sql"
    and "(if trim_space sql = [] then Inr (md_schema db) else sql_exec sql (md_schema db)) = Inr schema"
    and "mg_Version m \<notin> fst ` set (applied_rows db)"
    and "db' = db\<lparr>md_schema := schema, md_applied := Some (applied_rows db @ [(mg_Version m, mg_Name m)])\<rparr>"
proof -
  from assms obtain sql where sql: "fs_ReadFile fs (mg_Path m) = Inr sql"
    by (cases "fs_ReadFile fs (mg_Path m)") (simp_all add: apply_one_def)
  let ?run = "if trim_space sql = [] then Inr (md_schema db) else stmt cx k (sql_exec sql (md_schema db))"
  from assms sql obtain schema where schema: "?run = Inr schema" by (cases ?run) (simp_all add: apply_one_def)
  then have "(if trim_space sql = [] then Inr (md_schema db) else sql_exec sql (md_schema db)) = Inr schema" by (auto split: if_splits)
  moreover have "record_version m (db\<lparr>md_schema := schema\<rparr>) = Inr db'"
    using assms sql schema by (auto simp: apply_one_def split: sum.splits)
  from record_version_Inr [OF this] have "mg_Version m \<notin> fst ` set (applied_rows db)"
    "db' = db\<lparr>md_schema := schema, md_applied := Some (applied_rows db @ [(mg_Version m, mg_Name m)])\<rparr>"
    by (simp_all add: applied_rows_def)
  ultimately show ?thesis using sql that by blast
qed

definition applied_by :: "file_system \<Rightarrow> 's executor \<Rightarrow> migration list \<Rightarrow> 's migration_db \<Rightarrow> 's migration_db \<Rightarrow> bool" where
  "applied_by fs sql_exec ms db db' \<longleftrightarrow>
     exec_files fs sql_exec ms (md_schema db) = Some (md_schema db')
     \<and> applied_rows db' = applied_rows db @ map (\<lambda>m. (mg_Version m, mg_Name m)) ms
     \<and> distinct (map mg_Version ms) \<and> (\<forall>m \<in> set ms. mg_Version m \<notin> fst ` set (applied_rows db))"

lemma applied_by_Cons:
  assumes one: "apply_one cx fs sql_exec k m db = Inr db1" and rest: "applied_by fs sql_exec ms db1 db'"
  shows "applied_by fs sql_exec (m # ms) db db'"
proof -
  from one obtain sql schema where sql: "fs_ReadFile fs (mg_Path m) = Inr sql"
    "(if trim_space sql = [] then Inr (md_schema db) else sql_exec sql (md_schema db)) = Inr schema"
    "mg_Version m \<notin> fst ` set (applied_rows db)"
    and db1: "db1 = db\<lparr>md_schema := schema, md_applied := Some (applied_rows db @ [(mg_Version m, mg_Name m)])\<rparr>"
    by (rule apply_one_Inr)
  have "applied_rows db1 = applied_rows db @ [(mg_Version m, mg_Name m)]" "md_schema db1 = schema" by (simp_all add: db1 applied_rows_def)
  with rest sql show ?thesis by (auto simp: applied_by_def)
qed

lemma apply_pending_Inr:
  "apply_pending cx fs sql_exec applied k ms db = Inr db'
     \<Longrightarrow> applied_by fs sql_exec (filter (\<lambda>m. mg_Version m \<notin> applied) ms) db db' \<and> (md_applied db \<noteq> None \<longrightarrow> md_applied db' \<noteq> None)"
proof (induction ms arbitrary: k db)
  case Nil
  then show ?case by (simp add: applied_by_def)
next
  case (Cons m ms)
  show ?case
  proof (cases "mg_Version m \<in> applied")
    case True
    with Cons show ?thesis by simp
  next
    case False
    with Cons.prems obtain db1 where one: "apply_one cx fs sql_exec k m db = Inr db1"
      and rest: "apply_pending cx fs sql_exec applied (k + 2) ms db1 = Inr db'"
      by (auto split: sum.splits)
    have "md_applied db1 \<noteq> None" using one by (rule apply_one_Inr) simp
    with Cons.IH [OF rest] applied_by_Cons [OF one] False show ?thesis by simp
  qed
qed

text \<open>What the transaction's body computes when it succeeds.\<close>

lemma migration_body_Inr:
  assumes "migration_body cx fs sql_exec ms db = (Inr u, db')"
  shows "applied_by fs sql_exec (pending db ms) db db' \<and> md_applied db' \<noteq> None"
proof -
  from assms have "apply_pending cx fs sql_exec (fst ` set (applied_rows db)) 3 ms (ensure_table db) = Inr db'"
    by (auto simp: migration_body_def appliedVersions_def split: sum.splits)
  from apply_pending_Inr [OF this] show ?thesis
    by (simp add: pending_def applied_by_def) (simp add: ensure_table_def)
qed

lemma Discover_sorted:
  assumes "Discover fs perm d = Inr ms" and "distinct (map mg_Version (filter P ms))"
  shows "sorted_wrt (<) (map (\<lambda>m. sint (mg_Version m)) (filter P ms))"
proof -
  have "sorted (map (\<lambda>m. sint (mg_Version m)) ms)"
    using assms(1) by (auto simp: Discover_def split: sum.splits)
  then have "sorted (map (\<lambda>m. sint (mg_Version m)) (filter P ms))" by (rule sorted_filter)
  moreover have "distinct (map (\<lambda>m. sint (mg_Version m)) (filter P ms))"
    using assms(2) by (simp add: distinct_map inj_on_def sint_eq_iff)
  ultimately show ?thesis by (simp add: strict_sorted_iff)
qed

lemma Run_cases:
  assumes "Migration_Run cx fs perm sql_exec dir db = (res, db')"
  obtains (unchanged) e where "db' = db" "res = Inl e"
    | (applied) d ms where "ResolveDir fs dir = Inr d" "Discover fs perm d = Inr ms"
        "applied_by fs sql_exec (pending db ms) db db'" "md_applied db' \<noteq> None" "res = Inr () \<or> (\<exists>f. cx_commit cx = CommitUnknown f)"
proof (cases "\<exists>d ms. ResolveDir fs dir = Inr d \<and> Discover fs perm d = Inr ms")
  case True
  then obtain d ms where d: "ResolveDir fs dir = Inr d" "Discover fs perm d = Inr ms" by blast
  have tx: "in_tx cx ''begin migration transaction'' (\<lambda>_. ''commit migration transaction'') (migration_body cx fs sql_exec ms) db = (res, db')"
    using assms d by (simp add: Migration_Run_def)
  show ?thesis
  proof (cases "\<exists>e. db' = db \<and> res = Inl e")
    case True
    with unchanged show ?thesis by blast
  next
    case False
    have "migration_body cx fs sql_exec ms db = (Inr (), db')" "res = Inr () \<or> (\<exists>f. cx_commit cx = CommitUnknown f)"
      using tx False by (auto simp: in_tx_def split: option.splits prod.splits sum.splits commit_outcome.splits)
    with migration_body_Inr applied [OF d] show ?thesis by blast
  qed
next
  case False
  with assms unchanged show ?thesis by (auto simp: Migration_Run_def split: sum.splits)
qed

section \<open>Properties\<close>

text \<open>
  C36. A migration run is exact and all or nothing. Either it reports an error and the database is as it was; or the files of the directory that were not recorded
  have been executed, each once, in strictly ascending order of their versions (so no two of them share one), each is recorded in that order behind what was there, and
  the answer is success unless the commit's answer was lost.
\<close>

theorem migrate_exact:
  assumes "Migration_Run cx fs perm sql_exec dir db = (res, db')"
  shows "(db' = db \<and> (\<exists>e. res = Inl e))
    \<or> (\<exists>d ms. ResolveDir fs dir = Inr d \<and> Discover fs perm d = Inr ms
         \<and> sorted_wrt (<) (map (\<lambda>m. sint (mg_Version m)) (pending db ms))
         \<and> exec_files fs sql_exec (pending db ms) (md_schema db) = Some (md_schema db')
         \<and> applied_rows db' = applied_rows db @ map (\<lambda>m. (mg_Version m, mg_Name m)) (pending db ms)
         \<and> (res = Inr () \<or> (\<exists>f. cx_commit cx = CommitUnknown f)))"
  using assms
proof (cases rule: Run_cases)
  case (applied d ms)
  have "distinct (map mg_Version (pending db ms))" using applied(3) by (simp add: applied_by_def)
  from Discover_sorted [OF applied(2) this [unfolded pending_def]] applied show ?thesis
    by (intro disjI2 exI [of _ d] exI [of _ ms]) (simp add: applied_by_def pending_def)
qed blast

text \<open>
  Migrating again changes nothing. After a run that succeeded, another run over the same files in which no database call fails succeeds and leaves the schema and
  the recorded versions as they are, in whatever order equal versions are sorted.
\<close>

theorem migrate_again:
  assumes first: "Migration_Run cx fs perm sql_exec dir db = (Inr (), db')" and nf: "no_faults cx'"
  shows "Migration_Run cx' fs perm' sql_exec' dir db' = (Inr (), db')"
  using first
proof (cases rule: Run_cases)
  case (applied d ms)
  obtain listed migs where listed: "fs_ReadDir fs d = Inr listed" "parse_entries d listed = Inr migs"
    and ms: "ms = sort_key (\<lambda>m. sint (mg_Version m)) (reorder perm migs)"
    using applied(2) by (auto simp: Discover_def split: sum.splits)
  let ?ms = "sort_key (\<lambda>m. sint (mg_Version m)) (reorder perm' migs)"
  have "Discover fs perm' d = Inr ?ms" using listed by (simp add: Discover_def)
  have seen: "\<forall>m \<in> set ?ms. mg_Version m \<in> fst ` set (applied_rows db')"
  proof
    fix m assume "m \<in> set ?ms"
    then have "m \<in> set ms" by (simp add: ms)
    then show "mg_Version m \<in> fst ` set (applied_rows db')"
      using applied(3) by (cases "m \<in> set (pending db ms)") (auto simp: applied_by_def pending_def image_Un image_image)
  qed
  have skip: "apply_pending cx' fs sql_exec' (fst ` set (applied_rows db')) k xs db' = Inr db'"
    if "\<forall>m \<in> set xs. mg_Version m \<in> fst ` set (applied_rows db')" for k xs
    using that by (induction xs) auto
  have "ensure_table db' = db'" using applied(4) by (auto simp: ensure_table_def applied_rows_def)
  then have "migration_body cx' fs sql_exec' ?ms db' = (Inr (), db')"
    using nf skip [OF seen] by (simp add: migration_body_def appliedVersions_def)
  with nf applied(1) \<open>Discover fs perm' d = Inr ?ms\<close> show ?thesis by (simp add: Migration_Run_def)
qed simp

text \<open>Two files on an empty database, the later version listed first.\<close>

definition sample_fs :: file_system where
  "sample_fs = \<lparr>fs_Abs = (\<lambda>d. Inr (CHR ''/'' # d)), fs_IsDir = (\<lambda>_. Inr True),
     fs_ReadDir = (\<lambda>_. Inr [(''000002_b.up.sql'', False), (''000001_a.down.sql'', False), (''000001_a.up.sql'', False)]),
     fs_ReadFile = Inr\<rparr>"

definition sample_exec :: "string list executor" where
  "sample_exec sql s = Inr (s @ [sql])"

definition fresh_db :: "string list migration_db" where
  "fresh_db = \<lparr>md_applied = None, md_schema = []\<rparr>"

definition migrated_db :: "string list migration_db" where
  "migrated_db = \<lparr>md_applied = Some [(1, ''000001_a''), (2, ''000002_b'')],
     md_schema = [''/m/000001_a.up.sql'', ''/m/000002_b.up.sql'']\<rparr>"

lemma sample_migrated: "Migration_Run (sample_ctx []) sample_fs [] sample_exec ''m'' fresh_db = (Inr (), migrated_db)"
  by code_simp

theorem migrate_exact_witness:
  "\<exists>ms. Discover sample_fs [] ''/m'' = Inr ms \<and> exec_files sample_fs sample_exec (pending fresh_db ms) [] = Some (md_schema migrated_db)"
proof -
  have "ResolveDir sample_fs ''m'' = Inr ''/m''" by code_simp
  with migrate_exact [OF sample_migrated] show ?thesis by (auto simp: fresh_db_def)
qed

theorem migrate_again_witness:
  "Migration_Run (sample_ctx ''x'') sample_fs [1, 0] sample_exec ''m'' migrated_db = (Inr (), migrated_db)"
  by (rule migrate_again [OF sample_migrated]) (simp add: no_faults_def)

end
