(* ===== verification/Observability.thy ===== *)
theory Observability
  imports Http Go_Strconv
begin

text \<open>
  The counters of requests and queries (\<open>observability/metrics.go\<close> of the three services): the HTTP
  middleware and the query tracer, as a log beside the state. What an entry of the log writes to which metric family, histograms included, is in
  \<open>Metrics_Registry\<close>; log lines are left out.
\<close>

datatype http_metric =
    HttpRequests string string string
  | DbOperations string string

section \<open>Requests\<close>

text \<open>
  \<open>pat\<close> is the pattern that chi has matched when the handler returns. A handler that writes no status has
  answered with 200.
\<close>

definition RequestLogger :: "(http_request \<Rightarrow> string) \<Rightarrow> 's http_handler \<Rightarrow> (http_metric list \<times> 's) http_handler" where
  "RequestLogger pat next rq hs st =
     (case next rq hs (snd st) of
        (resp, s) \<Rightarrow>
          (let status = (if rs_Status resp = 0 then 200 else rs_Status resp);
               route = (if pat rq = [] then ''unmatched'' else pat rq)
           in (resp, (fst st @ [HttpRequests (rq_Method rq) route (format_int status)], s))))"

definition ledger_RequestLogger :: "(http_request \<Rightarrow> string) \<Rightarrow> 's http_handler \<Rightarrow> (http_metric list \<times> 's) http_handler" where
  "ledger_RequestLogger = RequestLogger"

definition gateway_RequestLogger :: "(http_request \<Rightarrow> string) \<Rightarrow> 's http_handler \<Rightarrow> (http_metric list \<times> 's) http_handler" where
  "gateway_RequestLogger = RequestLogger"

text \<open>The middleware is transparent: the routers are modelled without it.\<close>

lemma RequestLogger_transparent:
  "fst (RequestLogger pat next rq hs (ms, s)) = fst (next rq hs s)"
  "snd (snd (RequestLogger pat next rq hs (ms, s))) = snd (next rq hs s)"
  by (simp_all add: RequestLogger_def Let_def split: prod.split)

section \<open>Queries\<close>

text \<open>The first of \<open>strings.Fields\<close>, empty when there is none.\<close>

fun until_space :: "string \<Rightarrow> string" where
  "until_space [] = []"
| "until_space (c # s) = (if list_ex (\<lambda>w. prefix w (c # s)) space_encodings then [] else c # until_space s)"

definition first_field :: "string \<Rightarrow> string" where
  "first_field s = until_space (trim_left_space s)"

definition TraceQueryStart :: "'x unicode_tables_scheme \<Rightarrow> string \<Rightarrow> string" where
  "TraceQueryStart U sql = (if first_field sql \<noteq> [] then to_lower U (first_field sql) else ''unknown'')"

text \<open>The operation is what \<open>TraceQueryStart\<close> left in the context, if it did.\<close>

definition TraceQueryEnd :: "string option \<Rightarrow> err option \<Rightarrow> http_metric list \<Rightarrow> http_metric list" where
  "TraceQueryEnd start e ms =
     (case start of
        None \<Rightarrow> ms
      | Some operation \<Rightarrow> ms @ [DbOperations operation (if e \<noteq> None then ''error'' else ''success'')])"

definition ledger_TraceQueryStart :: "'x unicode_tables_scheme \<Rightarrow> string \<Rightarrow> string" where
  "ledger_TraceQueryStart = TraceQueryStart"

definition ledger_TraceQueryEnd :: "string option \<Rightarrow> err option \<Rightarrow> http_metric list \<Rightarrow> http_metric list" where
  "ledger_TraceQueryEnd = TraceQueryEnd"

text \<open>A label has no blanks, so the statements of a kind share one.\<close>

lemma until_space_append:
  assumes "list_all (\<lambda>c. \<not> list_ex (\<lambda>w. hd w = c) space_encodings) xs" and "list_ex (\<lambda>w. prefix w rest) space_encodings"
  shows "until_space (xs @ rest) = xs"
  using assms
proof (induction xs)
  case Nil
  then show ?case by (cases rest) (auto simp: space_encodings_def)
next
  case (Cons x xs)
  have "\<not> list_ex (\<lambda>w. prefix w (x # xs @ rest)) space_encodings"
  proof
    assume "list_ex (\<lambda>w. prefix w (x # xs @ rest)) space_encodings"
    then obtain w where w: "w \<in> set space_encodings" "prefix w (x # xs @ rest)" by (auto simp: list_ex_iff)
    have "w \<noteq> []" using w(1) by (auto simp: space_encodings_def)
    with w(2) have "hd w = x" by (cases w) auto
    with w(1) Cons.prems(1) show False by (auto simp: list_ex_iff)
  qed
  with Cons show ?case by simp
qed

end
