(* ===== verification/Metrics_Registry.thy ===== *)
theory Metrics_Registry
  imports Observability Outbox_Publisher Ledger_Consumer
begin

text \<open>
  The registries of the three services (\<open>observability/metrics.go\<close>): which metric families a process declares,
  what one update writes to which series, and that every update of the model fits a declared family.
  The values that Prometheus keeps and the text it serves are its own.
\<close>

section \<open>Families\<close>

text \<open>A vector has a name and the names of its labels; a gauge function has constant labels.\<close>

datatype family =
    CounterVec string "string list"
  | HistogramVec string "string list"
  | GaugeVec string "string list"
  | CounterFamily string
  | GaugeFunc string "(string \<times> string) list"
  | GoCollector
  | ProcessCollector

definition payment_NewMetrics :: "family list" where
  "payment_NewMetrics =
     [GoCollector, ProcessCollector,
      CounterVec ''finflow_http_requests_total'' [''method'', ''route'', ''status''],
      HistogramVec ''finflow_http_request_duration_seconds'' [''method'', ''route''],
      CounterVec ''finflow_db_operations_total'' [''operation'', ''result''],
      HistogramVec ''finflow_db_operation_duration_seconds'' [''operation''],
      CounterVec ''finflow_kafka_messages_published_total'' [''event_type'', ''result''],
      HistogramVec ''finflow_kafka_publish_duration_seconds'' [''event_type''],
      CounterFamily ''finflow_outbox_events_claimed_total'']"

definition ledger_NewMetrics :: "family list" where
  "ledger_NewMetrics =
     [GoCollector, ProcessCollector,
      CounterVec ''finflow_http_requests_total'' [''method'', ''route'', ''status''],
      HistogramVec ''finflow_http_request_duration_seconds'' [''method'', ''route''],
      CounterVec ''finflow_db_operations_total'' [''operation'', ''result''],
      HistogramVec ''finflow_db_operation_duration_seconds'' [''operation''],
      CounterVec ''finflow_kafka_messages_consumed_total'' [''event_type'', ''result''],
      HistogramVec ''finflow_kafka_consume_duration_seconds'' [''event_type''],
      GaugeVec ''finflow_kafka_consumer_lag_messages'' [''topic'', ''partition''],
      CounterVec ''finflow_kafka_consumer_retries_total'' [''event_type''],
      CounterVec ''finflow_kafka_dead_letters_total'' [''event_type'', ''result'']]"

definition gateway_NewMetrics :: "family list" where
  "gateway_NewMetrics =
     [GoCollector, ProcessCollector,
      CounterVec ''finflow_http_requests_total'' [''method'', ''route'', ''status''],
      HistogramVec ''finflow_http_request_duration_seconds'' [''method'', ''route'']]"

text \<open>
  The pool's connections, one gauge per state. The states are the keys of a map: the order of registration is any
  permutation \<open>order\<close> of them.
\<close>

record pool_stat =
  AcquiredConns :: int
  IdleConns :: int
  TotalConns :: int
  MaxConns :: int

definition pool_states :: "(string \<times> (pool_stat \<Rightarrow> int)) list" where
  "pool_states = [(''acquired'', AcquiredConns), (''idle'', IdleConns), (''total'', TotalConns), (''max'', MaxConns)]"

definition RegisterDBPool :: "(string \<times> (pool_stat \<Rightarrow> int)) list \<Rightarrow> family list \<Rightarrow> family list" where
  "RegisterDBPool order reg = reg @ map (\<lambda>(state, value). GaugeFunc ''finflow_db_pool_connections'' [(''state'', state)]) order"

definition ledger_RegisterDBPool :: "(string \<times> (pool_stat \<Rightarrow> int)) list \<Rightarrow> family list \<Rightarrow> family list" where
  "ledger_RegisterDBPool = RegisterDBPool"

definition pool_samples :: "pool_stat \<Rightarrow> (string \<times> int) list" where
  "pool_samples stat = map (\<lambda>(state, value). (state, value stat)) pool_states"

section \<open>Registration\<close>

text \<open>
  A registry refuses a collector whose name and constant labels are there already, and a name with
  different label names.
\<close>

fun descriptor :: "family \<Rightarrow> string \<times> (string \<times> string) list" where
  "descriptor (CounterVec n ls) = (n, [])"
| "descriptor (HistogramVec n ls) = (n, [])"
| "descriptor (GaugeVec n ls) = (n, [])"
| "descriptor (CounterFamily n) = (n, [])"
| "descriptor (GaugeFunc n cs) = (n, cs)"
| "descriptor GoCollector = (''go'', [])"
| "descriptor ProcessCollector = (''process'', [])"

fun label_names :: "family \<Rightarrow> string list" where
  "label_names (CounterVec n ls) = ls"
| "label_names (HistogramVec n ls) = ls"
| "label_names (GaugeVec n ls) = ls"
| "label_names (GaugeFunc n cs) = map fst cs"
| "label_names _ = []"

definition registrable :: "family list \<Rightarrow> bool" where
  "registrable reg \<longleftrightarrow> distinct (map descriptor reg)
     \<and> (\<forall>f \<in> set reg. \<forall>g \<in> set reg. fst (descriptor f) = fst (descriptor g) \<longrightarrow> label_names f = label_names g)"

lemma registrable_order: "mset reg = mset reg' \<Longrightarrow> registrable reg = registrable reg'"
  unfolding registrable_def by (metis mset_eq_imp_distinct_iff mset_eq_setD mset_map)

lemma registry_order:
  assumes "mset order = mset pool_states"
  shows "mset (RegisterDBPool order reg) = mset (RegisterDBPool pool_states reg)"
  using assms by (simp add: RegisterDBPool_def)

text \<open>No process is stopped by its registrations, in whatever order the map is walked.\<close>

theorem registration_accepted:
  assumes "mset order = mset pool_states"
  shows "registrable (RegisterDBPool order payment_NewMetrics)"
    and "registrable (ledger_RegisterDBPool order ledger_NewMetrics)"
    and "registrable gateway_NewMetrics"
proof -
  have "registrable (RegisterDBPool pool_states payment_NewMetrics)"
    by code_simp
  then show "registrable (RegisterDBPool order payment_NewMetrics)"
    using registrable_order [OF registry_order [OF assms]] by blast
  have "registrable (RegisterDBPool pool_states ledger_NewMetrics)"
    by code_simp
  then show "registrable (ledger_RegisterDBPool order ledger_NewMetrics)"
    using registrable_order [OF registry_order [OF assms]] by (simp add: ledger_RegisterDBPool_def)
  show "registrable gateway_NewMetrics"
    by code_simp
qed

section \<open>Updates\<close>

text \<open>
  What an entry of the logs of the model does to the registry: increments, observations of a duration, a
  gauge that is set.
\<close>

datatype sample =
    Inc string "string list"
  | Add string nat
  | Observe string "string list" int
  | SetGauge string "string list" int

fun metric_samples :: "int \<Rightarrow> metric \<Rightarrow> sample list" where
  "metric_samples d (OutboxClaimed n) = [Add ''finflow_outbox_events_claimed_total'' n]"
| "metric_samples d (KafkaPublished t r) =
     [Inc ''finflow_kafka_messages_published_total'' [t, r], Observe ''finflow_kafka_publish_duration_seconds'' [t] d]"
| "metric_samples d (KafkaConsumed t r) =
     [Inc ''finflow_kafka_messages_consumed_total'' [t, r], Observe ''finflow_kafka_consume_duration_seconds'' [t] d]"
| "metric_samples d (KafkaLag topic part lag) =
     [SetGauge ''finflow_kafka_consumer_lag_messages'' [topic, format_int (sint part)] (sint lag)]"
| "metric_samples d (KafkaRetry t) = [Inc ''finflow_kafka_consumer_retries_total'' [t]]"
| "metric_samples d (DeadLetter t r) = [Inc ''finflow_kafka_dead_letters_total'' [t, r]]"

fun http_samples :: "int \<Rightarrow> http_metric \<Rightarrow> sample list" where
  "http_samples d (HttpRequests m rt st) =
     [Inc ''finflow_http_requests_total'' [m, rt, st], Observe ''finflow_http_request_duration_seconds'' [m, rt] d]"
| "http_samples d (DbOperations operation result) =
     [Inc ''finflow_db_operations_total'' [operation, result], Observe ''finflow_db_operation_duration_seconds'' [operation] d]"

text \<open>A series exists when its family is declared with as many labels as the update has values.\<close>

fun fits :: "family \<Rightarrow> sample \<Rightarrow> bool" where
  "fits (CounterVec n ls) (Inc m vs) = (n = m \<and> length ls = length vs)"
| "fits (HistogramVec n ls) (Observe m vs d) = (n = m \<and> length ls = length vs)"
| "fits (GaugeVec n ls) (SetGauge m vs v) = (n = m \<and> length ls = length vs)"
| "fits (CounterFamily n) (Add m k) = (n = m)"
| "fits _ _ = False"

definition declared :: "family list \<Rightarrow> sample list \<Rightarrow> bool" where
  "declared reg ss \<longleftrightarrow> (\<forall>s \<in> set ss. list_ex (\<lambda>f. fits f s) reg)"

definition metrics_declared :: "family list \<Rightarrow> metric list \<Rightarrow> bool" where
  "metrics_declared reg ms \<longleftrightarrow> (\<forall>x \<in> set ms. \<forall>d. declared reg (metric_samples d x))"

lemma metrics_declared_simps [simp]:
  "metrics_declared reg []"
  "metrics_declared reg (xs @ ys) \<longleftrightarrow> metrics_declared reg xs \<and> metrics_declared reg ys"
  by (auto simp: metrics_declared_def)

text \<open>The families that the updates belong to.\<close>

lemma declared_simps [simp]:
  "declared reg []"
  "declared reg (s # ss) \<longleftrightarrow> list_ex (\<lambda>f. fits f s) reg \<and> declared reg ss"
  by (simp_all add: declared_def)

lemma metrics_declared_Cons [simp]:
  "metrics_declared reg (x # xs) \<longleftrightarrow> (\<forall>d. declared reg (metric_samples d x)) \<and> metrics_declared reg xs"
  by (auto simp: metrics_declared_def)

lemma fits_members:
  "CounterVec n ls \<in> set reg \<Longrightarrow> length ls = length vs \<Longrightarrow> list_ex (\<lambda>f. fits f (Inc n vs)) reg"
  "HistogramVec n ls \<in> set reg \<Longrightarrow> length ls = length vs \<Longrightarrow> list_ex (\<lambda>f. fits f (Observe n vs d)) reg"
  "GaugeVec n ls \<in> set reg \<Longrightarrow> length ls = length vs \<Longrightarrow> list_ex (\<lambda>f. fits f (SetGauge n vs v)) reg"
  "CounterFamily n \<in> set reg \<Longrightarrow> list_ex (\<lambda>f. fits f (Add n k)) reg"
  by (force simp: list_ex_iff)+

lemma payment_families:
  "CounterVec ''finflow_http_requests_total'' [''method'', ''route'', ''status''] \<in> set payment_NewMetrics"
  "HistogramVec ''finflow_http_request_duration_seconds'' [''method'', ''route''] \<in> set payment_NewMetrics"
  "CounterVec ''finflow_db_operations_total'' [''operation'', ''result''] \<in> set payment_NewMetrics"
  "HistogramVec ''finflow_db_operation_duration_seconds'' [''operation''] \<in> set payment_NewMetrics"
  "CounterVec ''finflow_kafka_messages_published_total'' [''event_type'', ''result''] \<in> set payment_NewMetrics"
  "HistogramVec ''finflow_kafka_publish_duration_seconds'' [''event_type''] \<in> set payment_NewMetrics"
  "CounterFamily ''finflow_outbox_events_claimed_total'' \<in> set payment_NewMetrics"
  by code_simp+

lemma ledger_families:
  "CounterVec ''finflow_http_requests_total'' [''method'', ''route'', ''status''] \<in> set ledger_NewMetrics"
  "HistogramVec ''finflow_http_request_duration_seconds'' [''method'', ''route''] \<in> set ledger_NewMetrics"
  "CounterVec ''finflow_db_operations_total'' [''operation'', ''result''] \<in> set ledger_NewMetrics"
  "HistogramVec ''finflow_db_operation_duration_seconds'' [''operation''] \<in> set ledger_NewMetrics"
  "CounterVec ''finflow_kafka_messages_consumed_total'' [''event_type'', ''result''] \<in> set ledger_NewMetrics"
  "HistogramVec ''finflow_kafka_consume_duration_seconds'' [''event_type''] \<in> set ledger_NewMetrics"
  "GaugeVec ''finflow_kafka_consumer_lag_messages'' [''topic'', ''partition''] \<in> set ledger_NewMetrics"
  "CounterVec ''finflow_kafka_consumer_retries_total'' [''event_type''] \<in> set ledger_NewMetrics"
  "CounterVec ''finflow_kafka_dead_letters_total'' [''event_type'', ''result''] \<in> set ledger_NewMetrics"
  by code_simp+

lemma gateway_families:
  "CounterVec ''finflow_http_requests_total'' [''method'', ''route'', ''status''] \<in> set gateway_NewMetrics"
  "HistogramVec ''finflow_http_request_duration_seconds'' [''method'', ''route''] \<in> set gateway_NewMetrics"
  by code_simp+

lemmas payment_fits = payment_families(1) [THEN fits_members(1)] payment_families(3) [THEN fits_members(1)] payment_families(5) [THEN fits_members(1)]
  payment_families(2) [THEN fits_members(2)] payment_families(4) [THEN fits_members(2)] payment_families(6) [THEN fits_members(2)]
  payment_families(7) [THEN fits_members(4)]

lemmas ledger_fits = ledger_families(1) [THEN fits_members(1)] ledger_families(3) [THEN fits_members(1)] ledger_families(5) [THEN fits_members(1)] ledger_families(8) [THEN fits_members(1)] ledger_families(9) [THEN fits_members(1)]
  ledger_families(2) [THEN fits_members(2)] ledger_families(4) [THEN fits_members(2)] ledger_families(6) [THEN fits_members(2)] ledger_families(7) [THEN fits_members(3)]

lemmas gateway_fits = gateway_families(1) [THEN fits_members(1)] gateway_families(2) [THEN fits_members(2)]

lemma record_declared [simp]:
  "metrics_declared ledger_NewMetrics (RecordKafkaRetry t)"
  "metrics_declared ledger_NewMetrics (RecordDeadLetter t e)"
  "metrics_declared ledger_NewMetrics (RecordKafkaConsume t topic part lag e)"
  "metrics_declared payment_NewMetrics (RecordKafkaPublish t e)"
  "metrics_declared payment_NewMetrics (AddOutboxClaimed n)"
  unfolding RecordKafkaRetry_def RecordDeadLetter_def RecordKafkaConsume_def RecordKafkaPublish_def AddOutboxClaimed_def
    metrics_declared_Cons metric_samples.simps declared_simps(2)
  by (intro conjI allI metrics_declared_simps(1) declared_simps(1) ledger_fits payment_fits; simp only: list.size)+

lemma http_declared:
  "declared payment_NewMetrics (http_samples d x)" "declared ledger_NewMetrics (http_samples d x)"
  by (cases x; simp only: http_samples.simps declared_simps(2); intro conjI declared_simps(1) payment_fits ledger_fits; simp only: list.size)+

lemma gateway_http_declared: "declared gateway_NewMetrics (http_samples d (HttpRequests m rt st))"
  unfolding http_samples.simps declared_simps(2)
  by (intro conjI declared_simps(1) gateway_fits; simp only: list.size)

section \<open>Running workers\<close>

lemma handle_declared:
  "HandleMessage L ledger c m s = (e, s', ms) \<Longrightarrow> metrics_declared ledger_NewMetrics ms"
  by (auto simp: HandleMessage_def Let_def split: prod.splits if_splits)

lemma retry_declared:
  "metrics_declared ledger_NewMetrics (ro_metrics (retry_loop L ledger env cancel mb m attempt left b s))"
proof (induction left arbitrary: attempt b s)
  case (Suc left)
  obtain e s' ms where h: "HandleMessage L ledger (env attempt) m s = (e, s', ms)" by (rule prod_cases3)
  with Suc handle_declared [OF h] show ?case by (auto simp: Let_def split: option.splits)
qed simp

lemma turn_declared:
  assumes "consume_turn L ledger cfg t st = (e, st')" and "metrics_declared ledger_NewMetrics (cs_metrics st)"
  shows "metrics_declared ledger_NewMetrics (cs_metrics st')"
  using assms retry_declared
  by (auto simp: consume_turn_def commit_message_def handleWithRetry_def Let_def
      split: turn.splits if_splits option.splits prod.splits)

lemma publish_declared:
  assumes "metrics_declared payment_NewMetrics (pub_metrics st)"
  shows "metrics_declared payment_NewMetrics (pub_metrics (publish_events S topic env k es st))"
  using assms
proof (induction es arbitrary: st k)
  case (Cons e es)
  have "metrics_declared payment_NewMetrics (pub_metrics (publish_step S topic (env k) e st))"
    using Cons.prems by (auto simp: publish_step_def publishOne_def Let_def split: prod.splits option.splits)
  with Cons.IH show ?case by simp
qed simp

text \<open>
  No update of a running worker names a series that its registry does not have: \<open>WithLabelValues\<close> is always called
  with the declared number of values.
\<close>

theorem consumer_updates_declared:
  assumes "Consumer_Run L ledger cfg ts st = (e, st')" and "metrics_declared ledger_NewMetrics (cs_metrics st)"
  shows "metrics_declared ledger_NewMetrics (cs_metrics st')"
  using assms
proof (induction ts arbitrary: st)
  case (Cons t ts)
  obtain e1 st1 where t: "consume_turn L ledger cfg t st = (e1, st1)" by force
  with Cons.IH [of st1] Cons.prems turn_declared [OF t] show ?case by (cases e1) auto
qed simp

theorem publisher_updates_declared:
  assumes "metrics_declared payment_NewMetrics (pub_metrics st)"
  shows "metrics_declared payment_NewMetrics (pub_metrics (Run S topic n ticks st))"
  using assms
proof (induction ticks arbitrary: st)
  case (Cons t ticks)
  obtain cx env where t: "t = (cx, env)" by force
  have "metrics_declared payment_NewMetrics (pub_metrics (snd (PublishBatch S topic cx env n st)))"
    using Cons.prems by (auto simp: PublishBatch_def intro!: publish_declared split: sum.splits prod.splits)
  with Cons.IH show ?case by (simp add: t)
qed simp

section \<open>What the counters count\<close>

text \<open>Events claimed, publications counted, and those counted as successes.\<close>

fun claimed_count :: "metric \<Rightarrow> nat" where
  "claimed_count (OutboxClaimed n) = n"
| "claimed_count _ = 0"

fun published_count :: "metric \<Rightarrow> nat" where
  "published_count (KafkaPublished t r) = 1"
| "published_count _ = 0"

fun success_count :: "metric \<Rightarrow> nat" where
  "success_count (KafkaPublished t r) = of_bool (r = ''success'')"
| "success_count _ = 0"

definition counted :: "(metric \<Rightarrow> nat) \<Rightarrow> metric list \<Rightarrow> nat" where
  "counted f ms = sum_list (map f ms)"

lemma counted_simps [simp]:
  "counted f [] = 0" "counted f (xs @ ys) = counted f xs + counted f ys" "counted f [x] = f x"
  by (simp_all add: counted_def)

lemma publish_step_counts:
  "counted claimed_count (pub_metrics (publish_step S topic env e st)) = counted claimed_count (pub_metrics st)"
  "counted published_count (pub_metrics (publish_step S topic env e st)) = counted published_count (pub_metrics st) + 1"
  "counted success_count (pub_metrics (publish_step S topic env e st)) + length (pub_log st)
     \<le> counted success_count (pub_metrics st) + length (pub_log (publish_step S topic env e st))"
  by (auto simp: publish_step_def publishOne_def write_message_def RecordKafkaPublish_def result_label_def Let_def
      split: prod.splits option.splits write_outcome.splits)

lemma publish_events_counts:
  "counted claimed_count (pub_metrics (publish_events S topic env k es st)) = counted claimed_count (pub_metrics st)
   \<and> counted published_count (pub_metrics (publish_events S topic env k es st)) = counted published_count (pub_metrics st) + length es
   \<and> counted success_count (pub_metrics (publish_events S topic env k es st)) + length (pub_log st)
       \<le> counted success_count (pub_metrics st) + length (pub_log (publish_events S topic env k es st))"
proof (induction es arbitrary: st k)
  case (Cons e es)
  from Cons.IH [of "Suc k" "publish_step S topic (env k) e st"] publish_step_counts [of S topic "env k" e st]
  show ?case by simp
qed simp

text \<open>
  The publisher's counters agree with each other and with the topic: whatever fails, as many publications are counted as
  events claimed, and no success is counted without a message.
\<close>

theorem publisher_counters:
  "counted claimed_count (pub_metrics (Run S topic n ticks st)) + counted published_count (pub_metrics st)
     = counted published_count (pub_metrics (Run S topic n ticks st)) + counted claimed_count (pub_metrics st)
   \<and> counted success_count (pub_metrics (Run S topic n ticks st)) + length (pub_log st)
     \<le> counted success_count (pub_metrics st) + length (pub_log (Run S topic n ticks st))"
proof (induction ticks arbitrary: st)
  case (Cons t ticks)
  obtain cx env where t: "t = (cx, env)" by force
  obtain r s where c: "store_ClaimPending S cx n (pub_store st) = (r, s)" by force
  show ?case
  proof (cases r)
    case (Inl e)
    with Cons.IH [of "st\<lparr>pub_store := s\<rparr>"] c t show ?thesis by (simp add: PublishBatch_def)
  next
    case (Inr es)
    let ?st = "st\<lparr>pub_store := s, pub_metrics := pub_metrics st @ AddOutboxClaimed (length es)\<rparr>"
    from Cons.IH [of "publish_events S topic env 0 es ?st"] publish_events_counts [of S topic env 0 es ?st] c t Inr
    show ?thesis by (simp add: PublishBatch_def AddOutboxClaimed_def)
  qed
qed simp

end
