(* ===== verification/Process_Setup.thy ===== *)
theory Process_Setup
  imports Configuration
begin

text \<open>
  What every process does before its work: tracing (\<open>observability/tracing.go\<close>) and the connection pool
  (\<open>database/postgres.go\<close>), which are the same files in the services that have them. The OTLP exporter and pgx are
  the environment: what they answer to the calls of the source.
\<close>

text \<open>Durations in nanoseconds.\<close>

record pool_settings =
  pool_URL :: string
  pool_MaxConns :: i64
  pool_MinConns :: i64
  pool_MaxConnLifetime :: i64
  pool_MaxConnIdleTime :: i64
  pool_Traced :: bool

record setup_env =
  px_exporter :: "err option"
  px_ParseConfig :: "string \<Rightarrow> err option"
  px_NewPool :: "pool_settings \<Rightarrow> err option"
  px_Ping :: "pool_settings \<Rightarrow> err option"

text \<open>The service whose traces are exported, if any are.\<close>

definition InitTracing :: "'e env_scheme \<Rightarrow> 'p setup_env_scheme \<Rightarrow> string \<Rightarrow> err + string option" where
  "InitTracing E P serviceName =
     (if trim_space (ev_Getenv E ''OTEL_EXPORTER_OTLP_ENDPOINT'') = [] then Inr None
      else (case px_exporter P of
              Some e \<Rightarrow> Inl e
            | None \<Rightarrow> Inr (Some serviceName)))"

definition Connect :: "'p setup_env_scheme \<Rightarrow> string \<Rightarrow> bool \<Rightarrow> err + pool_settings" where
  "Connect P databaseURL tracer =
     (case px_ParseConfig P databaseURL of
        Some e \<Rightarrow> Inl (wrap ''parse database url'' e)
      | None \<Rightarrow>
          (let config = \<lparr>pool_URL = databaseURL, pool_MaxConns = 10, pool_MinConns = 1, pool_MaxConnLifetime = 3600000000000,
                 pool_MaxConnIdleTime = 1800000000000, pool_Traced = tracer\<rparr>
           in case px_NewPool P config of
                Some e \<Rightarrow> Inl (wrap ''create pool'' e)
              | None \<Rightarrow>
                  (case px_Ping P config of
                     Some e \<Rightarrow> Inl (wrap ''ping database'' e)
                   | None \<Rightarrow> Inr config)))"

definition ledger_InitTracing :: "'e env_scheme \<Rightarrow> 'p setup_env_scheme \<Rightarrow> string \<Rightarrow> err + string option" where
  "ledger_InitTracing = InitTracing"

definition gateway_InitTracing :: "'e env_scheme \<Rightarrow> 'p setup_env_scheme \<Rightarrow> string \<Rightarrow> err + string option" where
  "gateway_InitTracing = InitTracing"

definition ledger_Connect :: "'p setup_env_scheme \<Rightarrow> string \<Rightarrow> bool \<Rightarrow> err + pool_settings" where
  "ledger_Connect = Connect"

text \<open>A process that runs has reached its database, with the pool's fixed bounds.\<close>

lemma Connect_Inr:
  "Connect P url t = Inr c \<longleftrightarrow> px_ParseConfig P url = None \<and> px_NewPool P c = None \<and> px_Ping P c = None
     \<and> c = \<lparr>pool_URL = url, pool_MaxConns = 10, pool_MinConns = 1, pool_MaxConnLifetime = 3600000000000,
                 pool_MaxConnIdleTime = 1800000000000, pool_Traced = t\<rparr>"
  by (auto simp: Connect_def Let_def split: option.split)

end
