(* ===== verification/Kafka_Clients.thy ===== *)
theory Kafka_Clients
  imports Service_Configs Process_Setup Outbox_Publisher Dead_Letter
begin

text \<open>
  The Kafka clients that the processes construct: the settings of writers and readers with the
  security built from the configuration, and what the documented contract of the writer means
  for the messages of the services. The clients themselves are kafka-go's.
\<close>

section \<open>Settings\<close>

record transport =
  tr_ClientID :: string
  tr_TLS :: "tls_config option"
  tr_SASL :: "mechanism option"

datatype balancer = HashBalancer

record writer_settings =
  kw_Brokers :: "string list"
  kw_Topic :: string
  kw_Balancer :: balancer
  kw_RequireAllAcks :: bool
  kw_Async :: bool
  kw_Transport :: transport

definition NewKafkaWriter :: "key_store \<Rightarrow> string list \<Rightarrow> string \<Rightarrow> kafka_security_config \<Rightarrow> err + writer_settings" where
  "NewKafkaWriter F brokers topic security =
     (case BuildSecurity F security of
        Inl e \<Rightarrow> Inl e
      | Inr (tlsConfig, saslMechanism) \<Rightarrow>
          (let transport = \<lparr>tr_ClientID = ''finflow-outbox-publisher'', tr_TLS = tlsConfig, tr_SASL = saslMechanism\<rparr>
           in Inr \<lparr>kw_Brokers = brokers, kw_Topic = topic, kw_Balancer = HashBalancer, kw_RequireAllAcks = True, kw_Async = False,
                   kw_Transport = transport\<rparr>))"

definition consumer_NewKafkaWriter ::
  "key_store \<Rightarrow> string list \<Rightarrow> string \<Rightarrow> string \<Rightarrow> kafka_security_config \<Rightarrow> err + writer_settings"
where
  "consumer_NewKafkaWriter F brokers topic clientID security =
     (case ledger_BuildSecurity F security of
        Inl e \<Rightarrow> Inl e
      | Inr (tlsConfig, saslMechanism) \<Rightarrow>
          (let transport = \<lparr>tr_ClientID = clientID, tr_TLS = tlsConfig, tr_SASL = saslMechanism\<rparr>
           in Inr \<lparr>kw_Brokers = brokers, kw_Topic = topic, kw_Balancer = HashBalancer, kw_RequireAllAcks = True, kw_Async = False,
                   kw_Transport = transport\<rparr>))"

text \<open>Durations in nanoseconds; sizes in bytes.\<close>

record reader_settings =
  kr_Brokers :: "string list"
  kr_Topic :: string
  kr_GroupID :: string
  kr_Partition :: i64
  kr_StartOffset :: i64
  kr_Dialer :: transport
  kr_DialTimeout :: i64
  kr_DualStack :: bool
  kr_MinBytes :: i64
  kr_MaxBytes :: i64
  kr_CommitInterval :: i64

definition NewKafkaReader ::
  "key_store \<Rightarrow> string list \<Rightarrow> string \<Rightarrow> string \<Rightarrow> kafka_security_config \<Rightarrow> err + reader_settings"
where
  "NewKafkaReader F brokers topic groupID security =
     (case ledger_BuildSecurity F security of
        Inl e \<Rightarrow> Inl e
      | Inr (tlsConfig, saslMechanism) \<Rightarrow>
          Inr \<lparr>kr_Brokers = brokers, kr_Topic = topic, kr_GroupID = groupID, kr_Partition = 0, kr_StartOffset = 0,
               kr_Dialer = \<lparr>tr_ClientID = ''finflow-ledger-consumer'', tr_TLS = tlsConfig, tr_SASL = saslMechanism\<rparr>,
               kr_DialTimeout = 10000000000, kr_DualStack = True, kr_MinBytes = 1, kr_MaxBytes = 10000000, kr_CommitInterval = 0\<rparr>)"

definition NewPartitionReader ::
  "key_store \<Rightarrow> string list \<Rightarrow> string \<Rightarrow> i64 \<Rightarrow> i64 \<Rightarrow> string \<Rightarrow> kafka_security_config \<Rightarrow> err + reader_settings"
where
  "NewPartitionReader F brokers topic part offset clientID security =
     (case ledger_BuildSecurity F security of
        Inl e \<Rightarrow> Inl e
      | Inr (tlsConfig, saslMechanism) \<Rightarrow>
          Inr \<lparr>kr_Brokers = brokers, kr_Topic = topic, kr_GroupID = [], kr_Partition = part, kr_StartOffset = offset,
               kr_Dialer = \<lparr>tr_ClientID = clientID, tr_TLS = tlsConfig, tr_SASL = saslMechanism\<rparr>,
               kr_DialTimeout = 10000000000, kr_DualStack = True, kr_MinBytes = 1, kr_MaxBytes = 10000000, kr_CommitInterval = 0\<rparr>)"

section \<open>One topic per message\<close>

text \<open>
  The documentation of \<open>kafka.Writer.Topic\<close>: setting it and setting the topic of a message are
  mutually exclusive. A writer refuses a message that breaks this, without sending it.
\<close>

definition exclusive_topics :: "writer_settings \<Rightarrow> (kafka_message \<Rightarrow> write_outcome) \<Rightarrow> bool" where
  "exclusive_topics W write \<longleftrightarrow> (\<forall>m. kw_Topic W \<noteq> [] \<and> km_Topic m \<noteq> [] \<longrightarrow> (\<exists>f. write m = WriteLost f))"

lemma writer_topic:
  "NewKafkaWriter F brokers topic sec = Inr W \<Longrightarrow> kw_Topic W = topic"
  "consumer_NewKafkaWriter F brokers topic cid sec = Inr W \<Longrightarrow> kw_Topic W = topic"
  by (auto simp: NewKafkaWriter_def consumer_NewKafkaWriter_def Let_def split: sum.splits)

lemma refused:
  assumes "exclusive_topics W write" and "kw_Topic W = topic" and "topic \<noteq> []" and "km_Topic m = topic"
  shows "snd (write_message (write m) m log) = log" and "fst (write_message (write m) m log) \<noteq> None"
proof -
  have "\<exists>f. write m = WriteLost f"
    using assms(1) [unfolded exclusive_topics_def, THEN spec, of m] assms(2-4) by simp
  then obtain f where "write m = WriteLost f" ..
  then show "snd (write_message (write m) m log) = log" and "fst (write_message (write m) m log) \<noteq> None"
    by (simp_all add: write_message_def)
qed

lemma event_refused:
  assumes "exclusive_topics W (pe_write env)" and "kw_Topic W = topic" and "topic \<noteq> []"
  shows "pub_log (publish_step S topic env e st) = pub_log st"
  unfolding publish_step_log by (rule refused [OF assms]) (simp add: event_message_def)

lemma events_refused:
  assumes "\<And>k. exclusive_topics W (pe_write (env k))" and "kw_Topic W = topic" and "topic \<noteq> []"
  shows "pub_log (publish_events S topic env k es st) = pub_log st"
proof (induction es arbitrary: k st)
  case (Cons e es)
  have "pub_log (publish_events S topic env k (e # es) st) = pub_log (publish_step S topic (env k) e st)"
    using Cons.IH [of "Suc k" "publish_step S topic (env k) e st"] by (simp del: publish_step_log)
  also have "\<dots> = pub_log st" by (rule event_refused [OF assms])
  finally show ?case .
qed simp

lemma batch_refused:
  assumes "\<And>k. exclusive_topics W (pe_write (env k))" and "kw_Topic W = topic" and "topic \<noteq> []"
  shows "pub_log (snd (PublishBatch S topic cx env n st)) = pub_log st"
  by (auto simp: PublishBatch_def events_refused [OF assms] split: prod.split sum.split)

lemma run_refused:
  assumes "\<And>cx env k. (cx, env) \<in> set ticks \<Longrightarrow> exclusive_topics W (pe_write (env k))"
    and "kw_Topic W = topic" and "topic \<noteq> []"
  shows "pub_log (Run S topic n ticks st) = pub_log st"
  using assms(1)
proof (induction ticks arbitrary: st)
  case (Cons t ticks)
  obtain cx env where t: "t = (cx, env)" by (cases t)
  have "pub_log (Run S topic n (t # ticks) st) = pub_log (snd (PublishBatch S topic cx env n st))"
    unfolding t by (simp, rule Cons.IH) (use Cons.prems in auto)
  also have "\<dots> = pub_log st"
    by (rule batch_refused [where W = W]) (use Cons.prems t assms(2,3) in auto)
  finally show ?case .
qed simp

lemma dead_letter_refused:
  assumes "exclusive_topics W (dp_write env)" and "kw_Topic W = topic" and "topic \<noteq> []"
  shows "snd (DeadLetter_Publish topic env m cause n log) = log" and "fst (DeadLetter_Publish topic env m cause n log) \<noteq> None"
proof -
  have r: "\<exists>e. write_message (dp_write env out) out log = (Some e, log)" if "km_Topic out = topic" for out
    using refused [OF assms that, of log] by (cases "write_message (dp_write env out) out log") auto
  have "\<exists>e. DeadLetter_Publish topic env m cause n log = (Some e, log)"
  proof (cases "dp_now env")
    case (Some now)
    define rec where "rec = dead_letter_of m cause n (JStr now)"
    obtain e where "write_message (dp_write env (dead_letter_message topic m rec (dp_text env (dead_letter_json rec))))
        (dead_letter_message topic m rec (dp_text env (dead_letter_json rec))) log = (Some e, log)"
      using r [of "dead_letter_message topic m rec (dp_text env (dead_letter_json rec))"]
      by (auto simp: dead_letter_message_def)
    then show ?thesis by (simp add: DeadLetter_Publish_def Some Let_def rec_def [symmetric])
  qed (simp add: DeadLetter_Publish_def)
  then show "snd (DeadLetter_Publish topic env m cause n log) = log" and "fst (DeadLetter_Publish topic env m cause n log) \<noteq> None"
    by auto
qed

section \<open>The publisher process\<close>

text \<open>
  \<open>cmd/outbox-publisher/main.go\<close>. The environment adds to the set-up the files and certificates of the
  Kafka clients and the client that a writer's settings give, at each tick and event.
\<close>

record process_env = setup_env +
  px_keys :: key_store
  px_writer :: "writer_settings \<Rightarrow> nat \<Rightarrow> nat \<Rightarrow> kafka_message \<Rightarrow> write_outcome"

definition outbox_publisher_main ::
  "'x env_scheme \<Rightarrow> process_env \<Rightarrow> ('c, 's) outbox_repository \<Rightarrow> ('c \<times> (nat \<Rightarrow> 'c publish_env)) list
     \<Rightarrow> 's publisher_state \<Rightarrow> err option \<times> 's publisher_state"
where
  "outbox_publisher_main E R S ticks st =
     (case payment_Load E of
        Inl e \<Rightarrow> (Some e, st)
      | Inr cfg \<Rightarrow>
     (case InitTracing E R ''outbox-publisher'' of
        Inl e \<Rightarrow> (Some e, st)
      | Inr exported \<Rightarrow>
     (case Connect R (pc_DatabaseURL cfg) True of
        Inl e \<Rightarrow> (Some e, st)
      | Inr pool \<Rightarrow>
     (case NewKafkaWriter (px_keys R) (pc_KafkaBrokers cfg) (pc_PaymentEventsTopic cfg) (pc_KafkaSecurity cfg) of
        Inl e \<Rightarrow> (Some e, st)
      | Inr W \<Rightarrow>
          (None, Run S (pc_PaymentEventsTopic cfg) 25
             (map (\<lambda>(i, cx, env). (cx, \<lambda>k. env k\<lparr>pe_write := px_writer R W i k\<rparr>)) (enumerate 0 ticks)) st)))))"

lemma loaded_topic: "payment_Load E = Inr cfg \<Longrightarrow> pc_PaymentEventsTopic cfg \<noteq> []"
  using payment_Load_result [of E] by (auto simp: payment_problems_Nil blank_def)

text \<open>Every client of the process keeps to the documentation.\<close>

definition documented_writer :: "process_env \<Rightarrow> bool" where
  "documented_writer R \<longleftrightarrow> (\<forall>W i k. exclusive_topics W (px_writer R W i k))"

lemma main_cases:
  assumes "outbox_publisher_main E R S ticks st = (res, st')"
  obtains (stopped) "res \<noteq> None" "st' = st"
  | (ran) cfg W where "payment_Load E = Inr cfg" "kw_Topic W = pc_PaymentEventsTopic cfg"
      "st' = Run S (pc_PaymentEventsTopic cfg) 25
         (map (\<lambda>(i, cx, env). (cx, \<lambda>k. env k\<lparr>pe_write := px_writer R W i k\<rparr>)) (enumerate 0 ticks)) st"
proof -
  note m = assms [unfolded outbox_publisher_main_def]
  show thesis
  proof (cases "payment_Load E")
    case (Inl e)
    have "res \<noteq> None \<and> st' = st" using m Inl by auto
    with stopped show thesis by blast
  next
    case (Inr cfg)
    let ?W = "NewKafkaWriter (px_keys R) (pc_KafkaBrokers cfg) (pc_PaymentEventsTopic cfg) (pc_KafkaSecurity cfg)"
    show thesis
    proof (cases "(\<exists>x. InitTracing E R ''outbox-publisher'' = Inr x) \<and> (\<exists>x. Connect R (pc_DatabaseURL cfg) True = Inr x) \<and> (\<exists>W. ?W = Inr W)")
      case True
      then obtain W where W: "?W = Inr W" by blast
      show thesis by (rule ran [OF Inr writer_topic(1) [OF W]]) (use True W m Inr in auto)
    next
      case False
      have "res \<noteq> None \<and> st' = st"
        proof -
        obtain t c w where p: "InitTracing E R ''outbox-publisher'' = t" "Connect R (pc_DatabaseURL cfg) True = c" "?W = w" by blast
        show ?thesis using m False unfolding Inr p by (cases t; cases c; cases w) (auto simp: p)
      qed
      with stopped show thesis by blast
    qed
  qed
qed

lemma main_refused:
  assumes "outbox_publisher_main E R S ticks st = (res, st')" and doc: "documented_writer R"
  shows "pub_log st' = pub_log st"
  using assms(1)
proof (cases rule: main_cases)
  case (ran cfg W)
  show ?thesis
    unfolding ran(3) by (rule run_refused [OF _ ran(2) loaded_topic [OF ran(1)]])
      (use doc in \<open>auto simp: documented_writer_def exclusive_topics_def\<close>)
qed simp

end
