(* ===== verification/Go_Net.thy ===== *)
theory Go_Net
  imports Http
begin

text \<open>
  What the gateway uses of Go's \<open>net\<close>, \<open>net/textproto\<close> and \<open>net/http/httputil\<close>: splitting
  an address into host and port, canonical header names, and the joining of URL paths.
\<close>

section \<open>Addresses\<close>

definition index_byte :: "char \<Rightarrow> string \<Rightarrow> nat option" where
  "index_byte c s = (if c \<in> set s then Some (length (takeWhile (\<lambda>x. x \<noteq> c) s)) else None)"

definition last_index_byte :: "char \<Rightarrow> string \<Rightarrow> nat option" where
  "last_index_byte c s = map_option (\<lambda>i. length s - Suc i) (index_byte c (rev s))"

text \<open>\<open>net.SplitHostPort\<close>; a failure is \<open>None\<close>.\<close>

definition SplitHostPort :: "string \<Rightarrow> (string \<times> string) option" where
  "SplitHostPort hostport =
     (case last_index_byte CHR '':'' hostport of
        None \<Rightarrow> None
      | Some i \<Rightarrow>
          if take 1 hostport = ''[''
          then (case index_byte CHR '']'' hostport of
                  None \<Rightarrow> None
                | Some close \<Rightarrow>
                    if close + 1 \<noteq> i \<or> CHR ''['' \<in> set (drop 1 hostport) \<or> CHR '']'' \<in> set (drop (close + 1) hostport)
                    then None
                    else Some (take (close - 1) (drop 1 hostport), drop (i + 1) hostport))
          else (if CHR '':'' \<in> set (take i hostport) \<or> CHR ''['' \<in> set hostport \<or> CHR '']'' \<in> set hostport
                then None
                else Some (take i hostport, drop (i + 1) hostport)))"

lemma index_byte_append: "c \<notin> set s \<Longrightarrow> index_byte c (s @ c # t) = Some (length s)"
  by (simp add: index_byte_def takeWhile_append)

lemma last_index_byte_append: "c \<notin> set t \<Longrightarrow> last_index_byte c (s @ c # t) = Some (length s)"
  using index_byte_append [of c "rev t" "rev s"] by (simp add: last_index_byte_def)

lemma SplitHostPort_plain:
  assumes "set h \<inter> {CHR '':'', CHR ''['', CHR '']''} = {}" and "set p \<inter> {CHR '':'', CHR ''['', CHR '']''} = {}"
  shows "SplitHostPort (h @ '':'' @ p) = Some (h, p)"
proof -
  have "take 1 (h @ '':'' @ p) \<noteq> ''[''" using assms(1) by (cases h) auto
  moreover have "CHR '':'' \<notin> set p" "CHR '':'' \<notin> set h" "CHR ''['' \<notin> set (h @ '':'' @ p)" "CHR '']'' \<notin> set (h @ '':'' @ p)"
    using assms by auto
  ultimately show ?thesis
    using last_index_byte_append [of "CHR '':''" p h] by (simp add: SplitHostPort_def)
qed

section \<open>Header names\<close>

definition token_char :: "char \<Rightarrow> bool" where
  "token_char c \<longleftrightarrow> is_digit c \<or> (CHR ''a'' \<le> c \<and> c \<le> CHR ''z'') \<or> (CHR ''A'' \<le> c \<and> c \<le> CHR ''Z'')
     \<or> c \<in> set ''!#$%&*+-.^_`|~'' \<or> c = CHR 0x27"

text \<open>\<open>CanonicalMIMEHeaderKey\<close>: capitals at the start and after a hyphen, small letters elsewhere.\<close>

fun canonical_from :: "bool \<Rightarrow> string \<Rightarrow> string" where
  "canonical_from upper [] = []"
| "canonical_from upper (c # cs) =
     (if upper then ascii_upper c else ascii_lower c) # canonical_from (c = CHR ''-'') cs"

definition canonical_key :: "string \<Rightarrow> string" where
  "canonical_key k = (if list_all token_char k then canonical_from True k else k)"

text \<open>\<open>textproto.TrimString\<close>: blanks, tabs and line ends.\<close>

definition ascii_space :: "char \<Rightarrow> bool" where
  "ascii_space c \<longleftrightarrow> c = CHR '' '' \<or> c = CHR 0x09 \<or> c = CHR 0x0A \<or> c = CHR 0x0D"

definition trim_ascii :: "string \<Rightarrow> string" where
  "trim_ascii s = rev (dropWhile ascii_space (rev (dropWhile ascii_space s)))"

section \<open>Paths\<close>

text \<open>\<open>singleJoiningSlash\<close> of \<open>httputil\<close>.\<close>

definition single_joining_slash :: "string \<Rightarrow> string \<Rightarrow> string" where
  "single_joining_slash a b =
     (if has_suffix a ''/'' \<and> has_prefix b ''/'' then a @ drop 1 b
      else if \<not> has_suffix a ''/'' \<and> \<not> has_prefix b ''/'' then a @ ''/'' @ b
      else a @ b)"

lemma single_joining_slash_root: "has_prefix b ''/'' \<Longrightarrow> single_joining_slash [] b = b"
  by (simp add: single_joining_slash_def has_suffix_def)

end
