(* ===== verification/Rate_Limiter.thy ===== *)
theory Rate_Limiter
  imports Go_Net Security
begin

text \<open>
  The gateway's rate limiter (\<open>internal/ratelimit/limiter.go\<close>): a counter per client in
  fixed windows. The mutex makes each call of \<open>allow\<close> one step; the clock is read inside it,
  so the steps see times that do not go back. Times are nanoseconds; \<open>None\<close> is the zero time.
\<close>

section \<open>The limiter\<close>

record bucket =
  bk_count :: i64
  bk_windowEnd :: "int option"
  bk_lastSeenAt :: "int option"

record limiter =
  lm_limit :: i64
  lm_window :: i64
  lm_requests :: "string \<rightharpoonup> bucket"

definition New :: "i64 \<Rightarrow> i64 \<Rightarrow> limiter" where
  "New limit window = \<lparr>lm_limit = limit, lm_window = window, lm_requests = Map.empty\<rparr>"

definition zero_bucket :: bucket where
  "zero_bucket = \<lparr>bk_count = 0, bk_windowEnd = None, bk_lastSeenAt = None\<rparr>"

definition window_over :: "int \<Rightarrow> bucket \<Rightarrow> bool" where
  "window_over now current \<longleftrightarrow> (case bk_windowEnd current of None \<Rightarrow> True | Some windowEnd \<Rightarrow> \<not> now < windowEnd)"

definition allow :: "int \<Rightarrow> string \<Rightarrow> limiter \<Rightarrow> bool \<times> limiter" where
  "allow now key l =
     (let current = (case lm_requests l key of None \<Rightarrow> zero_bucket | Some b \<Rightarrow> b);
          current = (if window_over now current
                     then zero_bucket\<lparr>bk_count := 0, bk_windowEnd := Some (now + sint (lm_window l))\<rparr>
                     else current);
          current = current\<lparr>bk_count := bk_count current + 1, bk_lastSeenAt := Some now\<rparr>
      in (bk_count current \<le>s lm_limit l, l\<lparr>lm_requests := (lm_requests l)(key \<mapsto> current)\<rparr>))"

definition clientKey :: "http_request \<Rightarrow> string" where
  "clientKey rq =
     (let forwarded = header_get (rq_Headers rq) ''X-Forwarded-For''
      in if forwarded \<noteq> [] then forwarded
         else (case SplitHostPort (rq_RemoteAddr rq) of
                 None \<Rightarrow> rq_RemoteAddr rq
               | Some (host, _) \<Rightarrow> if host = [] then rq_RemoteAddr rq else host))"

text \<open>The limiter is a part of the state the handlers run on.\<close>

definition Limiter_Middleware :: "int \<Rightarrow> (limiter \<times> 's) http_handler \<Rightarrow> (limiter \<times> 's) http_handler" where
  "Limiter_Middleware now next rq hs s =
     (case allow now (clientKey rq) (fst s) of
        (ok, l') \<Rightarrow>
          if \<not> ok then (writeError rq hs 429 ''rate limit exceeded'', (l', snd s))
          else next rq hs (l', snd s))"

text \<open>A sequence of calls: the time and the key of each; the answers, and the limiter after them.\<close>

fun allow_all :: "(int \<times> string) list \<Rightarrow> limiter \<Rightarrow> bool list \<times> limiter" where
  "allow_all [] l = ([], l)"
| "allow_all ((now, key) # calls) l =
     (case allow now key l of
        (ok, l') \<Rightarrow> (case allow_all calls l' of (oks, l'') \<Rightarrow> (ok # oks, l'')))"

section \<open>Steps\<close>

lemma allow_keeps [simp]:
  "lm_limit (snd (allow now key l)) = lm_limit l" "lm_window (snd (allow now key l)) = lm_window l"
  "k \<noteq> key \<Longrightarrow> lm_requests (snd (allow now key l)) k = lm_requests l k"
  by (simp_all add: allow_def Let_def)

text \<open>The current window of a key: its end and the calls it has counted.\<close>

definition bucket_at :: "limiter \<Rightarrow> string \<Rightarrow> (int \<times> int) option" where
  "bucket_at l key =
     (case lm_requests l key of
        None \<Rightarrow> None
      | Some b \<Rightarrow> (case bk_windowEnd b of None \<Rightarrow> None | Some e \<Rightarrow> Some (e, sint (bk_count b))))"

lemma New_simps [simp]: "lm_limit (New limit window) = limit" "lm_window (New limit window) = window"
  by (simp_all add: New_def)

lemma bucket_at_New [simp]: "bucket_at (New limit window) key = None"
  by (simp add: bucket_at_def New_def)

lemma bucket_at_other [simp]: "k \<noteq> key \<Longrightarrow> bucket_at (snd (allow now key l)) k = bucket_at l k"
  by (simp add: bucket_at_def)

lemma sint_succ: "sint c + 1 < 2 ^ 63 \<Longrightarrow> sint (c + 1 :: i64) = sint c + 1"
  using sint_i64_range [of c] sint_i64_of [of "sint c + 1"] by (simp add: i64_of_def in_i64_def)

lemma allow_step:
  assumes "case bucket_at l key of None \<Rightarrow> True | Some (e, c) \<Rightarrow> c + 1 < 2 ^ 63"
  shows "\<exists>e c. bucket_at (snd (allow now key l)) key = Some (e, c) \<and> (fst (allow now key l) \<longleftrightarrow> c \<le> sint (lm_limit l))
     \<and> (e, c) = (case bucket_at l key of
            Some (e', c') \<Rightarrow> if now < e' then (e', c' + 1) else (now + sint (lm_window l), 1)
          | None \<Rightarrow> (now + sint (lm_window l), 1))"
  using assms
  by (auto simp: allow_def Let_def bucket_at_def window_over_def zero_bucket_def sint_succ word_sle_eq
      split: option.splits)

section \<open>How much a window admits\<close>

text \<open>Accepted calls of a key in the half-open interval of length \<open>w\<close> that starts at \<open>a\<close>.\<close>

definition accepted_in :: "string \<Rightarrow> int \<Rightarrow> int \<Rightarrow> (int \<times> string) list \<Rightarrow> bool list \<Rightarrow> int" where
  "accepted_in k a w calls oks =
     int (length (filter (\<lambda>((t, k'), ok). ok \<and> k' = k \<and> a \<le> t \<and> t < a + w) (zip calls oks)))"

definition limiter_ok :: "string \<Rightarrow> (int \<times> string) list \<Rightarrow> limiter \<Rightarrow> bool" where
  "limiter_ok k calls l \<longleftrightarrow> 0 < sint (lm_window l) \<and> sorted (map fst calls)
     \<and> (case bucket_at l k of
          None \<Rightarrow> int (length calls) < 2 ^ 63
        | Some (e, c) \<Rightarrow> 0 \<le> c \<and> c + int (length calls) < 2 ^ 63 \<and> (\<forall>(t, _) \<in> set calls. e - sint (lm_window l) \<le> t))"

lemma limiter_ok_allow:
  assumes "limiter_ok k ((t, k') # calls) l"
  shows "case bucket_at l k of None \<Rightarrow> True | Some (e, c) \<Rightarrow> c + 1 < 2 ^ 63"
  using assms by (auto simp: limiter_ok_def split: option.splits)

lemma limiter_ok_step:
  assumes ok: "limiter_ok k ((t, k') # calls) l"
  shows "limiter_ok k calls (snd (allow t k' l))"
proof (cases "k' = k")
  case True
  from allow_step [OF limiter_ok_allow [OF ok], of t] obtain e c where
    b: "bucket_at (snd (allow t k l)) k = Some (e, c)" and
    ec: "(e, c) = (case bucket_at l k of
            Some (e', c') \<Rightarrow> if t < e' then (e', c' + 1) else (t + sint (lm_window l), 1)
          | None \<Rightarrow> (t + sint (lm_window l), 1))" by blast
  show ?thesis
    using ok b ec True by (auto simp: limiter_ok_def split: option.splits if_splits)
next
  case False
  with ok show ?thesis by (auto simp: limiter_ok_def split: option.splits)
qed

text \<open>An upper bound for what the calls still to come can add.\<close>

definition budget :: "string \<Rightarrow> int \<Rightarrow> limiter \<Rightarrow> int" where
  "budget k a l =
     (let n = max 0 (sint (lm_limit l)); w = sint (lm_window l)
      in case bucket_at l k of
           None \<Rightarrow> 2 * n
         | Some (e, c) \<Rightarrow>
             if e \<le> a then 2 * n
             else if e - w \<le> a then (n - min c n) + n
             else if e - w < a + w then n - min c n
             else 0)"

lemma budget_nonneg: "limiter_ok k calls l \<Longrightarrow> 0 \<le> budget k a l"
  by (auto simp: budget_def limiter_ok_def Let_def split: option.splits)

lemma budget_step:
  assumes ok: "limiter_ok k ((t, k') # calls) l"
  shows "budget k a (snd (allow t k' l))
      + (if fst (allow t k' l) \<and> k' = k \<and> a \<le> t \<and> t < a + sint (lm_window l) then 1 else 0) \<le> budget k a l"
proof (cases "k' = k")
  case True
  from allow_step [OF limiter_ok_allow [OF ok], of t] obtain e c where
    b: "bucket_at (snd (allow t k l)) k = Some (e, c)" and
    acc: "fst (allow t k l) \<longleftrightarrow> c \<le> sint (lm_limit l)" and
    ec: "(e, c) = (case bucket_at l k of
            Some (e', c') \<Rightarrow> if t < e' then (e', c' + 1) else (t + sint (lm_window l), 1)
          | None \<Rightarrow> (t + sint (lm_window l), 1))" by blast
  have w: "0 < sint (lm_window l)" using ok by (simp add: limiter_ok_def)
  show ?thesis
  proof (cases "bucket_at l k")
    case None
    with b acc ec True w show ?thesis by (auto simp: budget_def Let_def)
  next
    case (Some p)
    obtain e' c' where p: "p = (e', c')" by (cases p)
    have c': "0 \<le> c'" "e' - sint (lm_window l) \<le> t" using ok Some p by (auto simp: limiter_ok_def)
    show ?thesis
      using b acc ec True w Some p c' by (auto simp: budget_def Let_def min_def max_def split: if_splits)
  qed
next
  case False
  then show ?thesis by (simp add: budget_def)
qed

lemma allow_all_Cons:
  "fst (allow_all ((t, k) # calls) l) = fst (allow t k l) # fst (allow_all calls (snd (allow t k l)))"
  "snd (allow_all ((t, k) # calls) l) = snd (allow_all calls (snd (allow t k l)))"
  by (simp_all add: case_prod_unfold)

lemma accepted_in_Cons:
  "accepted_in k a w ((t, k') # calls) (ok # oks) =
     (if ok \<and> k' = k \<and> a \<le> t \<and> t < a + w then 1 else 0) + accepted_in k a w calls oks"
  by (simp add: accepted_in_def)

lemma accepted_budget:
  "limiter_ok k calls l \<Longrightarrow> accepted_in k a (sint (lm_window l)) calls (fst (allow_all calls l)) \<le> budget k a l"
proof (induction calls arbitrary: l)
  case Nil
  then show ?case using budget_nonneg [of k "[]" l a] by (simp add: accepted_in_def)
next
  case (Cons p calls)
  obtain t k' where p: "p = (t, k')" by (cases p)
  note ok = Cons.prems [unfolded p]
  from Cons.IH [OF limiter_ok_step [OF ok]] budget_step [OF ok, of a]
  show ?case by (simp only: p allow_all_Cons accepted_in_Cons allow_keeps)
qed

text \<open>A call is accepted when its key has made fewer than \<open>limit\<close> calls in the last window.\<close>

definition recent :: "string \<Rightarrow> int \<Rightarrow> int \<Rightarrow> (int \<times> string) list \<Rightarrow> int" where
  "recent k w t calls = int (length (filter (\<lambda>(t', k'). k' = k \<and> t - w < t') calls))"

lemma recent_Cons: "recent k w t ((t', k') # calls) = (if k' = k \<and> t - w < t' then 1 else 0) + recent k w t calls"
  by (simp add: recent_def)

definition counted_at :: "string \<Rightarrow> int \<Rightarrow> limiter \<Rightarrow> int" where
  "counted_at k t l = (case bucket_at l k of None \<Rightarrow> 0 | Some (e, c) \<Rightarrow> if t < e then c else 0)"

lemma counted_step:
  assumes ok: "limiter_ok k ((t', k') # calls) l" and "t' \<le> t"
  shows "counted_at k t (snd (allow t' k' l))
     \<le> counted_at k t l + (if k' = k \<and> t - sint (lm_window l) < t' then 1 else 0)"
proof (cases "k' = k")
  case True
  from allow_step [OF limiter_ok_allow [OF ok], of t'] obtain e c where
    b: "bucket_at (snd (allow t' k l)) k = Some (e, c)" and
    ec: "(e, c) = (case bucket_at l k of
            Some (e', c') \<Rightarrow> if t' < e' then (e', c' + 1) else (t' + sint (lm_window l), 1)
          | None \<Rightarrow> (t' + sint (lm_window l), 1))" by blast
  show ?thesis
    using ok b ec True assms(2) by (auto simp: counted_at_def limiter_ok_def split: option.splits if_splits)
next
  case False
  then show ?thesis by (simp add: counted_at_def)
qed

lemma recent_accepted:
  "limiter_ok k (calls @ [(t, k)]) l \<Longrightarrow> counted_at k t l + recent k (sint (lm_window l)) t calls < sint (lm_limit l)
   \<Longrightarrow> last (fst (allow_all (calls @ [(t, k)]) l))"
proof (induction calls arbitrary: l)
  case Nil
  then have "case bucket_at l k of None \<Rightarrow> True | Some (e, c) \<Rightarrow> c + 1 < 2 ^ 63" using limiter_ok_allow by fastforce
  from allow_step [OF this, of t] Nil show ?case
    by (auto simp: case_prod_unfold counted_at_def recent_def split: option.splits if_splits)
next
  case (Cons p calls)
  obtain t' k' where p: "p = (t', k')" by (cases p)
  note ok = Cons.prems(1) [unfolded p append_Cons]
  have "t' \<le> t" using ok by (simp add: limiter_ok_def)
  from counted_step [OF ok this] Cons.prems(2)
  have "counted_at k t (snd (allow t' k' l)) + recent k (sint (lm_window l)) t calls < sint (lm_limit l)"
    by (simp add: p recent_Cons split: if_splits)
  with Cons.IH [OF limiter_ok_step [OF ok]] have "last (fst (allow_all (calls @ [(t, k)]) (snd (allow t' k' l))))"
    by simp
  moreover have "fst (allow_all (calls @ [(t, k)]) (snd (allow t' k' l))) \<noteq> []"
    by (cases calls) (auto simp: case_prod_unfold)
  ultimately show ?case by (simp add: p allow_all_Cons del: allow_all.simps)
qed

end
