(* ===== verification/Gateway.thy ===== *)
theory Gateway
  imports Rate_Limiter
begin

text \<open>
  The gateway: the reverse proxy (\<open>internal/proxy/proxy.go\<close>) with what it uses of
  \<open>httputil.ReverseProxy\<close>, and the router of \<open>cmd/api/main.go\<close>. A service behind the gateway
  is a function of the request on the wire: an answer, or none when the round trip fails. The
  URL's query, encoded paths, protocol upgrades and trailers are not modelled.
\<close>

section \<open>The proxy\<close>

text \<open>The parsed target: its host and its path (\<open>url.Parse\<close> of the target without trailing slashes).\<close>

record target =
  tg_Host :: string
  tg_Path :: string

definition internalTokenHeader :: string where
  "internalTokenHeader = ''X-Internal-Service-Token''"

definition rewritePath :: "string \<Rightarrow> string \<Rightarrow> string" where
  "rewritePath path stripPrefix =
     (let stripPrefix = trim_right_slash stripPrefix
      in if stripPrefix = [] then path
         else (let rewritten = trim_prefix path stripPrefix
               in if rewritten = [] then ''/''
                  else if \<not> has_prefix rewritten ''/'' then ''/'' @ rewritten
                  else rewritten))"

text \<open>The director of \<open>NewSingleHostReverseProxy\<close> joins the paths.\<close>

definition original_director :: "target \<Rightarrow> http_request \<Rightarrow> http_request" where
  "original_director target rq = rq\<lparr>rq_Path := single_joining_slash (tg_Path target) (rq_Path rq)\<rparr>"

definition director :: "target \<Rightarrow> string \<Rightarrow> string \<Rightarrow> http_request \<Rightarrow> http_request" where
  "director target stripPrefix internalToken rq =
     (let originalHost = rq_Host rq;
          r = original_director target rq;
          r = r\<lparr>rq_Path := rewritePath (rq_Path r) stripPrefix\<rparr>;
          r = r\<lparr>rq_Host := tg_Host target\<rparr>;
          h = header_set (rq_Headers r) ''X-Forwarded-Host'' originalHost;
          h = header_set h ''X-Gateway'' ''finflow-gateway'';
          h = header_del h ''X-Api-Key'';
          h = header_del h ''Authorization'';
          h = header_set h internalTokenHeader internalToken
      in r\<lparr>rq_Headers := h\<rparr>)"

text \<open>
  \<open>ReverseProxy\<close> removes the hop-by-hop headers after the director has run: the headers that
  \<open>Connection\<close> lists, and the fixed list. Then it appends the client's address and keeps an
  absent \<open>User-Agent\<close> from being filled in.
\<close>

definition hop_headers :: "string list" where
  "hop_headers = [''Connection'', ''Proxy-Connection'', ''Keep-Alive'', ''Proxy-Authenticate'',
     ''Proxy-Authorization'', ''Te'', ''Trailer'', ''Transfer-Encoding'', ''Upgrade'']"

definition header_values :: "headers \<Rightarrow> string \<Rightarrow> string list" where
  "header_values hs k = map snd (filter (\<lambda>(k', _). k' = k) hs)"

definition connection_listed :: "headers \<Rightarrow> string list" where
  "connection_listed hs =
     map canonical_key (filter (\<lambda>s. s \<noteq> [])
       (map trim_ascii (concat (map (split_on CHR '','') (header_values hs ''Connection'')))))"

definition removeHopByHopHeaders :: "headers \<Rightarrow> headers" where
  "removeHopByHopHeaders hs = filter (\<lambda>(k, _). k \<notin> set (connection_listed hs @ hop_headers)) hs"

definition add_forwarded_for :: "http_request \<Rightarrow> headers \<Rightarrow> headers" where
  "add_forwarded_for rq hs =
     (case SplitHostPort (rq_RemoteAddr rq) of
        None \<Rightarrow> hs
      | Some (clientIP, _) \<Rightarrow>
          (let prior = header_values hs ''X-Forwarded-For''
           in header_set hs ''X-Forwarded-For''
                (if prior = [] then clientIP else str_join '', '' prior @ '', '' @ clientIP)))"

definition keep_user_agent :: "headers \<Rightarrow> headers" where
  "keep_user_agent hs = (if ''User-Agent'' \<in> fst ` set hs then hs else header_set hs ''User-Agent'' [])"

definition forwarded :: "target \<Rightarrow> string \<Rightarrow> string \<Rightarrow> http_request \<Rightarrow> http_request" where
  "forwarded target stripPrefix internalToken rq =
     (let r = director target stripPrefix internalToken rq
      in r\<lparr>rq_Headers := keep_user_agent (add_forwarded_for rq (removeHopByHopHeaders (rq_Headers r)))\<rparr>)"

text \<open>
  The handler: what the service answers with its hop-by-hop headers removed, behind the
  headers already set; 502 when the round trip fails.
\<close>

type_synonym 's upstream = "http_request \<Rightarrow> 's \<Rightarrow> http_response option \<times> 's"

definition proxy_error :: "headers \<Rightarrow> http_response" where
  "proxy_error hs = \<lparr>rs_Status = 502, rs_Headers = header_set hs ''Content-Type'' ''application/json'',
      rs_Body = Some (JObj [(''error'', JStr ''upstream unavailable'')])\<rparr>"

definition proxy_New :: "target \<Rightarrow> string \<Rightarrow> string \<Rightarrow> 's upstream \<Rightarrow> 's http_handler" where
  "proxy_New target stripPrefix internalToken up rq hs s =
     (case up (forwarded target stripPrefix internalToken rq) s of
        (None, s') \<Rightarrow> (proxy_error hs, s')
      | (Some r, s') \<Rightarrow> (r\<lparr>rs_Headers := hs @ removeHopByHopHeaders (rs_Headers r)\<rparr>, s'))"

section \<open>The router\<close>

record gateway_settings =
  gw_AppEnv :: string
  gw_APIKey :: string
  gw_InternalToken :: string
  gw_MaxBodyBytes :: i64
  gw_Payment :: target
  gw_Ledger :: target
  gw_metrics :: http_response

definition on_service :: "'s http_handler \<Rightarrow> (limiter \<times> 's) http_handler" where
  "on_service h rq hs s = (case h rq hs (snd s) of (r, t) \<Rightarrow> (r, (fst s, t)))"

definition gateway_routes ::
  "gateway_settings \<Rightarrow> 's upstream \<Rightarrow> 's upstream \<Rightarrow> (limiter \<times> 's) route list"
where
  "gateway_routes cfg pay led =
     (let paymentProxy = on_service (proxy_New (gw_Payment cfg) ''/api/v1'' (gw_InternalToken cfg) pay);
          ledgerProxy = on_service (proxy_New (gw_Ledger cfg) [] (gw_InternalToken cfg) led)
      in [\<lparr>rt_Method = ''*'', rt_Pattern = ''/api/v1/payments'', rt_Handler = paymentProxy\<rparr>,
          \<lparr>rt_Method = ''*'', rt_Pattern = ''/api/v1/payments/*'', rt_Handler = paymentProxy\<rparr>,
          \<lparr>rt_Method = ''*'', rt_Pattern = ''/api/v1/ledger'', rt_Handler = ledgerProxy\<rparr>,
          \<lparr>rt_Method = ''*'', rt_Pattern = ''/api/v1/ledger/*'', rt_Handler = ledgerProxy\<rparr>])"

definition gateway_health_routes :: "gateway_settings \<Rightarrow> 's route list" where
  "gateway_health_routes cfg =
     [\<lparr>rt_Method = ''GET'', rt_Pattern = ''/health'',
        rt_Handler = (\<lambda>rq hs s. (WriteJSON hs 200
          (Some (JObj [(''env'', JStr (gw_AppEnv cfg)), (''status'', JStr ''ok'')])), s))\<rparr>,
      \<lparr>rt_Method = ''GET'', rt_Pattern = ''/metrics'', rt_Handler = (\<lambda>rq hs s. (gw_metrics cfg, s))\<rparr>]"

definition gateway ::
  "matcher \<Rightarrow> 'x lib_scheme \<Rightarrow> gateway_settings \<Rightarrow> 's upstream \<Rightarrow> 's upstream \<Rightarrow> int \<Rightarrow> (limiter \<times> 's) http_handler"
where
  "gateway mt L cfg pay led now =
     gateway_Headers (\<lambda>rq hs s.
       if mounted ''/api/v1'' rq
       then gateway_APIKey L (gw_APIKey cfg) (Limiter_Middleware now
              (gateway_MaxBodyBytes (gw_MaxBodyBytes cfg) (route mt (gateway_routes cfg pay led)))) rq hs s
       else route mt (gateway_health_routes cfg) rq hs s)"

section \<open>A service behind the gateway\<close>

text \<open>
  What the network does to one round trip, and the request as the service's own router sees
  it: with a request identifier of its own and without the gateway's limit.
\<close>

datatype round_trip = Arrives | RequestLost | AnswerLost

definition on_wire :: "string \<Rightarrow> http_request \<Rightarrow> http_request" where
  "on_wire rid rq = rq\<lparr>rq_Limit := None, rq_Params := [], rq_RequestID := rid\<rparr>"

definition served_by :: "round_trip \<Rightarrow> string \<Rightarrow> 's http_handler \<Rightarrow> 's upstream" where
  "served_by net rid h rq s =
     (if net = RequestLost then (None, s)
      else (case h (on_wire rid rq) [] s of (r, s') \<Rightarrow> (if net = AnswerLost then None else Some r, s')))"

section \<open>What the service receives\<close>

lemma header_values_del [simp]: "header_values (header_del hs k) k' = (if k' = k then [] else header_values hs k')"
  by (induction hs) (auto simp: header_values_def header_del_def)

lemma header_values_set [simp]: "header_values (header_set hs k v) k' = (if k' = k then [v] else header_values hs k')"
  using header_values_del [of hs k k'] by (auto simp: header_set_def header_values_def split: if_splits)

lemma header_get_values: "header_get hs k = (case header_values hs k of [] \<Rightarrow> [] | v # _ \<Rightarrow> v)"
  by (induction hs) (auto simp: header_get_def header_values_def)

lemma header_values_filter:
  "header_values (filter (\<lambda>(k, _). k \<notin> S) hs) k' = (if k' \<in> S then [] else header_values hs k')"
  by (induction hs) (auto simp: header_values_def)

lemma header_values_hop [simp]:
  "header_values (removeHopByHopHeaders hs) k =
     (if k \<in> set (connection_listed hs @ hop_headers) then [] else header_values hs k)"
  unfolding removeHopByHopHeaders_def by (rule header_values_filter)

lemma header_values_forwarded_for [simp]:
  "k \<noteq> ''X-Forwarded-For'' \<Longrightarrow> header_values (add_forwarded_for rq hs) k = header_values hs k"
  by (auto simp: add_forwarded_for_def Let_def split: option.split)

lemma header_values_user_agent [simp]:
  "k \<noteq> ''User-Agent'' \<Longrightarrow> header_values (keep_user_agent hs) k = header_values hs k"
  by (simp add: keep_user_agent_def)

lemma director_simps:
  "header_values (rq_Headers (director target sp tok rq)) k =
     (if k = internalTokenHeader then [tok]
      else if k \<in> {''X-Api-Key'', ''Authorization''} then []
      else if k = ''X-Gateway'' then [''finflow-gateway'']
      else if k = ''X-Forwarded-Host'' then [rq_Host rq]
      else header_values (rq_Headers rq) k)"
  "rq_Path (director target sp tok rq) = rewritePath (single_joining_slash (tg_Path target) (rq_Path rq)) sp"
  "rq_Method (director target sp tok rq) = rq_Method rq"
  by (auto simp: director_def original_director_def Let_def)

lemma forwarded_simps [simp]:
  "rq_Path (forwarded target sp tok rq) = rewritePath (single_joining_slash (tg_Path target) (rq_Path rq)) sp"
  "rq_Method (forwarded target sp tok rq) = rq_Method rq"
  by (simp_all add: forwarded_def Let_def director_simps)

lemma connection_listed_director: "connection_listed (rq_Headers (director target sp tok rq)) = connection_listed (rq_Headers rq)"
  by (simp add: connection_listed_def director_simps internalTokenHeader_def)

lemma forwarded_values:
  assumes "k \<notin> {''X-Forwarded-For'', ''User-Agent''} \<union> set hop_headers"
  shows "header_values (rq_Headers (forwarded target sp tok rq)) k =
     (if k \<in> set (connection_listed (rq_Headers rq)) then []
      else header_values (rq_Headers (director target sp tok rq)) k)"
  using assms
  by (simp add: forwarded_def Let_def connection_listed_director)

lemma rewritePath_api:
  "rewritePath (''/api/v1'' @ p) ''/api/v1'' = (if p = [] then ''/'' else if has_prefix p ''/'' then p else ''/'' @ p)"
proof -
  have "trim_right_slash ''/api/v1'' = ''/api/v1''" by code_simp
  then show ?thesis by (simp add: rewritePath_def trim_prefix_def)
qed

lemma rewritePath_none: "rewritePath path [] = path"
  by (simp add: rewritePath_def trim_right_slash_def)

end
