(* ===== verification/Ledger_Api.thy ===== *)
theory Ledger_Api
  imports Security Ledger_Service
begin

text \<open>
  The HTTP API of the ledger service: \<open>handler/ledger_handler.go\<close> and the router of
  \<open>cmd/api/main.go\<close> over the repository interface.
\<close>

definition balance_json :: "'x lib_scheme \<Rightarrow> balance \<Rightarrow> json option" where
  "balance_json L b =
     (case time_json L (b_AsOf b) of
        None \<Rightarrow> None
      | Some t \<Rightarrow> Some (JObj [(''account_id'', JStr (b_AccountID b)), (''account_name'', JStr (b_AccountName b)),
          (''currency'', JStr (b_Currency b)), (''amount_cents'', JInt (sint (b_AmountCents b))), (''as_of'', JStr t)]))"

definition entry_json :: "'x lib_scheme \<Rightarrow> entry \<Rightarrow> json option" where
  "entry_json L e =
     (case time_json L (en_CreatedAt e) of
        None \<Rightarrow> None
      | Some t \<Rightarrow> Some (JObj [(''id'', JStr (en_ID e)), (''transaction_id'', JStr (en_TransactionID e)),
          (''account_id'', JStr (en_AccountID e)), (''direction'', JStr (en_Direction e)),
          (''amount_cents'', JInt (sint (en_AmountCents e))), (''currency'', JStr (en_Currency e)),
          (''reference_type'', JStr (en_ReferenceType e)), (''reference_id'', JStr (en_ReferenceID e)),
          (''created_at'', JStr t)]))"

definition list_json :: "string \<Rightarrow> json option list \<Rightarrow> json option" where
  "list_json k js = map_option (\<lambda>xs. JObj [(k, JArr xs)]) (those js)"

definition listBalances ::
  "('x ctx_scheme, 's) ledger_repository \<Rightarrow> 'x ctx_scheme \<Rightarrow> 's http_handler"
where
  "listBalances R cx rq hs s =
     (case LedgerService_ListBalances R cx s of
        Inl e \<Rightarrow> (writeRequestError rq hs 500 ''could not list ledger balances'', s)
      | Inr bs \<Rightarrow> (WriteJSON hs 200 (list_json ''balances'' (map (balance_json cx) bs)), s))"

definition listPaymentEntries ::
  "('x ctx_scheme, 's) ledger_repository \<Rightarrow> 'x ctx_scheme \<Rightarrow> 's http_handler"
where
  "listPaymentEntries R cx rq hs s =
     (case ListEntriesByPaymentID R cx (URLParam rq ''payment_id'') s of
        Inl e \<Rightarrow>
          (if errors_is e ErrValidation then writeRequestError rq hs 400 ''invalid payment id''
           else writeRequestError rq hs 500 ''could not list ledger entries'', s)
      | Inr es \<Rightarrow> (WriteJSON hs 200 (list_json ''entries'' (map (entry_json cx) es)), s))"

definition ledger_routes ::
  "('x ctx_scheme, 's) ledger_repository \<Rightarrow> 'x ctx_scheme \<Rightarrow> 's route list"
where
  "ledger_routes R cx =
     [\<lparr>rt_Method = ''GET'', rt_Pattern = ''/api/v1/ledger/balances'', rt_Handler = listBalances R cx\<rparr>,
      \<lparr>rt_Method = ''GET'', rt_Pattern = ''/api/v1/ledger/payments/{payment_id}/entries'', rt_Handler = listPaymentEntries R cx\<rparr>]"

record ledger_api_settings =
  lapi_AppEnv :: string
  lapi_InternalToken :: string
  lapi_ping :: "fault option"
  lapi_metrics :: http_response

definition ledger_health_routes :: "ledger_api_settings \<Rightarrow> 's route list" where
  "ledger_health_routes cfg =
     [\<lparr>rt_Method = ''GET'', rt_Pattern = ''/health'',
        rt_Handler = (\<lambda>rq hs s. (WriteJSON hs 200
          (Some (JObj [(''env'', JStr (lapi_AppEnv cfg)), (''status'', JStr ''ok'')])), s))\<rparr>,
      \<lparr>rt_Method = ''GET'', rt_Pattern = ''/ready'',
        rt_Handler = (\<lambda>rq hs s. (case lapi_ping cfg of
            Some f \<Rightarrow> (WriteJSON hs 503
              (Some (JObj [(''error'', JStr ''database unavailable''), (''status'', JStr ''not_ready'')])), s)
          | None \<Rightarrow> (WriteJSON hs 200 (Some (JObj [(''status'', JStr ''ready'')])), s)))\<rparr>,
      \<lparr>rt_Method = ''GET'', rt_Pattern = ''/metrics'', rt_Handler = (\<lambda>rq hs s. (lapi_metrics cfg, s))\<rparr>]"

text \<open>The ledger's routes are read-only and have no body limit.\<close>

definition ledger_api ::
  "matcher \<Rightarrow> ledger_api_settings \<Rightarrow> ('x ctx_scheme, 's) ledger_repository \<Rightarrow> 'x ctx_scheme \<Rightarrow> 's http_handler"
where
  "ledger_api mt cfg R cx =
     ledger_Headers (\<lambda>rq hs s.
       if mounted ''/api/v1'' rq
       then ledger_InternalServiceToken cx (lapi_InternalToken cfg) (route mt (ledger_routes R cx)) rq hs s
       else route mt (ledger_health_routes cfg) rq hs s)"

lemma route_state:
  assumes "\<forall>r \<in> set routes. \<forall>rq hs s. snd (rt_Handler r rq hs s) = s"
  shows "snd (route mt routes rq hs s) = s"
proof (cases "find (\<lambda>r. serves mt r rq) routes")
  case (Some r)
  then have "r \<in> set routes" by (auto simp: find_Some_iff)
  with assms Some show ?thesis by (simp add: route_def)
qed (simp add: route_def)

lemma ledger_api_reads: "snd (ledger_api mt cfg R cx rq hs s) = s"
proof -
  have h: "snd (listBalances R cx rq hs s) = s" "snd (listPaymentEntries R cx rq hs s) = s" for rq hs s
    by (auto simp: listBalances_def listPaymentEntries_def split: sum.split)
  have "snd (route mt (ledger_routes R cx) rq hs s) = s" for rq hs
    by (rule route_state) (auto simp: ledger_routes_def h)
  moreover have "snd (route mt (ledger_health_routes cfg) rq hs s) = s" for rq hs
    by (rule route_state) (auto simp: ledger_health_routes_def split: option.split)
  ultimately show ?thesis by (auto simp: ledger_api_def ledger_Headers_def ledger_InternalServiceToken_def)
qed

end
