(* ===== verification/Processes.thy ===== *)
theory Processes
  imports Kafka_Clients Ledger_Consumer Gateway Payment_Api Ledger_Api Dead_Letter_Replay Migration
begin

text \<open>
  The processes: what each \<open>main\<close> builds from its configuration. The exporter of traces, pgx, the probes and the
  clients of Kafka are the environment of the process; how servers and workers run and end is in \<open>Service_Lifecycle\<close>. The result is the error
  that ends the process.
\<close>

section \<open>The payment service and the ledger\<close>

definition payment_main ::
  "'e env_scheme \<Rightarrow> process_env \<Rightarrow> matcher \<Rightarrow> fault option \<Rightarrow> http_response \<Rightarrow> ('x ctx_scheme, 's) payment_repository
     \<Rightarrow> 'x ctx_scheme \<Rightarrow> 'x ctx_scheme \<Rightarrow> ('s \<Rightarrow> 's) \<Rightarrow> err + 's http_handler"
where
  "payment_main E P mt ping page R cx cx' others =
     (case payment_Load E of
        Inl e \<Rightarrow> Inl e
      | Inr cfg \<Rightarrow>
     (case InitTracing E P ''payment-service'' of
        Inl e \<Rightarrow> Inl e
      | Inr exported \<Rightarrow>
     (case Connect P (pc_DatabaseURL cfg) True of
        Inl e \<Rightarrow> Inl e
      | Inr pool \<Rightarrow>
          Inr (payment_api mt \<lparr>api_AppEnv = pc_AppEnv cfg, api_InternalToken = pc_InternalToken cfg,
                 api_MaxBodyBytes = pc_MaxBodyBytes cfg, api_ping = ping, api_metrics = page\<rparr> R cx cx' others))))"

definition ledger_main ::
  "'e env_scheme \<Rightarrow> process_env \<Rightarrow> matcher \<Rightarrow> fault option \<Rightarrow> http_response \<Rightarrow> ('x ctx_scheme, 's) ledger_repository
     \<Rightarrow> 'x ctx_scheme \<Rightarrow> err + 's http_handler"
where
  "ledger_main E P mt ping page R cx =
     (case ledger_Load E of
        Inl e \<Rightarrow> Inl e
      | Inr cfg \<Rightarrow>
     (case ledger_InitTracing E P ''ledger-service'' of
        Inl e \<Rightarrow> Inl e
      | Inr exported \<Rightarrow>
     (case ledger_Connect P (lc_DatabaseURL cfg) True of
        Inl e \<Rightarrow> Inl e
      | Inr pool \<Rightarrow>
          Inr (ledger_api mt \<lparr>lapi_AppEnv = lc_AppEnv cfg, lapi_InternalToken = lc_InternalToken cfg,
                 lapi_ping = ping, lapi_metrics = page\<rparr> R cx))))"

section \<open>The consumer\<close>

text \<open>The dead letters of a turn go through the writer that the process has built.\<close>

definition with_writer :: "(kafka_message \<Rightarrow> write_outcome) \<Rightarrow> 'c turn \<Rightarrow> 'c turn" where
  "with_writer write t =
     (case t of
        FetchFails e waiting \<Rightarrow> FetchFails e waiting
      | Fetched m env cancel dle commit \<Rightarrow> Fetched m env cancel (dle\<lparr>dp_write := write\<rparr>) commit)"

definition payment_consumer_main ::
  "'e env_scheme \<Rightarrow> process_env \<Rightarrow> 'x lib_scheme \<Rightarrow> ('c, 's) ledger_port \<Rightarrow> 'c turn list \<Rightarrow> 's consumer_state
     \<Rightarrow> err option \<times> 's consumer_state"
where
  "payment_consumer_main E P L ledger turns st =
     (case ledger_Load E of
        Inl e \<Rightarrow> (Some e, st)
      | Inr cfg \<Rightarrow>
     (case ledger_InitTracing E P ''ledger-consumer'' of
        Inl e \<Rightarrow> (Some e, st)
      | Inr exported \<Rightarrow>
     (case ledger_Connect P (lc_DatabaseURL cfg) True of
        Inl e \<Rightarrow> (Some e, st)
      | Inr pool \<Rightarrow>
     (case NewKafkaReader (px_keys P) (lc_KafkaBrokers cfg) (lc_PaymentEventsTopic cfg) (lc_ConsumerGroupID cfg) (lc_KafkaSecurity cfg) of
        Inl e \<Rightarrow> (Some e, st)
      | Inr reader \<Rightarrow>
     (case consumer_NewKafkaWriter (px_keys P) (lc_KafkaBrokers cfg) (lc_DeadLetterTopic cfg) ''finflow-ledger-dead-letter'' (lc_KafkaSecurity cfg) of
        Inl e \<Rightarrow> (Some e, st)
      | Inr writer \<Rightarrow>
          Consumer_Run L ledger
            \<lparr>cc_maxAttempts = lc_ConsumerMaxAttempts cfg, cc_retryInitialBackoff = lc_RetryInitialBackoff cfg,
             cc_retryMaxBackoff = lc_RetryMaxBackoff cfg, cc_deadLetterTopic = lc_DeadLetterTopic cfg\<rparr>
            (map (\<lambda>(i, t). with_writer (px_writer P writer i 0) t) (enumerate 0 turns)) st)))))"

section \<open>The commands\<close>

definition migrate_main ::
  "'e env_scheme \<Rightarrow> 'p setup_env_scheme \<Rightarrow> 'x ctx_scheme \<Rightarrow> file_system \<Rightarrow> nat list \<Rightarrow> 's executor \<Rightarrow> 's migration_db
     \<Rightarrow> (err + unit) \<times> 's migration_db"
where
  "migrate_main E P cx fs perm sql_exec db =
     (case payment_Load E of
        Inl e \<Rightarrow> (Inl e, db)
      | Inr cfg \<Rightarrow>
     (case Connect P (pc_DatabaseURL cfg) False of
        Inl e \<Rightarrow> (Inl e, db)
      | Inr pool \<Rightarrow> Migration_Run cx fs perm sql_exec (pc_MigrationsDir cfg) db))"

text \<open>\<open>fetch\<close> is what \<open>FetchMessage\<close> answers on a reader with the given settings.\<close>

definition replay_command_of ::
  "'e env_scheme \<Rightarrow> process_env \<Rightarrow> ledger_config \<Rightarrow> (reader_settings \<Rightarrow> err + kafka_message) \<Rightarrow> 'c replay_env \<Rightarrow> 'c replay_command"
where
  "replay_command_of E P cfg fetch env =
     (let reader = (\<lambda>part offset. NewPartitionReader (px_keys P) (lc_KafkaBrokers cfg) (lc_DeadLetterTopic cfg) part offset
                      ''finflow-dead-letter-replay'' (lc_KafkaSecurity cfg));
          writer = consumer_NewKafkaWriter (px_keys P) (lc_KafkaBrokers cfg) (lc_PaymentEventsTopic cfg)
                      ''finflow-dead-letter-replay'' (lc_KafkaSecurity cfg)
      in \<lparr>rc_getenv = ev_Getenv E,
          rc_connect = (case ledger_Connect P (lc_DatabaseURL cfg) False of Inl e \<Rightarrow> Some e | Inr pool \<Rightarrow> None),
          rc_reader = (\<lambda>part offset. case reader part offset of Inl e \<Rightarrow> Some e | Inr r \<Rightarrow> None),
          rc_fetch = (\<lambda>part offset. case reader part offset of Inl e \<Rightarrow> Inl e | Inr r \<Rightarrow> fetch r),
          rc_writer = (case writer of Inl e \<Rightarrow> Some e | Inr W \<Rightarrow> None),
          rc_topic = lc_PaymentEventsTopic cfg,
          rc_env = env\<lparr>rp_write := (case writer of Inl e \<Rightarrow> rp_write env | Inr W \<Rightarrow> px_writer P W 0 0)\<rparr>\<rparr>)"

definition replay_main ::
  "'e env_scheme \<Rightarrow> process_env \<Rightarrow> 'x lib_scheme \<Rightarrow> (json \<Rightarrow> bool) \<Rightarrow> ('c, 's) audit_store
     \<Rightarrow> (reader_settings \<Rightarrow> err + kafka_message) \<Rightarrow> 'c replay_env \<Rightarrow> 's replay_state \<Rightarrow> err option \<times> 's replay_state"
where
  "replay_main E P L time_ok A fetch env st =
     (case ledger_Load E of
        Inl e \<Rightarrow> (Some (wrap ''load configuration'' e), st)
      | Inr cfg \<Rightarrow> replay_run L time_ok A (replay_command_of E P cfg fetch env) st)"

section \<open>The gateway\<close>

text \<open>
  \<open>proxy.New\<close> parses the target without its trailing slashes; \<open>bad_url\<close> is the text of the error.
\<close>

definition proxy_target :: "'e env_scheme \<Rightarrow> (string \<Rightarrow> err) \<Rightarrow> string \<Rightarrow> err + target" where
  "proxy_target E bad_url service =
     (case ev_url_parse E (trim_right_slash service) of
        None \<Rightarrow> Inl (wrap ''parse proxy target'' (bad_url (trim_right_slash service)))
      | Some u \<Rightarrow> Inr \<lparr>tg_Host = url_Host u, tg_Path = url_Path u\<rparr>)"

definition gateway_main ::
  "'e env_scheme \<Rightarrow> (string \<Rightarrow> err) \<Rightarrow> process_env \<Rightarrow> http_response \<Rightarrow> err + gateway_settings \<times> limiter"
where
  "gateway_main E bad_url P page =
     (case gateway_Load E of
        Inl e \<Rightarrow> Inl e
      | Inr cfg \<Rightarrow>
     (case proxy_target E bad_url (gc_PaymentServiceURL cfg) of
        Inl e \<Rightarrow> Inl e
      | Inr paymentTarget \<Rightarrow>
     (case proxy_target E bad_url (gc_LedgerServiceURL cfg) of
        Inl e \<Rightarrow> Inl e
      | Inr ledgerTarget \<Rightarrow>
     (case gateway_InitTracing E P ''gateway-service'' of
        Inl e \<Rightarrow> Inl e
      | Inr exported \<Rightarrow>
          Inr (\<lparr>gw_AppEnv = gc_AppEnv cfg, gw_APIKey = gc_APIKey cfg, gw_InternalToken = gc_InternalToken cfg,
                gw_MaxBodyBytes = gc_MaxBodyBytes cfg, gw_Payment = paymentTarget, gw_Ledger = ledgerTarget,
                gw_metrics = page\<rparr>,
               New (gc_RateLimitRequests cfg) (gc_RateLimitWindow cfg))))))"

section \<open>What the processes agree on\<close>

text \<open>All three services read the internal token from the same variable with the same fallback.\<close>

lemma loaded_token:
  "gateway_Load E = Inr g \<Longrightarrow> gc_InternalToken g = getEnv E ''INTERNAL_SERVICE_TOKEN'' ''local-internal-service-token-change-me''"
  "ledger_Load E = Inr l \<Longrightarrow> lc_InternalToken l = getEnv E ''INTERNAL_SERVICE_TOKEN'' ''local-internal-service-token-change-me''"
  "payment_Load E = Inr p \<Longrightarrow> pc_InternalToken p = getEnv E ''INTERNAL_SERVICE_TOKEN'' ''local-internal-service-token-change-me''"
  by (auto simp: gateway_Load_def ledger_Load_def payment_Load_def Let_def gateway_copies ledger_copies
      split: sum.splits option.splits)

lemma gateway_main_Inr:
  assumes "gateway_main E bad_url P page = Inr (gw, l)"
  obtains cfg where "gateway_Load E = Inr cfg" "gw_APIKey gw = gc_APIKey cfg" "gw_InternalToken gw = gc_InternalToken cfg"
    "proxy_target E bad_url (gc_LedgerServiceURL cfg) = Inr (gw_Ledger gw)"
    "proxy_target E bad_url (gc_PaymentServiceURL cfg) = Inr (gw_Payment gw)"
    "l = New (gc_RateLimitRequests cfg) (gc_RateLimitWindow cfg)"
  using assms by (auto simp: gateway_main_def split: sum.splits option.splits)

lemma ledger_main_Inr:
  assumes "ledger_main E P mt ping page R cx = Inr h"
  obtains cfg where "ledger_Load E = Inr cfg"
    "h = ledger_api mt \<lparr>lapi_AppEnv = lc_AppEnv cfg, lapi_InternalToken = lc_InternalToken cfg, lapi_ping = ping, lapi_metrics = page\<rparr> R cx"
  using assms by (auto simp: ledger_main_def split: sum.splits option.splits)

lemma payment_main_Inr:
  assumes "payment_main E P mt ping page R cx cx' others = Inr h"
  obtains cfg where "payment_Load E = Inr cfg"
    "h = payment_api mt \<lparr>api_AppEnv = pc_AppEnv cfg, api_InternalToken = pc_InternalToken cfg,
                 api_MaxBodyBytes = pc_MaxBodyBytes cfg, api_ping = ping, api_metrics = page\<rparr> R cx cx' others"
  using assms by (auto simp: payment_main_def split: sum.splits option.splits)

lemma consumer_main_cases:
  assumes "payment_consumer_main E P L ledger turns st = (res, st')"
  shows "(res \<noteq> None \<and> st' = st) \<or> (\<exists>cfg W. ledger_Load E = Inr cfg \<and> kw_Topic W = lc_DeadLetterTopic cfg
      \<and> Consumer_Run L ledger
            \<lparr>cc_maxAttempts = lc_ConsumerMaxAttempts cfg, cc_retryInitialBackoff = lc_RetryInitialBackoff cfg,
             cc_retryMaxBackoff = lc_RetryMaxBackoff cfg, cc_deadLetterTopic = lc_DeadLetterTopic cfg\<rparr>
            (map (\<lambda>(i, t). with_writer (px_writer P W i 0) t) (enumerate 0 turns)) st = (res, st'))"
proof (cases "ledger_Load E")
  case (Inl e)
  with assms show ?thesis by (auto simp: payment_consumer_main_def)
next
  case (Inr cfg)
  obtain t c k w where p: "ledger_InitTracing E P ''ledger-consumer'' = t" "ledger_Connect P (lc_DatabaseURL cfg) True = c"
    "NewKafkaReader (px_keys P) (lc_KafkaBrokers cfg) (lc_PaymentEventsTopic cfg) (lc_ConsumerGroupID cfg) (lc_KafkaSecurity cfg) = k"
    "consumer_NewKafkaWriter (px_keys P) (lc_KafkaBrokers cfg) (lc_DeadLetterTopic cfg) ''finflow-ledger-dead-letter'' (lc_KafkaSecurity cfg) = w"
    by blast
  show ?thesis
  proof (cases "(\<exists>x. t = Inr x) \<and> (\<exists>x. c = Inr x) \<and> (\<exists>x. k = Inr x) \<and> (\<exists>W. w = Inr W)")
    case True
    then obtain a b x W where "t = Inr a" "c = Inr b" "k = Inr x" and W: "w = Inr W" by blast
    with assms p Inr have "Consumer_Run L ledger
            \<lparr>cc_maxAttempts = lc_ConsumerMaxAttempts cfg, cc_retryInitialBackoff = lc_RetryInitialBackoff cfg,
             cc_retryMaxBackoff = lc_RetryMaxBackoff cfg, cc_deadLetterTopic = lc_DeadLetterTopic cfg\<rparr>
            (map (\<lambda>(i, t). with_writer (px_writer P W i 0) t) (enumerate 0 turns)) st = (res, st')"
      by (simp add: payment_consumer_main_def)
    with Inr writer_topic(2) [OF p(4) [unfolded W]] show ?thesis by blast
  next
    case False
    then have "res \<noteq> None \<and> st' = st"
      using assms unfolding payment_consumer_main_def Inr p
      by (cases t; cases c; cases k; cases w) (auto simp: p)
    then show ?thesis by blast
  qed
qed

end
