(* ===== verification/Service_Lifecycle.thy ===== *)
theory Service_Lifecycle
  imports Processes
begin

text \<open>
  How processes run and end: the HTTP servers of the three services (the end of each \<open>cmd/api/main.go\<close>), the telemetry
  server of the workers (\<open>observability/server.go\<close>), and the two workers with their telemetry beside them. What the operating system
  and \<open>net/http\<close> do arrives as events.
\<close>

section \<open>HTTP servers\<close>

record server_settings =
  sv_Addr :: string
  sv_ReadHeaderTimeout :: i64

text \<open>\<open>ListenAndServe\<close> always returns an error, \<open>ErrServerClosed\<close> after \<open>Shutdown\<close>.\<close>

datatype listen_result = ServerClosed | ListenFailed err

datatype server_process = Serving | Draining | Ended nat

datatype server_event = ListenReturns listen_result | Interrupt | ShutdownReturns "err option"

text \<open>
  The goroutine that listens ends the process when listening fails; \<open>main\<close> waits for the signal, shuts the server
  down and returns, whatever \<open>Shutdown\<close> says.
\<close>

fun serve :: "server_process \<Rightarrow> server_event \<Rightarrow> server_process" where
  "serve (Ended n) ev = Ended n"
| "serve p (ListenReturns ServerClosed) = p"
| "serve p (ListenReturns (ListenFailed e)) = Ended 1"
| "serve p Interrupt = Draining"
| "serve Draining (ShutdownReturns r) = Ended 0"
| "serve Serving (ShutdownReturns r) = Serving"

definition gateway_serve :: "server_process \<Rightarrow> server_event \<Rightarrow> server_process" where
  "gateway_serve = serve"

definition ledger_serve :: "server_process \<Rightarrow> server_event \<Rightarrow> server_process" where
  "ledger_serve = serve"

definition payment_server :: "payment_config \<Rightarrow> server_settings" where
  "payment_server cfg = \<lparr>sv_Addr = pc_HTTPAddr cfg, sv_ReadHeaderTimeout = 5000000000\<rparr>"

definition ledger_server :: "ledger_config \<Rightarrow> server_settings" where
  "ledger_server cfg = \<lparr>sv_Addr = lc_HTTPAddr cfg, sv_ReadHeaderTimeout = 5000000000\<rparr>"

definition gateway_server :: "gateway_config \<Rightarrow> server_settings" where
  "gateway_server cfg = \<lparr>sv_Addr = gc_HTTPAddr cfg, sv_ReadHeaderTimeout = 5000000000\<rparr>"

text \<open>A process whose setup fails exits with 1 and serves nothing.\<close>

definition server_run :: "err + 'h \<Rightarrow> server_event list \<Rightarrow> server_process" where
  "server_run built evs = (case built of Inl e \<Rightarrow> Ended 1 | Inr h \<Rightarrow> foldl serve Serving evs)"

lemma ended_stays [simp]: "foldl serve (Ended n) evs = Ended n"
  by (induction evs) auto

definition fatal :: "server_event \<Rightarrow> bool" where
  "fatal ev \<longleftrightarrow> (\<exists>e. ev = ListenReturns (ListenFailed e))"

lemma serve_status: "serve p ev = Ended n \<Longrightarrow> p \<noteq> Ended n \<Longrightarrow> n = 1 \<and> fatal ev \<or> n = 0 \<and> p = Draining \<and> (\<exists>r. ev = ShutdownReturns r)"
  by (cases "(p, ev)" rule: serve.cases) (auto simp: fatal_def)

lemma serve_draining: "serve p ev = Draining \<Longrightarrow> p = Draining \<or> ev = Interrupt"
  by (cases "(p, ev)" rule: serve.cases) auto

lemma draining_interrupted: "foldl serve p evs = Draining \<Longrightarrow> p = Draining \<or> Interrupt \<in> set evs"
  by (induction evs arbitrary: p) (auto dest: serve_draining)

text \<open>
  The exit status tells how a service ended: 0 only after a signal, 1 exactly when its setup failed or its listener did,
  and no other status.
\<close>

lemma ended_status:
  "foldl serve p evs = Ended n \<Longrightarrow> p \<noteq> Ended n \<Longrightarrow>
     n = 1 \<and> list_ex fatal evs \<or> n = 0 \<and> (p = Draining \<or> Interrupt \<in> set evs)"
proof (induction evs arbitrary: p)
  case (Cons ev evs)
  show ?case
  proof (cases "serve p ev = Ended n")
    case True
    with serve_status [OF this Cons.prems(2)] show ?thesis by auto
  next
    case False
    with Cons serve_draining [of p ev] show ?thesis by auto
  qed
qed simp

theorem server_exit_status:
  assumes "server_run built evs = Ended n"
  shows "n = 1 \<and> ((\<exists>e. built = Inl e) \<or> list_ex fatal evs) \<or> n = 0 \<and> Interrupt \<in> set evs"
  using assms ended_status [of Serving evs n] by (auto simp: server_run_def split: sum.splits)

lemma serve_fatal: "fatal ev \<Longrightarrow> serve p ev = (case p of Ended n \<Rightarrow> Ended n | _ \<Rightarrow> Ended 1)"
  by (cases p) (auto simp: fatal_def)

section \<open>The telemetry server\<close>

text \<open>
  The mux of the workers: \<open>page\<close> is what Prometheus answers, \<open>other\<close> the mux's own answers to other paths.
\<close>

definition telemetry_server :: "string \<Rightarrow> server_settings" where
  "telemetry_server addr = \<lparr>sv_Addr = addr, sv_ReadHeaderTimeout = 5000000000\<rparr>"

definition telemetry_mux :: "(http_request \<Rightarrow> http_response) \<Rightarrow> (http_request \<Rightarrow> http_response) \<Rightarrow> http_request \<Rightarrow> http_response" where
  "telemetry_mux page other rq =
     (if rq_Path rq = ''/metrics'' then page rq
      else if rq_Path rq = ''/health'' then \<lparr>rs_Status = 200, rs_Headers = [], rs_Body = None\<rparr>
      else other rq)"

text \<open>What the \<open>select\<close> meets first: the end of the context, with the answer of \<open>Shutdown\<close>, or the end of the server.\<close>

datatype telemetry_end = ContextDone "err option" | ServerReturns listen_result

fun RunMetricsServer :: "telemetry_end \<Rightarrow> err option" where
  "RunMetricsServer (ContextDone r) = r"
| "RunMetricsServer (ServerReturns ServerClosed) = None"
| "RunMetricsServer (ServerReturns (ListenFailed e)) = Some e"

definition ledger_RunMetricsServer :: "telemetry_end \<Rightarrow> err option" where
  "ledger_RunMetricsServer = RunMetricsServer"

section \<open>Workers\<close>

text \<open>
  The state of a worker process: whether its context has ended, whether its telemetry server runs, where \<open>main\<close> stands.
  \<open>wk_signals\<close> counts the signals and is not in the code. \<open>Waiting\<close> is the \<open>select\<close> of the publisher's loop.
\<close>

datatype worker_stage = Building | Working | Waiting | Exited nat

record 's worker =
  wk_stopped :: bool
  wk_telemetry :: bool
  wk_stage :: worker_stage
  wk_signals :: nat
  wk_state :: 's

definition started_worker :: "'s \<Rightarrow> 's worker" where
  "started_worker st = \<lparr>wk_stopped = False, wk_telemetry = True, wk_stage = Building, wk_signals = 0, wk_state = st\<rparr>"

definition alive :: "'s worker \<Rightarrow> bool" where
  "alive p \<longleftrightarrow> (\<forall>n. wk_stage p \<noteq> Exited n)"

definition signalled :: "'s worker \<Rightarrow> 's worker" where
  "signalled p = p\<lparr>wk_stopped := True, wk_signals := wk_signals p + 1\<rparr>"

text \<open>A telemetry server that ends with an error stops the worker.\<close>

definition telemetry_ended :: "telemetry_end \<Rightarrow> 's worker \<Rightarrow> 's worker" where
  "telemetry_ended r p = p\<lparr>wk_telemetry := False, wk_stopped := wk_stopped p \<or> RunMetricsServer r \<noteq> None\<rparr>"

definition telemetry_may_end :: "telemetry_end \<Rightarrow> 's worker \<Rightarrow> bool" where
  "telemetry_may_end r p \<longleftrightarrow> alive p \<and> wk_telemetry p \<and> (\<forall>x. r = ContextDone x \<longrightarrow> wk_stopped p)"

text \<open>The status of a worker whose \<open>Run\<close> has returned.\<close>

definition run_status :: "err option \<Rightarrow> nat" where
  "run_status r = (case r of None \<Rightarrow> 0 | Some e \<Rightarrow> if errors_is e ErrCanceled then 0 else 1)"

text \<open>
  The publisher: building fails or succeeds as in \<open>outbox_publisher_main\<close>; then a batch, and the \<open>select\<close> between
  the ticker and the end of the context.
\<close>

inductive publisher_step :: "'x env_scheme \<Rightarrow> ('c, 's) outbox_repository \<Rightarrow> 's publisher_state worker \<Rightarrow> 's publisher_state worker \<Rightarrow> bool"
  for E S where
  signal: "alive p \<Longrightarrow> publisher_step E S p (signalled p)"
| telemetry: "telemetry_may_end r p \<Longrightarrow> publisher_step E S p (telemetry_ended r p)"
| refused: "\<lbrakk>wk_stage p = Building; outbox_publisher_main E P S [] (wk_state p) = (Some e, st)\<rbrakk>
    \<Longrightarrow> publisher_step E S p (p\<lparr>wk_stage := Exited 1\<rparr>)"
| built: "\<lbrakk>wk_stage p = Building; outbox_publisher_main E P S [] (wk_state p) = (None, st)\<rbrakk>
    \<Longrightarrow> publisher_step E S p (p\<lparr>wk_stage := Working\<rparr>)"
| batch: "\<lbrakk>wk_stage p = Working; payment_Load E = Inr cfg; PublishBatch S (pc_PaymentEventsTopic cfg) cx env 25 (wk_state p) = (e, st)\<rbrakk>
    \<Longrightarrow> publisher_step E S p (p\<lparr>wk_stage := Waiting, wk_state := st\<rparr>)"
| tick: "wk_stage p = Waiting \<Longrightarrow> publisher_step E S p (p\<lparr>wk_stage := Working\<rparr>)"
| stop: "\<lbrakk>wk_stage p = Waiting; wk_stopped p\<rbrakk> \<Longrightarrow> publisher_step E S p (p\<lparr>wk_stage := Exited (run_status (Some ErrCanceled))\<rparr>)"

text \<open>
  The consumer, a turn at a time. The context's error \<open>Canceled\<close> comes up only when the context has ended.
\<close>

definition worker_config :: "ledger_config \<Rightarrow> consumer_config" where
  "worker_config cfg =
     \<lparr>cc_maxAttempts = lc_ConsumerMaxAttempts cfg, cc_retryInitialBackoff = lc_RetryInitialBackoff cfg,
      cc_retryMaxBackoff = lc_RetryMaxBackoff cfg, cc_deadLetterTopic = lc_DeadLetterTopic cfg\<rparr>"

inductive consumer_step :: "'x env_scheme \<Rightarrow> 'y lib_scheme \<Rightarrow> ('c, 's) ledger_port \<Rightarrow> 's consumer_state worker \<Rightarrow> 's consumer_state worker \<Rightarrow> bool"
  for E L ledger where
  signal: "alive p \<Longrightarrow> consumer_step E L ledger p (signalled p)"
| telemetry: "telemetry_may_end r p \<Longrightarrow> consumer_step E L ledger p (telemetry_ended r p)"
| refused: "\<lbrakk>wk_stage p = Building; payment_consumer_main E P L ledger [] (wk_state p) = (Some e, st)\<rbrakk>
    \<Longrightarrow> consumer_step E L ledger p (p\<lparr>wk_stage := Exited 1\<rparr>)"
| built: "\<lbrakk>wk_stage p = Building; payment_consumer_main E P L ledger [] (wk_state p) = (None, st)\<rbrakk>
    \<Longrightarrow> consumer_step E L ledger p (p\<lparr>wk_stage := Working\<rparr>)"
| turn: "\<lbrakk>wk_stage p = Working; ledger_Load E = Inr cfg; consume_turn L ledger (worker_config cfg) t (wk_state p) = (r, st);
      \<forall>e. r = Some e \<and> errors_is e ErrCanceled \<longrightarrow> wk_stopped p\<rbrakk>
    \<Longrightarrow> consumer_step E L ledger p (p\<lparr>wk_state := st, wk_stage := (case r of None \<Rightarrow> Working | Some e \<Rightarrow> Exited (run_status r))\<rparr>)"

abbreviation publisher_steps where "publisher_steps E S \<equiv> (publisher_step E S)\<^sup>*\<^sup>*"

abbreviation consumer_steps where "consumer_steps E L ledger \<equiv> (consumer_step E L ledger)\<^sup>*\<^sup>*"

section \<open>Invariant\<close>

text \<open>The state is still \<open>st\<close> until \<open>main\<close> has built everything; a context ends by a signal or with the telemetry.\<close>

definition worker_inv :: "'s \<Rightarrow> 's worker \<Rightarrow> bool" where
  "worker_inv st p \<longleftrightarrow>
     (wk_stage p = Building \<longrightarrow> wk_state p = st)
     \<and> (wk_stage p = Exited 0 \<longrightarrow> wk_stopped p)
     \<and> (wk_stopped p \<longrightarrow> 0 < wk_signals p \<or> \<not> wk_telemetry p)
     \<and> (\<forall>n. wk_stage p = Exited n \<longrightarrow> n \<le> 1)"

lemma started_inv: "worker_inv st (started_worker st)"
  by (simp add: worker_inv_def started_worker_def)

lemma signalled_inv: "worker_inv st p \<Longrightarrow> alive p \<Longrightarrow> worker_inv st (signalled p)"
  by (auto simp: worker_inv_def signalled_def alive_def)

lemma telemetry_inv: "worker_inv st p \<Longrightarrow> telemetry_may_end r p \<Longrightarrow> worker_inv st (telemetry_ended r p)"
  by (auto simp: worker_inv_def telemetry_ended_def telemetry_may_end_def alive_def)

lemma exited_inv: "worker_inv st p \<Longrightarrow> wk_stage p = Building \<Longrightarrow> worker_inv st (p\<lparr>wk_stage := Exited 1\<rparr>)"
  by (auto simp: worker_inv_def)

lemma working_inv: "worker_inv st p \<Longrightarrow> sg = Working \<or> sg = Waiting \<Longrightarrow> worker_inv st (p\<lparr>wk_stage := sg, wk_state := st'\<rparr>)"
  by (auto simp: worker_inv_def)

lemma run_status_simps [simp]: "run_status r = 0 \<longleftrightarrow> (\<forall>e. r = Some e \<longrightarrow> errors_is e ErrCanceled)" "run_status r \<le> Suc 0"
  by (auto simp: run_status_def split: option.split)

lemma publisher_step_inv:
  assumes "publisher_step E S p p'" and inv: "worker_inv st p"
  shows "worker_inv st p'"
  using assms(1)
proof cases
  case signal
  with signalled_inv [OF inv] show ?thesis by simp
next
  case (telemetry r)
  with telemetry_inv [OF inv] show ?thesis by simp
next
  case refused
  with exited_inv [OF inv] show ?thesis by simp
qed (use inv in \<open>auto simp: worker_inv_def run_status_def\<close>)

lemma consumer_step_inv:
  assumes "consumer_step E L ledger p p'" and inv: "worker_inv st p"
  shows "worker_inv st p'"
  using assms(1)
proof cases
  case signal
  with signalled_inv [OF inv] show ?thesis by simp
next
  case (telemetry r)
  with telemetry_inv [OF inv] show ?thesis by simp
next
  case refused
  with exited_inv [OF inv] show ?thesis by simp
next
  case (turn cfg t r st')
  with inv show ?thesis by (auto simp: worker_inv_def split: option.splits)
qed (use inv in \<open>auto simp: worker_inv_def\<close>)

lemma publisher_steps_inv: "publisher_steps E S p p' \<Longrightarrow> worker_inv st p \<Longrightarrow> worker_inv st p'"
  by (induction rule: rtranclp_induct) (auto intro: publisher_step_inv)

lemma consumer_steps_inv: "consumer_steps E L ledger p p' \<Longrightarrow> worker_inv st p \<Longrightarrow> worker_inv st p'"
  by (induction rule: rtranclp_induct) (auto intro: consumer_step_inv)

section \<open>Processes run their loops\<close>

lemma Run_snoc: "Run S topic n (ticks @ [(cx, env)]) st = snd (PublishBatch S topic cx env n (Run S topic n ticks st))"
  by (induction ticks arbitrary: st) auto

lemma Consumer_Run_snoc:
  "Consumer_Run L ledger cfg ts st = (None, st1) \<Longrightarrow> Consumer_Run L ledger cfg (ts @ [t]) st = consume_turn L ledger cfg t st1"
  by (induction ts arbitrary: st) (auto split: prod.splits option.splits)

text \<open>
  Whatever signals arrive and whatever becomes of the telemetry, the work a process has done is that of its loop over
  some batches or turns; a publisher that exits with 1 has done none.
\<close>

definition publisher_did :: "('c, 's) outbox_repository \<Rightarrow> string \<Rightarrow> 's publisher_state \<Rightarrow> 's publisher_state worker \<Rightarrow> bool" where
  "publisher_did S topic st p \<longleftrightarrow> (\<exists>ticks. wk_state p = Run S topic 25 ticks st)
     \<and> (wk_stage p = Building \<or> wk_stage p = Exited 1 \<longrightarrow> wk_state p = st)"

definition consumer_did ::
  "'y lib_scheme \<Rightarrow> ('c, 's) ledger_port \<Rightarrow> consumer_config \<Rightarrow> 's consumer_state \<Rightarrow> 's consumer_state worker \<Rightarrow> bool"
where
  "consumer_did L ledger cfg st p \<longleftrightarrow> (\<exists>ts r. Consumer_Run L ledger cfg ts st = (r, wk_state p) \<and> (alive p \<longrightarrow> r = None))"

lemma publisher_step_did:
  assumes "publisher_step E S p p'" and "payment_Load E = Inr cfg" and did: "publisher_did S (pc_PaymentEventsTopic cfg) st p"
  shows "publisher_did S (pc_PaymentEventsTopic cfg) st p'"
  using assms(1)
proof cases
  case (batch cfg' cx env e st')
  from did obtain ticks where "wk_state p = Run S (pc_PaymentEventsTopic cfg) 25 ticks st" by (auto simp: publisher_did_def)
  with batch assms(2) have "st' = Run S (pc_PaymentEventsTopic cfg) 25 (ticks @ [(cx, env)]) st"
    by (simp add: Run_snoc)
  with batch show ?thesis unfolding publisher_did_def by auto
qed (use did in \<open>auto simp: publisher_did_def signalled_def telemetry_ended_def run_status_def\<close>)

lemma consumer_step_did:
  assumes "consumer_step E L ledger p p'" and "ledger_Load E = Inr cfg" and did: "consumer_did L ledger (worker_config cfg) st p"
  shows "consumer_did L ledger (worker_config cfg) st p'"
  using assms(1)
proof cases
  case (turn cfg' t r st')
  from did turn(2) obtain ts where "Consumer_Run L ledger (worker_config cfg) ts st = (None, wk_state p)"
    by (auto simp: consumer_did_def alive_def)
  from Consumer_Run_snoc [OF this] turn assms(2) have "Consumer_Run L ledger (worker_config cfg) (ts @ [t]) st = (r, st')"
    by simp
  moreover have "alive p' \<longrightarrow> r = None" using turn(1) by (auto simp: alive_def split: option.splits)
  moreover have "wk_state p' = st'" using turn(1) by simp
  ultimately show ?thesis unfolding consumer_did_def by blast
qed (use did in \<open>auto simp: consumer_did_def signalled_def telemetry_ended_def alive_def telemetry_may_end_def\<close>)

theorem publisher_process_runs:
  assumes "publisher_steps E S (started_worker st) p" and "payment_Load E = Inr cfg"
  shows "publisher_did S (pc_PaymentEventsTopic cfg) st p"
  using assms(1)
proof (induction rule: rtranclp_induct)
  case base
  have "st = Run S (pc_PaymentEventsTopic cfg) 25 [] st" by simp
  then show ?case unfolding publisher_did_def started_worker_def by (metis worker.select_convs(5))
next
  case (step p p')
  with publisher_step_did assms(2) show ?case by blast
qed

theorem consumer_process_runs:
  assumes "consumer_steps E L ledger (started_worker st) p" and "ledger_Load E = Inr cfg"
  shows "consumer_did L ledger (worker_config cfg) st p"
  using assms(1)
proof (induction rule: rtranclp_induct)
  case base
  have "Consumer_Run L ledger (worker_config cfg) [] st = (None, st)" by simp
  then show ?case unfolding consumer_did_def started_worker_def by (metis worker.select_convs(5))
next
  case (step p p')
  with consumer_step_did assms(2) show ?case by blast
qed

section \<open>How workers end\<close>

text \<open>
  A publisher exits with 1 only when its setup failed, with nothing done; with 0 only after its context has ended. A consumer
  exits with 0 only after its context has ended, too.
\<close>

theorem publisher_exit_status:
  assumes "publisher_steps E S (started_worker st) p" and "payment_Load E = Inr cfg" and "wk_stage p = Exited n"
  shows "n = 1 \<and> wk_state p = st \<or> n = 0 \<and> wk_stopped p \<and> (0 < wk_signals p \<or> \<not> wk_telemetry p)"
proof -
  have "worker_inv st p" by (rule publisher_steps_inv [OF assms(1) started_inv])
  moreover have "publisher_did S (pc_PaymentEventsTopic cfg) st p" by (rule publisher_process_runs [OF assms(1,2)])
  moreover have "n = 0 \<or> n = 1" using calculation(1) assms(3) by (auto simp: worker_inv_def)
  ultimately show ?thesis using assms(3) by (auto simp: worker_inv_def publisher_did_def)
qed

theorem consumer_exit_status:
  assumes "consumer_steps E L ledger (started_worker st) p" and "wk_stage p = Exited n"
  shows "n = 1 \<or> n = 0 \<and> wk_stopped p \<and> (0 < wk_signals p \<or> \<not> wk_telemetry p)"
  using consumer_steps_inv [OF assms(1) started_inv] assms(2) by (cases "n = 0") (auto simp: worker_inv_def)

text \<open>
  A telemetry server that cannot listen, on a port in use for one, ends the publisher with the status of a requested stop:
  no signal, one batch, and status 0.
\<close>

theorem telemetry_failure_exits_zero:
  assumes "payment_Load E = Inr cfg" and "outbox_publisher_main E P S [] st = (None, st')"
    and "PublishBatch S (pc_PaymentEventsTopic cfg) cx env 25 st = (e, st1)"
  shows "\<exists>p. publisher_steps E S (started_worker st) p \<and> wk_stage p = Exited 0 \<and> wk_signals p = 0 \<and> wk_state p = st1"
proof -
  let ?p0 = "started_worker st"
  let ?p1 = "?p0\<lparr>wk_stage := Working\<rparr>"
  let ?p2 = "telemetry_ended (ServerReturns (ListenFailed (ErrText ''bind: address already in use''))) ?p1"
  let ?p3 = "?p2\<lparr>wk_stage := Waiting, wk_state := st1\<rparr>"
  let ?p4 = "?p3\<lparr>wk_stage := Exited (run_status (Some ErrCanceled))\<rparr>"
  have "publisher_step E S ?p0 ?p1"
    by (rule publisher_step.built [where P = P and st = st']) (simp_all add: started_worker_def assms(2))
  moreover have "publisher_step E S ?p1 ?p2"
    by (rule publisher_step.telemetry) (simp add: telemetry_may_end_def alive_def started_worker_def)
  moreover have "publisher_step E S ?p2 ?p3"
    by (rule publisher_step.batch [where cx = cx and env = env and e = e, OF _ assms(1)]) (simp_all add: telemetry_ended_def started_worker_def assms(3))
  moreover have "publisher_step E S ?p3 ?p4"
    by (rule publisher_step.stop) (simp_all add: telemetry_ended_def)
  ultimately have "publisher_steps E S ?p0 ?p4" by (meson converse_rtranclp_into_rtranclp r_into_rtranclp)
  then show ?thesis by (intro exI [of _ ?p4]) (simp add: run_status_def telemetry_ended_def started_worker_def)
qed

end
