(* ===== verification/Copies.thy ===== *)
theory Copies
  imports Security Service_Configs Dead_Letter_Replay
begin

text \<open>
  Files that the services carry more than once, written out and compared: the JSON helpers of the handlers, the error answer
  of the middleware, the Kafka settings. The models of the handlers use one of them.
\<close>

section \<open>JSON answers\<close>

text \<open>\<open>handler/json.go\<close> of the ledger and of the gateway.\<close>

definition ledger_WriteJSON :: "headers \<Rightarrow> int \<Rightarrow> json option \<Rightarrow> http_response" where
  "ledger_WriteJSON hs statusCode payload =
     \<lparr>rs_Status = statusCode, rs_Headers = header_set hs ''Content-Type'' ''application/json'', rs_Body = payload\<rparr>"

definition ledger_writeRequestError :: "http_request \<Rightarrow> headers \<Rightarrow> int \<Rightarrow> string \<Rightarrow> http_response" where
  "ledger_writeRequestError rq hs statusCode message =
     ledger_WriteJSON hs statusCode (Some (error_response message (rq_RequestID rq)))"

definition gateway_WriteJSON :: "headers \<Rightarrow> int \<Rightarrow> json option \<Rightarrow> http_response" where
  "gateway_WriteJSON hs statusCode payload =
     \<lparr>rs_Status = statusCode, rs_Headers = header_set hs ''Content-Type'' ''application/json'', rs_Body = payload\<rparr>"

text \<open>\<open>writeError\<close> without a request, of the payment handlers.\<close>

definition handler_writeError :: "headers \<Rightarrow> int \<Rightarrow> string \<Rightarrow> http_response" where
  "handler_writeError hs statusCode message = WriteJSON hs statusCode (Some (error_response message []))"

section \<open>Error answers of the middleware\<close>

definition ledger_writeError :: "http_request \<Rightarrow> headers \<Rightarrow> int \<Rightarrow> string \<Rightarrow> http_response" where
  "ledger_writeError rq hs statusCode message =
     \<lparr>rs_Status = statusCode, rs_Headers = header_set hs ''Content-Type'' ''application/json'',
      rs_Body = Some (error_response message (rq_RequestID rq))\<rparr>"

definition gateway_writeError :: "http_request \<Rightarrow> headers \<Rightarrow> int \<Rightarrow> string \<Rightarrow> http_response" where
  "gateway_writeError rq hs statusCode message =
     \<lparr>rs_Status = statusCode, rs_Headers = header_set hs ''Content-Type'' ''application/json'',
      rs_Body = Some (error_response message (rq_RequestID rq))\<rparr>"

definition limiter_writeError :: "http_request \<Rightarrow> headers \<Rightarrow> int \<Rightarrow> string \<Rightarrow> http_response" where
  "limiter_writeError rq hs statusCode message =
     \<lparr>rs_Status = statusCode, rs_Headers = header_set hs ''Content-Type'' ''application/json'',
      rs_Body = Some (error_response message (rq_RequestID rq))\<rparr>"

section \<open>Settings\<close>

definition ledger_parseBoolEnv :: "'x env_scheme \<Rightarrow> string \<Rightarrow> bool \<Rightarrow> err + bool" where
  "ledger_parseBoolEnv = parseBoolEnv"

text \<open>\<open>int\<close> has 64 bits.\<close>

definition requiredInt :: "(string \<Rightarrow> string) \<Rightarrow> string \<Rightarrow> err + i64" where
  "requiredInt getenv key = (case requiredInt64 getenv key of Inl e \<Rightarrow> Inl e | Inr n \<Rightarrow> Inr n)"

section \<open>The copies agree\<close>

text \<open>
  So all answers of the three services in JSON have the same form, and a middleware's error is a handler's error.
\<close>

lemma answers_agree:
  "ledger_WriteJSON = WriteJSON" "gateway_WriteJSON = WriteJSON" "ledger_writeRequestError = writeRequestError"
  "ledger_writeError = writeError" "gateway_writeError = writeError" "limiter_writeError = writeError"
  "writeError = writeRequestError"
  by (intro ext; simp add: ledger_WriteJSON_def gateway_WriteJSON_def ledger_writeRequestError_def WriteJSON_def writeRequestError_def
      ledger_writeError_def gateway_writeError_def limiter_writeError_def writeError_def)+

lemma requiredInt_same: "requiredInt = requiredInt64"
  by (intro ext) (simp add: requiredInt_def split: sum.split)

end
