(* ===== verification/Kafka_Client_Properties.thy ===== *)
theory Kafka_Client_Properties
  imports Kafka_Clients Payment_Samples
begin

text \<open>
  What the construction of the Kafka writers means for the publisher process.
\<close>

text \<open>
  C37. With a writer that keeps to its documentation nothing is ever published. The process gives its writer a topic and
  sets the same topic in every message, which the documentation of kafka-go excludes and its writer refuses. So
  whatever configuration the process started with and however many ticks it runs, no message reaches the topic and no outbox row
  becomes published.
\<close>

theorem nothing_published:
  assumes run: "outbox_publisher_main E R PostgresOutboxRepository ticks \<lparr>pub_store = db, pub_log = [], pub_metrics = []\<rparr> = (res, st')"
    and doc: "documented_writer R"
    and ids: "distinct (map ob_id (outbox db))"
    and known: "\<forall>(cx, env) \<in> set ticks. \<forall>i. \<forall>x \<in> set (outbox db). pg_knows (pe_mark (env i)) (ob_id x)"
    and unpublished: "\<forall>e \<in> set (outbox db). ob_status e \<noteq> OutboxStatusPublished"
  shows "pub_log st' = [] \<and> (\<forall>e \<in> set (outbox (pub_store st')). ob_status e \<noteq> OutboxStatusPublished)"
proof -
  have log: "pub_log st' = []" using main_refused [OF run doc] by simp
  from run have "\<forall>e \<in> set (outbox (pub_store st')). ob_status e \<noteq> OutboxStatusPublished"
  proof (cases rule: main_cases)
    case (ran cfg W)
    let ?st = "\<lparr>pub_store = db, pub_log = [], pub_metrics = []\<rparr>"
    let ?ticks = "map (\<lambda>(i, cx, env). (cx, \<lambda>k. env k\<lparr>pe_write := px_writer R W i k\<rparr>)) (enumerate 0 ticks)"
    have "\<forall>(cx, env) \<in> set ?ticks. \<forall>i. \<forall>x \<in> set (outbox_view (pub_store ?st)). pg_knows (pe_mark (env i)) (oe_ID x)"
      using known by (fastforce simp: outbox_view_def in_set_enumerate_eq dest: nth_mem)
    moreover have "published_in (pc_PaymentEventsTopic cfg) (outbox_view (pub_store ?st)) (pub_log ?st)"
      using unpublished by (auto simp: published_in_def outbox_view_def)
    moreover have "distinct (map oe_ID (outbox_view (pub_store ?st)))" using ids by (simp add: view_ids)
    ultimately have "published_in (pc_PaymentEventsTopic cfg) (outbox_view (pub_store st')) (pub_log st')"
      unfolding ran(3) using pg_outbox.run_inv by blast
    then show ?thesis by (auto simp: log published_in_def outbox_view_def)
  qed (use unpublished in simp)
  with log show ?thesis by blast
qed

text \<open>A client as documented: it refuses two topics and accepts everything else.\<close>

definition documented_process :: process_env where
  "documented_process = \<lparr>px_exporter = None, px_ParseConfig = (\<lambda>_. None), px_NewPool = (\<lambda>_. None), px_Ping = (\<lambda>_. None),
     px_keys = \<lparr>kf_ReadFile = (\<lambda>_. Inr []), kf_AppendCertsFromPEM = (\<lambda>_. True), kf_LoadX509KeyPair = (\<lambda>_ _. None), kf_scram = (\<lambda>_. None)\<rparr>,
     px_writer = (\<lambda>W _ _ m. if kw_Topic W \<noteq> [] \<and> km_Topic m \<noteq> []
        then WriteLost (Fault ''kafka.(*Writer): Topic must not be specified for both Writer and Message'') else WriteOk)\<rparr>"

theorem nothing_published_witness:
  "\<exists>st'. outbox_publisher_main (env_with []) documented_process PostgresOutboxRepository [(sample_ctx ''c'', \<lambda>_. sample_env)]
      \<lparr>pub_store = sample_db, pub_log = [], pub_metrics = []\<rparr> = (None, st')
    \<and> pub_log st' = [] \<and> map ob_status (outbox (pub_store st')) = [''failed'']"
proof -
  let ?run = "outbox_publisher_main (env_with []) documented_process PostgresOutboxRepository [(sample_ctx ''c'', \<lambda>_. sample_env)]
      \<lparr>pub_store = sample_db, pub_log = [], pub_metrics = []\<rparr>"
  have r: "fst ?run = None \<and> map ob_status (outbox (pub_store (snd ?run))) = [''failed'']" by code_simp
  have "pub_log (snd ?run) = []"
    by (rule nothing_published [OF surjective_pairing, THEN conjunct1])
      (simp_all add: documented_writer_def exclusive_topics_def documented_process_def sample_db_def sample_outbox_row_def pg_knows_def sample_env_def OutboxStatusPublished_def)
  with r show ?thesis by (intro exI [of _ "snd ?run"]) (simp add: prod_eq_iff)
qed

end
