(* ===== verification/Gateway_Properties.thy ===== *)
theory Gateway_Properties
  imports Gateway Payment_Api_Properties Ledger_Api Ledger_Properties
begin

text \<open>
  Properties of the gateway: who gets through, how often, what the services receive, and what
  becomes of the requests for payments and for the ledger.
\<close>

section \<open>The rate limit\<close>

text \<open>
  C28. The rate limit. In any interval as long as the window a key is admitted at most twice the limit, for
  calls in the order of the clock; and a call whose key has made fewer calls than the limit within the last window is
  admitted. Fewer than 2^63 calls keep the counters from wrapping.
\<close>

theorem rate_limit:
  assumes "sorted (map fst (calls @ [(t, k)]))" and "0 < sint window" and "int (length calls) + 1 < 2 ^ 63"
  shows "accepted_in k a (sint window) (calls @ [(t, k)]) (fst (allow_all (calls @ [(t, k)]) (New limit window)))
       \<le> 2 * max 0 (sint limit)
     \<and> (recent k (sint window) t calls < sint limit \<longrightarrow> last (fst (allow_all (calls @ [(t, k)]) (New limit window))))"
proof -
  have ok: "limiter_ok k (calls @ [(t, k)]) (New limit window)" using assms by (simp add: limiter_ok_def)
  have b: "budget k a (New limit window) = 2 * max 0 (sint limit)" by (simp add: budget_def)
  have c: "counted_at k t (New limit window) = 0" by (simp add: counted_at_def)
  from accepted_budget [OF ok, of a] recent_accepted [OF ok] show ?thesis by (simp add: b c del: allow_all.simps)
qed

theorem rate_limit_witness:
  "fst (allow_all [(5, ''a''), (9, ''a''), (10, ''a''), (11, ''a'')] (New 1 5)) = [True, False, True, False]
   \<and> accepted_in ''a'' 5 5 [(5, ''a''), (9, ''a''), (10, ''a''), (11, ''a'')]
       (fst (allow_all [(5, ''a''), (9, ''a''), (10, ''a''), (11, ''a'')] (New 1 5))) \<le> 2"
proof -
  have w: "sint (5 :: i64) = 5" "sint (1 :: i64) = 1" by code_simp+
  have "fst (allow_all [(5, ''a''), (9, ''a''), (10, ''a''), (11, ''a'')] (New 1 5)) = [True, False, True, False]"
    by code_simp
  with rate_limit [of "[(5, ''a''), (9, ''a''), (10, ''a'')]" 11 "''a''" 5 5 1] show ?thesis by (simp add: w)
qed

text \<open>
  The client picks its key. The limiter takes the X-Forwarded-For header that the client sends as the key, so calls that
  each carry another value are all admitted, whatever the limit.
\<close>

theorem rotating_keys_admitted:
  assumes keys: "distinct (map snd calls)" and "sorted (map fst calls)" and "0 < sint window" and "0 < sint limit"
    and "int (length calls) < 2 ^ 63"
  shows "(\<forall>ok \<in> set (fst (allow_all calls (New limit window))). ok)
    \<and> (\<forall>v rq. v \<noteq> [] \<longrightarrow> clientKey (rq\<lparr>rq_Headers := [(''X-Forwarded-For'', v)]\<rparr>) = v)"
proof -
  have admitted: "\<forall>ok \<in> set (fst (allow_all calls l)). ok"
    if "distinct (map snd calls)" "0 < sint (lm_limit l)" "\<forall>p \<in> set calls. bucket_at l (snd p) = None" for l
    using that
  proof (induction calls arbitrary: l)
    case (Cons p calls)
    obtain t k where p: "p = (t, k)" by (cases p)
    have "bucket_at l k = None" using Cons.prems(3) p by simp
    with allow_step [of l k t] Cons.prems(2) have ok: "fst (allow t k l)" by auto
    have "\<forall>q \<in> set calls. bucket_at (snd (allow t k l)) (snd q) = None"
      using Cons.prems(1,3) p by (force simp: image_iff)
    with Cons.IH [of "snd (allow t k l)"] Cons.prems(1,2) p
    have "\<forall>ok \<in> set (fst (allow_all calls (snd (allow t k l)))). ok" by simp
    with ok show ?case by (simp add: p allow_all_Cons del: allow_all.simps)
  qed simp
  from admitted [of "New limit window"] keys assms(4) show ?thesis by (simp add: clientKey_def header_get_def)
qed

theorem rotating_keys_admitted_witness:
  "fst (allow_all [(1, ''a''), (1, ''b''), (1, ''c'')] (New 1 1000)) = [True, True, True]"
proof -
  have w: "sint (1000 :: i64) = 1000" "sint (1 :: i64) = 1" by code_simp+
  have "\<forall>ok \<in> set (fst (allow_all [(1, ''a''), (1, ''b''), (1, ''c'')] (New 1 1000))). ok"
    by (rule rotating_keys_admitted [of "[(1, ''a''), (1, ''b''), (1, ''c'')]" 1000 1, THEN conjunct1])
      (simp_all add: w)
  then show ?thesis by (simp add: case_prod_unfold)
qed

section \<open>What the services receive\<close>


text \<open>
  What the properties below use of the router's pattern matching: a pattern without parameters matches itself, and one that ends in
  a star matches what continues the text before the star.
\<close>

definition plain_matcher :: "matcher \<Rightarrow> bool" where
  "plain_matcher mt \<longleftrightarrow>
     (\<forall>pat path. CHR ''{'' \<notin> set pat \<and> CHR ''*'' \<notin> set pat \<longrightarrow> (mt pat path \<noteq> None \<longleftrightarrow> path = pat))
     \<and> (\<forall>pre path. CHR ''{'' \<notin> set pre \<and> CHR ''*'' \<notin> set pre \<longrightarrow> (mt (pre @ ''/*'') path \<noteq> None \<longleftrightarrow> prefix (pre @ ''/'') path))"

definition star_matcher :: matcher where
  "star_matcher pat path =
     (if has_suffix pat ''/*'' then (if prefix (butlast pat) path then Some [(''*'', drop (length pat - 1) path)] else None)
      else if pat = path then Some [] else None)"

lemma star_matcher_plain: "plain_matcher star_matcher"
proof -
  have "\<not> has_suffix pat ''/*''" if "CHR ''*'' \<notin> set pat" for pat
    using that by (auto simp: has_suffix_def suffix_def)
  moreover have "has_suffix (pre @ ''/*'') ''/*''" "butlast (pre @ ''/*'') = pre @ ''/''" for pre
    by (auto simp: has_suffix_def suffix_def butlast_append)
  ultimately show ?thesis by (auto simp: plain_matcher_def star_matcher_def)
qed

lemma plain_matcher_patterns:
  assumes "plain_matcher mt"
  shows "mt ''/api/v1/payments'' path \<noteq> None \<longleftrightarrow> path = ''/api/v1/payments''"
    "mt ''/api/v1/payments/*'' path \<noteq> None \<longleftrightarrow> prefix ''/api/v1/payments/'' path"
    "mt ''/api/v1/ledger'' path \<noteq> None \<longleftrightarrow> path = ''/api/v1/ledger''"
    "mt ''/api/v1/ledger/*'' path \<noteq> None \<longleftrightarrow> prefix ''/api/v1/ledger/'' path"
    "mt ''/health'' path \<noteq> None \<longleftrightarrow> path = ''/health''"
    "mt ''/ready'' path \<noteq> None \<longleftrightarrow> path = ''/ready''"
    "mt ''/metrics'' path \<noteq> None \<longleftrightarrow> path = ''/metrics''"
    "mt ''/api/v1/ledger/balances'' path \<noteq> None \<longleftrightarrow> path = ''/api/v1/ledger/balances''"
proof -
  have lit: "mt pat path \<noteq> None \<longleftrightarrow> path = pat" if "CHR ''{'' \<notin> set pat" "CHR ''*'' \<notin> set pat" for pat
    using assms that unfolding plain_matcher_def by blast
  have star: "mt (pre @ ''/*'') path \<noteq> None \<longleftrightarrow> prefix (pre @ ''/'') path" if "CHR ''{'' \<notin> set pre" "CHR ''*'' \<notin> set pre" for pre
    using assms that unfolding plain_matcher_def by blast
  show "mt ''/api/v1/payments'' path \<noteq> None \<longleftrightarrow> path = ''/api/v1/payments''"
    "mt ''/api/v1/ledger'' path \<noteq> None \<longleftrightarrow> path = ''/api/v1/ledger''"
    "mt ''/health'' path \<noteq> None \<longleftrightarrow> path = ''/health''"
    "mt ''/ready'' path \<noteq> None \<longleftrightarrow> path = ''/ready''"
    "mt ''/metrics'' path \<noteq> None \<longleftrightarrow> path = ''/metrics''"
    "mt ''/api/v1/ledger/balances'' path \<noteq> None \<longleftrightarrow> path = ''/api/v1/ledger/balances''"
    by (rule lit; simp)+
  show "mt ''/api/v1/payments/*'' path \<noteq> None \<longleftrightarrow> prefix ''/api/v1/payments/'' path"
    using star [of "''/api/v1/payments''"] by simp
  show "mt ''/api/v1/ledger/*'' path \<noteq> None \<longleftrightarrow> prefix ''/api/v1/ledger/'' path"
    using star [of "''/api/v1/ledger''"] by simp
qed

section \<open>Routing\<close>

lemma payment_routed:
  assumes "plain_matcher mt" and "rq_Path rq = ''/api/v1/payments'' @ rest" and "rest = [] \<or> has_prefix rest ''/''"
  shows "\<exists>ps. route mt (gateway_routes cfg pay led) rq hs s =
    on_service (proxy_New (gw_Payment cfg) ''/api/v1'' (gw_InternalToken cfg) pay) (rq\<lparr>rq_Params := ps\<rparr>) hs s"
proof -
  have "rest = [] \<or> prefix ''/api/v1/payments/'' (rq_Path rq)" using assms(2,3) by (auto simp: has_prefix_def)
  then consider "mt ''/api/v1/payments'' (rq_Path rq) \<noteq> None"
    | "mt ''/api/v1/payments'' (rq_Path rq) = None" "mt ''/api/v1/payments/*'' (rq_Path rq) \<noteq> None"
    using plain_matcher_patterns(1,2) [OF assms(1), of "rq_Path rq"] assms(2) by auto
  then show ?thesis by cases (rule exI, simp add: route_def gateway_routes_def serves_def Let_def)+
qed

lemma ledger_routed:
  assumes "plain_matcher mt" and "rq_Path rq = ''/api/v1/ledger/'' @ rest"
  shows "\<exists>ps. route mt (gateway_routes cfg pay led) rq hs s =
    on_service (proxy_New (gw_Ledger cfg) [] (gw_InternalToken cfg) led) (rq\<lparr>rq_Params := ps\<rparr>) hs s"
proof -
  have "mt ''/api/v1/payments'' (rq_Path rq) = None" "mt ''/api/v1/payments/*'' (rq_Path rq) = None"
      "mt ''/api/v1/ledger'' (rq_Path rq) = None" "mt ''/api/v1/ledger/*'' (rq_Path rq) \<noteq> None"
    using plain_matcher_patterns(1-4) [OF assms(1), of "rq_Path rq"] assms(2) by auto
  then show ?thesis by (intro exI) (simp add: route_def gateway_routes_def serves_def Let_def)
qed

lemma payment_not_found:
  fixes s :: 's
  assumes "plain_matcher mt" and "rq_Path rq = ''/payments'' @ rest"
  obtains hs' where "payment_api mt acfg R cx cx' others rq hs s = (\<lparr>rs_Status = 404, rs_Headers = hs', rs_Body = None\<rparr>, s)"
proof -
  have "\<not> mounted ''/api/v1'' rq" using assms(2) by (auto simp: mounted_def)
  moreover have "\<forall>r \<in> set (health_routes acfg :: 's route list). mt (rt_Pattern r) (rq_Path rq) = None"
    using plain_matcher_patterns(5-7) [OF assms(1), of "rq_Path rq"] assms(2) by (simp add: health_routes_def)
  ultimately show ?thesis by (intro that) (simp add: payment_api_def Headers_def route_not_found)
qed

text \<open>The path that a service behind a target without a path receives.\<close>

lemma forwarded_payment_path:
  assumes "rq_Path rq = ''/api/v1/payments'' @ rest"
  shows "tg_Path target = [] \<Longrightarrow> rq_Path (forwarded target ''/api/v1'' tok rq) = ''/payments'' @ rest"
    and "tg_Path target = ''/api/v1'' \<Longrightarrow> rq_Path (forwarded target ''/api/v1'' tok rq) = rq_Path rq"
proof -
  have path: "rq_Path rq = ''/api/v1'' @ (''/payments'' @ rest)" using assms by simp
  have root: "has_prefix (rq_Path rq) ''/''" "has_prefix (''/payments'' @ rest) ''/''" by (simp_all add: assms has_prefix_def)
  show "rq_Path (forwarded target ''/api/v1'' tok rq) = ''/payments'' @ rest" if "tg_Path target = []"
    using root by (simp only: forwarded_simps that single_joining_slash_root path rewritePath_api) simp
  have "single_joining_slash ''/api/v1'' (rq_Path rq) = ''/api/v1'' @ rq_Path rq"
    using root by (simp add: single_joining_slash_def has_suffix_def suffix_def)
  then show "rq_Path (forwarded target ''/api/v1'' tok rq) = rq_Path rq" if "tg_Path target = ''/api/v1''"
    using root by (simp only: forwarded_simps that rewritePath_api) (simp add: assms)
qed

lemma balances_served:
  assumes "plain_matcher mt" and "rq_Path rq = ''/api/v1/ledger/balances''" "rq_Method rq = ''GET''"
    and "header_get (rq_Headers rq) ''X-Internal-Service-Token'' = lapi_InternalToken lcfg"
    and "trimmed (lapi_InternalToken lcfg)" "lapi_InternalToken lcfg \<noteq> []"
    and "LedgerService_ListBalances R cx s = Inr bs"
  obtains hs' where "ledger_api mt lcfg R cx rq hs s = (WriteJSON hs' 200 (list_json ''balances'' (map (balance_json cx) bs)), s)"
proof (rule that)
  have "mt ''/api/v1/ledger/balances'' (rq_Path rq) \<noteq> None"
    using plain_matcher_patterns(8) [OF assms(1)] assms(2) by simp
  then have "route mt (ledger_routes R cx) rq hs' s = (WriteJSON hs' 200 (list_json ''balances'' (map (balance_json cx) bs)), s)" for hs'
    using assms(3,7) by (simp add: route_def ledger_routes_def serves_def listBalances_def)
  moreover have "mounted ''/api/v1'' rq" using assms(2) by (simp add: mounted_def)
  ultimately show "ledger_api mt lcfg R cx rq hs s = (WriteJSON (header_set (header_set (header_set (header_set hs ''X-Content-Type-Options'' ''nosniff'')
          ''X-Frame-Options'' ''DENY'') ''Referrer-Policy'' ''no-referrer'') ''Cache-Control'' ''no-store'') 200
        (list_json ''balances'' (map (balance_json cx) bs)), s)"
    using assms(4-6) by (simp add: ledger_api_def ledger_Headers_def ledger_InternalServiceToken_def secret_matches_def trim_space_fixed)
qed

text \<open>One round trip through a proxy.\<close>

lemma proxied:
  assumes "h (on_wire rid (forwarded target sp tok rq)) [] s = (r, s')"
  shows "on_service (proxy_New target sp tok (served_by trip rid h)) rq hs (l, s) =
     (if trip = Arrives then r\<lparr>rs_Headers := hs @ removeHopByHopHeaders (rs_Headers r)\<rparr> else proxy_error hs,
      (l, if trip = RequestLost then s else s'))"
  using assms by (cases trip) (simp_all add: on_service_def proxy_New_def served_by_def)

section \<open>Through the gateway\<close>

text \<open>The outcomes of a request below /api/v1.\<close>

lemma gateway_cases:
  assumes run: "gateway mt L cfg pay led now rq hs (l, s) = (resp, (l', s'))"
  obtains (outside) "\<not> mounted ''/api/v1'' rq" "l' = l" "s' = s"
    | (refused) "mounted ''/api/v1'' rq" "\<not> secret_matches L (gw_APIKey cfg) (apiKeyFromRequest rq)" "rs_Status resp = 401" "l' = l" "s' = s"
    | (limited) "mounted ''/api/v1'' rq" "secret_matches L (gw_APIKey cfg) (apiKeyFromRequest rq)"
        "\<not> fst (allow now (clientKey rq) l)" "rs_Status resp = 429" "l' = snd (allow now (clientKey rq) l)" "s' = s"
    | (routed) hs' lim where "mounted ''/api/v1'' rq" "secret_matches L (gw_APIKey cfg) (apiKeyFromRequest rq)"
        "fst (allow now (clientKey rq) l)"
        "route mt (gateway_routes cfg pay led) (rq\<lparr>rq_Limit := lim\<rparr>) hs' (snd (allow now (clientKey rq) l), s) = (resp, (l', s'))"
proof (cases "mounted ''/api/v1'' rq")
  case m: True
  note g = run [unfolded gateway_def gateway_Headers_def, simplified m if_True gateway_APIKey_def copies_agree]
  show ?thesis
  proof (cases "secret_matches L (gw_APIKey cfg) (apiKeyFromRequest rq)")
    case k: True
    show ?thesis
    proof (cases "fst (allow now (clientKey rq) l)")
      case True
      with g k m show ?thesis
        by (intro routed) (auto simp: Limiter_Middleware_def gateway_MaxBodyBytes_def case_prod_unfold)
    next
      case False
      with g k m limited show ?thesis by (auto simp: Limiter_Middleware_def case_prod_unfold writeError_def)
    qed
  next
    case False
    with g m refused show ?thesis by (auto simp: writeError_def)
  qed
next
  case False
  have "snd (route mt (gateway_health_routes cfg) rq hs' (l, s)) = (l, s)" for hs'
  proof (rule ccontr)
    assume "snd (route mt (gateway_health_routes cfg) rq hs' (l, s)) \<noteq> (l, s)"
    then show False by (rule route_changes) (auto simp: gateway_health_routes_def)
  qed
  with run False outside show ?thesis by (auto simp: gateway_def gateway_Headers_def) (metis snd_conv prod.inject)+
qed

text \<open>
  C30. The gateway passes a request on only when it lies below /api/v1, its key is the configured API key and the limiter admits
  the client; without the key it is refused with 401 and not even counted, over the limit it is
  refused with 429, and in both cases the services see nothing. The hypothesis is that no other text has the key's digest.
\<close>

theorem gateway_guards:
  assumes "\<forall>x. sha256 L x = sha256 L (gw_APIKey cfg) \<longrightarrow> x = gw_APIKey cfg"
    and run: "gateway mt L cfg pay led now rq hs (l, s) = (resp, (l', s'))"
  shows "if mounted ''/api/v1'' rq
     then if apiKeyFromRequest rq = gw_APIKey cfg \<and> gw_APIKey cfg \<noteq> []
          then if fst (allow now (clientKey rq) l) then True else rs_Status resp = 429 \<and> s' = s
          else rs_Status resp = 401 \<and> l' = l \<and> s' = s
     else l' = l \<and> s' = s"
  using run
proof (cases rule: gateway_cases)
  case refused
  with assms(1) show ?thesis by (auto simp: secret_matches_def)
next
  case limited
  with assms(1) show ?thesis by (auto simp: secret_matches_def)
next
  case (routed hs' lim)
  with assms(1) show ?thesis by (auto simp: secret_matches_def)
qed simp

definition sample_gateway :: gateway_settings where
  "sample_gateway = \<lparr>gw_AppEnv = ''local'', gw_APIKey = ''key'', gw_InternalToken = ''tok'', gw_MaxBodyBytes = 1048576,
     gw_Payment = \<lparr>tg_Host = ''payment-service:8080'', tg_Path = []\<rparr>,
     gw_Ledger = \<lparr>tg_Host = ''ledger-service:8081'', tg_Path = []\<rparr>,
     gw_metrics = \<lparr>rs_Status = 200, rs_Headers = [], rs_Body = None\<rparr>\<rparr>"

definition sample_get :: http_request where
  "sample_get = \<lparr>rq_Method = ''GET'', rq_Path = ''/api/v1/ledger/balances'', rq_Host = ''localhost:8088'',
     rq_RemoteAddr = ''10.0.0.7:4711'', rq_Headers = [(''X-Api-Key'', ''key'')], rq_Body = [], rq_Limit = None,
     rq_Params = [], rq_RequestID = ''r1''\<rparr>"

theorem gateway_guards_witness:
  "\<exists>resp. gateway star_matcher (sample_lib\<lparr>sha256 := id\<rparr>) sample_gateway (\<lambda>rq s. (None, s + 1)) (\<lambda>rq s. (None, s + 1)) 7
      (sample_get\<lparr>rq_Headers := [(''Authorization'', ''Bearer nope'')]\<rparr>) [] (New 1 5, 0 :: nat) = (resp, (New 1 5, 0))
     \<and> rs_Status resp = 401"
proof -
  let ?rq = "sample_get\<lparr>rq_Headers := [(''Authorization'', ''Bearer nope'')]\<rparr>"
  let ?L = "sample_lib\<lparr>sha256 := id\<rparr>"
  obtain resp l' s' where run: "gateway star_matcher ?L sample_gateway (\<lambda>rq s. (None, s + 1)) (\<lambda>rq s. (None, s + 1)) 7
      ?rq [] (New 1 5, 0 :: nat) = (resp, (l', s'))" by (metis surj_pair)
  have "apiKeyFromRequest ?rq = ''nope''" "mounted ''/api/v1'' ?rq" by code_simp+
  with gateway_guards [OF _ run] run show ?thesis by (simp add: sample_gateway_def)
qed

text \<open>
  C31. No payment through the gateway. With the payment service's URL as every deployment of the repository sets it (no path), the gateway
  strips /api/v1 from the path while the service's routes are below /api/v1: every request for a payment that the gateway
  forwards is answered with 404 and changes nothing. Only a target URL that ends in /api/v1 would give the service the path it serves.
\<close>

theorem payments_unreachable:
  assumes mt: "plain_matcher mt" and target: "tg_Path (gw_Payment cfg) = []"
    and path: "rq_Path rq = ''/api/v1/payments'' @ rest" "rest = [] \<or> has_prefix rest ''/''"
    and run: "gateway mt L cfg (served_by trip rid (payment_api mt acfg R cx cx' others)) led now rq hs (l, s) = (resp, (l', s'))"
  shows "s' = s \<and> rs_Status resp \<in> {401, 404, 429, 502}
     \<and> rq_Path (forwarded ((gw_Payment cfg)\<lparr>tg_Path := ''/api/v1''\<rparr>) ''/api/v1'' (gw_InternalToken cfg) rq) = rq_Path rq"
proof -
  have "s' = s \<and> rs_Status resp \<in> {401, 404, 429, 502}"
    using run
  proof (cases rule: gateway_cases)
    case outside
    with path show ?thesis by (auto simp: mounted_def)
  next
    case (routed hs' lim)
    have limited_path: "rq_Path (rq\<lparr>rq_Limit := lim\<rparr>) = ''/api/v1/payments'' @ rest" using path(1) by simp
    obtain ps where r: "route mt (gateway_routes cfg (served_by trip rid (payment_api mt acfg R cx cx' others)) led)
          (rq\<lparr>rq_Limit := lim\<rparr>) hs' (snd (allow now (clientKey rq) l), s)
        = on_service (proxy_New (gw_Payment cfg) ''/api/v1'' (gw_InternalToken cfg)
            (served_by trip rid (payment_api mt acfg R cx cx' others))) (rq\<lparr>rq_Limit := lim, rq_Params := ps\<rparr>) hs'
            (snd (allow now (clientKey rq) l), s)"
      using payment_routed [OF mt limited_path path(2), where cfg = cfg and led = led and hs = hs'
          and pay = "served_by trip rid (payment_api mt acfg R cx cx' others)" and s = "(snd (allow now (clientKey rq) l), s)"] by blast
    let ?rq = "on_wire rid (forwarded (gw_Payment cfg) ''/api/v1'' (gw_InternalToken cfg) (rq\<lparr>rq_Limit := lim, rq_Params := ps\<rparr>))"
    have missing: "rq_Path ?rq = ''/payments'' @ rest"
      using forwarded_payment_path(1) [OF _ target, of "rq\<lparr>rq_Limit := lim, rq_Params := ps\<rparr>" rest] path(1)
      by (simp add: on_wire_def del: forwarded_simps)
    obtain hs'' where "payment_api mt acfg R cx cx' others ?rq [] s = (\<lparr>rs_Status = 404, rs_Headers = hs'', rs_Body = None\<rparr>, s)"
      by (rule payment_not_found [OF mt missing])
    from routed(4) [unfolded r proxied [where h = "payment_api mt acfg R cx cx' others", OF this]] show ?thesis by (cases trip) (simp_all add: proxy_error_def, auto)
  qed simp_all
  moreover have "rq_Path (forwarded ((gw_Payment cfg)\<lparr>tg_Path := ''/api/v1''\<rparr>) ''/api/v1'' (gw_InternalToken cfg) rq) = rq_Path rq"
    by (rule forwarded_payment_path(2) [OF path(1)]) simp
  ultimately show ?thesis by blast
qed

abbreviation gateway_post :: http_request where
  "gateway_post \<equiv> sample_post\<lparr>rq_Headers := [(''Authorization'', ''Bearer key'')]\<rparr>"

theorem payments_unreachable_witness:
  "\<exists>resp l'. gateway star_matcher sample_lib sample_gateway
      (served_by Arrives ''r2'' (payment_api star_matcher sample_settings PostgresPaymentRepository post_ctx post_ctx id))
      (\<lambda>rq s. (None, s)) 7 gateway_post [] (New 1 5, empty_pay_db) = (resp, (l', empty_pay_db))
    \<and> rs_Status resp \<in> {401, 404, 429, 502}"
proof -
  obtain resp l' s' where run: "gateway star_matcher sample_lib sample_gateway
      (served_by Arrives ''r2'' (payment_api star_matcher sample_settings PostgresPaymentRepository post_ctx post_ctx id))
      (\<lambda>rq s. (None, s)) 7 gateway_post [] (New 1 5, empty_pay_db) = (resp, (l', s'))" by (metis surj_pair)
  have "s' = empty_pay_db \<and> rs_Status resp \<in> {401, 404, 429, 502}"
    using payments_unreachable [OF star_matcher_plain _ _ _ run, of "[]"]
    by (simp add: sample_gateway_def sample_post_def)
  with run show ?thesis by blast
qed

text \<open>The ledger through the gateway.\<close>

lemma balances_through_gateway:
  assumes mt: "plain_matcher mt" and target: "tg_Path (gw_Ledger cfg) = []"
    and rq: "rq_Path rq = ''/api/v1/ledger/balances''" "rq_Method rq = ''GET''" "connection_listed (rq_Headers rq) = []"
    and key: "apiKeyFromRequest rq = gw_APIKey cfg" "gw_APIKey cfg \<noteq> []"
    and limit: "fst (allow now (clientKey rq) l)"
    and token: "gw_InternalToken cfg = lapi_InternalToken lcfg" "trimmed (lapi_InternalToken lcfg)" "lapi_InternalToken lcfg \<noteq> []"
    and list: "LedgerService_ListBalances R cx s = Inr bs"
  shows "\<exists>resp. gateway mt L cfg pay (served_by Arrives rid (ledger_api mt lcfg R cx)) now rq hs (l, s)
        = (resp, (snd (allow now (clientKey rq) l), s))
      \<and> rs_Status resp = 200 \<and> rs_Body resp = list_json ''balances'' (map (balance_json cx) bs)"
proof -
  have m: "mounted ''/api/v1'' rq" using rq(1) by (simp add: mounted_def)
  have k: "secret_matches L (gw_APIKey cfg) (apiKeyFromRequest rq)" using key by (simp add: secret_matches_def)
  obtain resp l' s' where run: "gateway mt L cfg pay (served_by Arrives rid (ledger_api mt lcfg R cx)) now rq hs (l, s) = (resp, (l', s'))"
    by (metis surj_pair)
  from run show ?thesis
  proof (cases rule: gateway_cases)
    case (routed hs' lim)
    have limited_path: "rq_Path (rq\<lparr>rq_Limit := lim\<rparr>) = ''/api/v1/ledger/'' @ ''balances''" using rq(1) by simp
    obtain ps where r: "route mt (gateway_routes cfg pay (served_by Arrives rid (ledger_api mt lcfg R cx)))
          (rq\<lparr>rq_Limit := lim\<rparr>) hs' (snd (allow now (clientKey rq) l), s)
        = on_service (proxy_New (gw_Ledger cfg) [] (gw_InternalToken cfg) (served_by Arrives rid (ledger_api mt lcfg R cx)))
            (rq\<lparr>rq_Limit := lim, rq_Params := ps\<rparr>) hs' (snd (allow now (clientKey rq) l), s)"
      using ledger_routed [OF mt limited_path, where cfg = cfg and pay = pay and hs = hs'
          and led = "served_by Arrives rid (ledger_api mt lcfg R cx)" and s = "(snd (allow now (clientKey rq) l), s)"] by blast
    let ?rq = "on_wire rid (forwarded (gw_Ledger cfg) [] (gw_InternalToken cfg) (rq\<lparr>rq_Limit := lim, rq_Params := ps\<rparr>))"
    have path: "rq_Path ?rq = ''/api/v1/ledger/balances''" "rq_Method ?rq = ''GET''"
      using rq by (simp_all add: on_wire_def target rewritePath_none single_joining_slash_root has_prefix_def)
    have "header_values (rq_Headers ?rq) internalTokenHeader = [gw_InternalToken cfg]"
      using rq(3) by (simp add: on_wire_def forwarded_values director_simps hop_headers_def internalTokenHeader_def)
    then have tok: "header_get (rq_Headers ?rq) ''X-Internal-Service-Token'' = lapi_InternalToken lcfg"
      by (simp add: header_get_values internalTokenHeader_def token)
    obtain hs'' where "ledger_api mt lcfg R cx ?rq [] s = (WriteJSON hs'' 200 (list_json ''balances'' (map (balance_json cx) bs)), s)"
      by (rule balances_served [OF mt path tok token(2,3) list, where hs = "[]"])
    from routed(4) [unfolded r proxied [where h = "ledger_api mt lcfg R cx", OF this]]
    have "rs_Status resp = 200 \<and> rs_Body resp = list_json ''balances'' (map (balance_json cx) bs)"
      "l' = snd (allow now (clientKey rq) l)" "s' = s" by auto
    with run show ?thesis by simp
  qed (use m k limit in simp_all)
qed

end
