(* ===== verification/Process_Properties.thy ===== *)
theory Process_Properties
  imports Processes Replay_Properties Kafka_Client_Properties Gateway_Properties
begin

text \<open>
  Processes together: what the construction of the Kafka writers means for the consumer process, and a request that passes the
  gateway and the ledger service as their environments configure them.
\<close>

section \<open>The consumer process\<close>

lemma ledger_loaded:
  "ledger_Load E = Inr cfg \<Longrightarrow> lc_DeadLetterTopic cfg \<noteq> [] \<and> 1 \<le> sint (lc_ConsumerMaxAttempts cfg)"
  using ledger_Load_result [of E] by (auto simp: ledger_problems_Nil blank_def)

lemma poison_turn_refused:
  assumes "poison L m" and "0 < sint (cc_maxAttempts cfg)"
    and "exclusive_topics W (dp_write dle)" and "kw_Topic W = cc_deadLetterTopic cfg" and "cc_deadLetterTopic cfg \<noteq> []"
    and run: "consume_turn L port cfg (Fetched m env cancel dle commit) st = (res, st')"
  shows "res \<noteq> None \<and> cs_ledger st' = cs_ledger st \<and> cs_committed st' = cs_committed st \<and> cs_dead_letters st' = cs_dead_letters st"
proof -
  obtain e ms where r: "handleWithRetry L port cfg env cancel m (cs_ledger st)
      = \<lparr>ro_attempts = 1, ro_err = Some (permanent e), ro_state = cs_ledger st, ro_metrics = ms, ro_waits = []\<rparr>"
    using poison_retry [OF assms(1,2)] by metis
  note d = dead_letter_refused [OF assms(3-5), of m "permanent e" "i64_of 1" "cs_dead_letters st"]
  obtain pe log where p: "DeadLetter_Publish (cc_deadLetterTopic cfg) dle m (permanent e) (i64_of 1) (cs_dead_letters st) = (pe, log)"
    by force
  with d obtain er where "pe = Some er" "log = cs_dead_letters st" by auto
  with run p r show ?thesis by (auto simp: consume_turn_def permanent_runs_on Let_def)
qed

text \<open>
  C38. A poison message stops the consumer. The process gives its dead-letter writer a topic and sets the topic in every dead letter,
  which a writer that keeps to its documentation refuses. So whatever the configuration, when the first message that the process fetches is one
  that it can never handle, the process ends with an error: nothing is dead-lettered, the message is not committed, and the
  restarted process meets it again.
\<close>

theorem poison_blocks_consumer:
  assumes run: "payment_consumer_main E P L port (Fetched m env cancel dle commit # turns) st = (res, st')"
    and doc: "documented_writer P" and poison: "poison L m"
  shows "res \<noteq> None \<and> cs_ledger st' = cs_ledger st \<and> cs_committed st' = cs_committed st \<and> cs_dead_letters st' = cs_dead_letters st"
proof -
  from consumer_main_cases [OF run] show ?thesis
  proof (elim disjE exE conjE)
    fix cfg :: ledger_config and W
    let ?cc = "\<lparr>cc_maxAttempts = lc_ConsumerMaxAttempts cfg, cc_retryInitialBackoff = lc_RetryInitialBackoff cfg,
             cc_retryMaxBackoff = lc_RetryMaxBackoff cfg, cc_deadLetterTopic = lc_DeadLetterTopic cfg\<rparr>"
    let ?t = "Fetched m env cancel (dle\<lparr>dp_write := px_writer P W 0 0\<rparr>) commit"
    assume load: "ledger_Load E = Inr cfg" and topic: "kw_Topic W = lc_DeadLetterTopic cfg"
      and loop: "Consumer_Run L port ?cc (map (\<lambda>(i, t). with_writer (px_writer P W i 0) t)
          (enumerate 0 (Fetched m env cancel dle commit # turns))) st = (res, st')"
    obtain e1 st1 where t: "consume_turn L port ?cc ?t st = (e1, st1)" by force
    have k: "0 < sint (cc_maxAttempts ?cc)" "kw_Topic W = cc_deadLetterTopic ?cc" "cc_deadLetterTopic ?cc \<noteq> []"
      using ledger_loaded [OF load] topic by simp_all
    have "exclusive_topics W (dp_write (dle\<lparr>dp_write := px_writer P W 0 0\<rparr>))"
      using doc by (simp add: documented_writer_def)
    from poison_turn_refused [OF poison k(1) this k(2,3) t] loop t show ?thesis
      by (auto simp: with_writer_def)
  qed simp
qed

theorem poison_blocks_consumer_witness:
  "\<exists>e st'. payment_consumer_main (env_with []) documented_process sample_parser postgres_port [sample_turn sample_poison] (no_state sample_ledger)
      = (Some e, st') \<and> cs_committed st' = [] \<and> \<not> errors_is e ErrInvalidConfig"
proof -
  let ?run = "payment_consumer_main (env_with []) documented_process sample_parser postgres_port [sample_turn sample_poison] (no_state sample_ledger)"
  have "fst ?run \<noteq> None \<and> cs_committed (snd ?run) = []"
    using poison_blocks_consumer [OF surjective_pairing [of ?run]]
    by (simp add: no_state_def poison_def sample_poison_def documented_writer_def exclusive_topics_def documented_process_def)
  moreover have "map_option (\<lambda>e. errors_is e ErrInvalidConfig) (fst ?run) = Some False" by code_simp
  moreover obtain res st' where p: "?run = (res, st')" by force
  ultimately show ?thesis unfolding p by (cases res) simp_all
qed

section \<open>The replay command\<close>

text \<open>
  The documentation of \<open>kafka.ReaderConfig.StartOffset\<close>: it is only used with a consumer group. A reader of a partition starts at
  the first offset, \<open>first topic partition\<close>.
\<close>

definition documented_reader :: "(string \<Rightarrow> i64 \<Rightarrow> i64) \<Rightarrow> (reader_settings \<Rightarrow> err + kafka_message) \<Rightarrow> bool" where
  "documented_reader first fetch \<longleftrightarrow>
     (\<forall>r m. kr_GroupID r = [] \<and> fetch r = Inr m \<longrightarrow> km_Offset m = first (kr_Topic r) (kr_Partition r))"

lemma partition_reader:
  "NewPartitionReader F brokers topic part offset cid sec = Inr r \<Longrightarrow> kr_GroupID r = [] \<and> kr_Topic r = topic \<and> kr_Partition r = part"
  by (auto simp: NewPartitionReader_def split: sum.splits)

lemma replay_command_fetch:
  assumes "rc_fetch (replay_command_of E P cfg fetch env) part offset = Inr m"
  shows "\<exists>r. NewPartitionReader (px_keys P) (lc_KafkaBrokers cfg) (lc_DeadLetterTopic cfg) part offset
      ''finflow-dead-letter-replay'' (lc_KafkaSecurity cfg) = Inr r \<and> fetch r = Inr m"
  using assms
  by (cases "NewPartitionReader (px_keys P) (lc_KafkaBrokers cfg) (lc_DeadLetterTopic cfg) part offset
      ''finflow-dead-letter-replay'' (lc_KafkaSecurity cfg)") (simp_all add: replay_command_of_def Let_def)

lemma replay_command_writer:
  assumes "rc_writer (replay_command_of E P cfg fetch env) = None"
  shows "\<exists>W. kw_Topic W = lc_PaymentEventsTopic cfg \<and> rp_write (rc_env (replay_command_of E P cfg fetch env)) = px_writer P W 0 0"
proof (cases "consumer_NewKafkaWriter (px_keys P) (lc_KafkaBrokers cfg) (lc_PaymentEventsTopic cfg)
    ''finflow-dead-letter-replay'' (lc_KafkaSecurity cfg)")
  case (Inl e)
  with assms show ?thesis by (simp add: replay_command_of_def Let_def)
next
  case (Inr W)
  with writer_topic(2) [OF Inr] show ?thesis by (intro exI [of _ W]) (simp add: replay_command_of_def Let_def)
qed

lemma replay_run_fetch:
  assumes "requiredInt64 (rc_getenv cmd) ''REPLAY_PARTITION'' = Inr part" and "requiredInt64 (rc_getenv cmd) ''REPLAY_OFFSET'' = Inr offset"
    and "\<And>m. rc_fetch cmd part offset = Inr m \<Longrightarrow> km_Offset m \<noteq> offset"
  shows "\<exists>e. replay_run L time_ok A cmd st = (Some e, st)"
proof (cases "rc_fetch cmd part offset")
  case (Inl e)
  with assms(1,2) show ?thesis by (simp add: replay_run_def Let_def split: option.split)
next
  case (Inr m)
  with assms show ?thesis by (simp add: replay_run_def Let_def split: option.split)
qed

text \<open>
  C39. Only the first dead letter can be replayed. The command builds a reader of one partition that starts at the requested offset, but without
  a consumer group, where a reader that keeps to its documentation ignores that offset. So a request for any record but the first one that the partition
  of the dead-letter topic still has is refused, and nothing changes.
\<close>

theorem replay_first_record_only:
  assumes "ledger_Load E = Inr cfg" and "documented_reader first fetch"
    and part: "requiredInt64 (ev_Getenv E) ''REPLAY_PARTITION'' = Inr part"
    and offset: "requiredInt64 (ev_Getenv E) ''REPLAY_OFFSET'' = Inr offset"
    and other: "offset \<noteq> first (lc_DeadLetterTopic cfg) part"
  shows "\<exists>e. replay_main E P L time_ok A fetch env st = (Some e, st)"
proof -
  let ?cmd = "replay_command_of E P cfg fetch env"
  have g: "rc_getenv ?cmd = ev_Getenv E" by (simp add: replay_command_of_def Let_def)
  have "km_Offset m \<noteq> offset" if f: "rc_fetch ?cmd part offset = Inr m" for m
  proof -
    obtain r where r: "NewPartitionReader (px_keys P) (lc_KafkaBrokers cfg) (lc_DeadLetterTopic cfg) part offset
        ''finflow-dead-letter-replay'' (lc_KafkaSecurity cfg) = Inr r" "fetch r = Inr m"
      using replay_command_fetch [OF f] by blast
    from assms(2) r(2) partition_reader [OF r(1)] other show ?thesis by (auto simp: documented_reader_def)
  qed
  from replay_run_fetch [of ?cmd, OF part [folded g] offset [folded g] this]
  show ?thesis by (simp add: replay_main_def assms(1))
qed

definition sample_replay_env :: env where
  "sample_replay_env = env_with [(''REPLAY_PARTITION'', ''0''), (''REPLAY_OFFSET'', ''3''), (''REPLAY_EVENT_ID'', ''e''),
     (''REPLAY_OPERATOR'', ''o''), (''REPLAY_REASON'', ''r'')]"

text \<open>A topic whose first record of each partition has offset 0.\<close>

definition first_fetch :: "reader_settings \<Rightarrow> err + kafka_message" where
  "first_fetch r = Inr \<lparr>km_Topic = kr_Topic r, km_Partition = kr_Partition r, km_Offset = (if kr_GroupID r = [] then 0 else kr_StartOffset r),
     km_HighWaterMark = 9, km_Key = [], km_Value = ''{}'', km_Headers = []\<rparr>"

theorem replay_first_record_only_witness:
  "\<exists>e. replay_main sample_replay_env documented_process sample_replay_lib (\<lambda>_. True) PostgresAuditStore first_fetch
      (rc_env (sample_command sample_variables)) (sample_store empty_led_db) = (Some e, sample_store empty_led_db)"
proof -
  have "case ledger_Load sample_replay_env of Inr c \<Rightarrow> True | Inl e \<Rightarrow> False" by code_simp
  then obtain cfg where cfg: "ledger_Load sample_replay_env = Inr cfg" by (auto split: sum.splits)
  have n: "requiredInt64 (ev_Getenv sample_replay_env) ''REPLAY_PARTITION'' = Inr 0"
    "requiredInt64 (ev_Getenv sample_replay_env) ''REPLAY_OFFSET'' = Inr 3" by code_simp+
  have "documented_reader (\<lambda>_ _. 0) first_fetch" by (simp add: documented_reader_def first_fetch_def)
  from replay_first_record_only [OF cfg this n] show ?thesis by simp
qed

text \<open>And with a writer that keeps to its documentation no replay publishes anything.\<close>

lemma replays_refused:
  assumes run: "replay_main E P L time_ok A fetch env st = (res, st')" and doc: "documented_writer P"
  shows "res \<noteq> None \<and> rp_log st' = rp_log st"
proof (cases "ledger_Load E")
  case (Inr cfg)
  let ?cmd = "replay_command_of E P cfg fetch env"
  have topic: "lc_PaymentEventsTopic cfg \<noteq> []"
    using ledger_Load_result [of E] Inr by (auto simp: ledger_problems_Nil blank_def)
  have step: "r \<noteq> None \<and> rp_log s' = rp_log st"
    if made: "rc_writer ?cmd = None" and rep: "Replay A (rc_topic ?cmd) (rc_env ?cmd) dl operator reason st = (r, s')" for dl operator reason r s'
  proof -
    obtain W where W: "kw_Topic W = lc_PaymentEventsTopic cfg" "rp_write (rc_env ?cmd) = px_writer P W 0 0"
      using replay_command_writer [OF made] by blast
    have w: "rc_topic ?cmd = lc_PaymentEventsTopic cfg" by (simp add: replay_command_of_def Let_def)
    have "\<exists>e. write_message (px_writer P W 0 0 m) m log = (Some e, log)" if "km_Topic m = lc_PaymentEventsTopic cfg" for m log
      using refused [OF _ W(1) topic that, of "px_writer P W 0 0" log] doc
      by (cases "write_message (px_writer P W 0 0 m) m log") (auto simp: documented_writer_def)
    then have "\<exists>e. write_message (px_writer P W 0 0 (replay_message (lc_PaymentEventsTopic cfg) now aid dl))
        (replay_message (lc_PaymentEventsTopic cfg) now aid dl) log = (Some e, log)" for now aid log
      by (simp add: replay_message_def)
    then show ?thesis using rep
      by (auto simp: Replay_def w W(2) Let_def split: if_splits prod.splits sum.splits option.splits) (metis Pair_inject option.distinct(1))+
  qed
  from run Inr have "replay_run L time_ok A ?cmd st = (res, st')" by (simp add: replay_main_def)
  then show ?thesis
    by (auto simp: replay_run_def Let_def split: sum.splits option.splits if_splits prod.splits dest: step)
qed (use run in \<open>auto simp: replay_main_def\<close>)

section \<open>The gateway and the ledger service\<close>

lemma fresh_limiter_admits:
  assumes "0 < sint limit"
  shows "fst (allow now key (New limit window))"
proof -
  have "lm_limit (New limit window) = limit" by (simp add: New_def)
  with assms allow_step [of "New limit window" key now] show ?thesis by auto
qed

lemma gateway_loaded:
  "gateway_Load E = Inr cfg \<Longrightarrow> gc_APIKey cfg \<noteq> [] \<and> gc_InternalToken cfg \<noteq> [] \<and> 0 < sint (gc_RateLimitRequests cfg)"
  using gateway_Load_result [of E] by (auto simp: gateway_problems_Nil blank_def)

lemma fallback_token_trimmed: "trimmed ''local-internal-service-token-change-me''"
  by code_simp


definition sample_deployment :: env where
  "sample_deployment = env_with [(''INTERNAL_SERVICE_TOKEN'', ''tok''), (''API_KEY'', ''key'')]"


end
