(* ===== verification/Spec2Isabelle.thy ===== *)
theory Spec2Isabelle
  imports Payment_Properties Delivery_Properties Flow_Properties Concurrent_Progress Payment_Api_Properties Configuration_Properties
    Retention_Delivery Migration_Properties Metrics_Registry Service_Lifecycle Copies Process_Properties
begin

text \<open>
  A model of finflow: a payment service, a ledger service and a gateway in Go, with PostgreSQL and Kafka between them.

  \<^bold>\<open>The program.\<close> The payment service creates payments under idempotency keys and stores each with an event in an outbox
  table, in one transaction. The outbox publisher claims events in batches, writes them to a Kafka topic and marks them. The ledger's
  consumer reads the topic, records for every payment.created event a debit and a credit in one transaction with the event's
  identity, retries with growing waits, writes what it cannot handle to a dead-letter topic, and commits. An operator can
  replay a dead letter, which is audited. The gateway checks an API key, limits the rate per client and proxies to both services. Commands migrate the
  database and delete old operational rows.

  \<^bold>\<open>Foundations.\<close> \<open>Prelude\<close>: 64-bit integers as words (\<open>i64\<close>), theorem collections, the operations of SQL on lists of rows.
  \<open>Go_Strings\<close>, \<open>Go_Strconv\<close>, \<open>Base64\<close>, \<open>Go_Net\<close>: what the sources use of Go's library; strings are byte sequences.
  \<open>Go_Runtime\<close>: error values and their chains, JSON, the transaction combinators, and the
  record \<open>ctx\<close> of what one call meets (clock, new UUIDs, the fault of each statement, the outcome of the commit). A commit may fail, or succeed without the
  caller learning it. \<open>Kafka\<close>: messages, topics as sequences, write outcomes, counters. \<open>Samples\<close>, \<open>Payment_Samples\<close>,
  \<open>Flow_Samples\<close>: the concrete inputs of the witnesses.

  \<^bold>\<open>Payment service\<close> (\<open>services/payment-service\<close>). \<open>Payment_Model\<close>: \<open>model\<close>, \<open>event\<close>. \<open>Payment_Repo\<close>:
  \<open>repository/payment_repository.go\<close> on the tables of the migrations. \<open>Payment_Service\<close>: \<open>service\<close>, over the interface
  \<open>PaymentRepository\<close>, a record of functions whose laws are the locale \<open>payment_store\<close>. \<open>Outbox_Publisher\<close>: \<open>repository/outbox_repository.go\<close> and
  \<open>publisher\<close>, locale \<open>outbox_store\<close>. \<open>Payment_System\<close>: the step relation \<open>pay_step\<close>, where calls, halves of status updates, claims, publications
  and crashes interleave, with its invariant; \<open>Payment_Progress\<close>: what happens without faults. \<open>Payment_Api\<close>: \<open>handler\<close> and the router. \<open>Retention\<close>,
  \<open>Migration\<close>: the two commands; the laws of a retention rule are the locale \<open>retention_rule\<close>.

  \<^bold>\<open>Ledger service\<close> (\<open>services/ledger-service\<close>). \<open>Ledger_Model\<close>, \<open>Ledger_Repo\<close>, \<open>Ledger_Service\<close> (locale
  \<open>ledger_store\<close>): \<open>model\<close>, \<open>repository\<close>, \<open>service\<close>. \<open>Ledger_System\<close>: the invariant of the ledger under other writers; \<open>Ledger_Progress\<close>: recording without
  faults and after outages. \<open>Ledger_Consumer\<close> (locale \<open>once_port\<close>), \<open>Dead_Letter\<close>: \<open>consumer\<close>. \<open>Dead_Letter_Replay\<close> (locale \<open>audit_log\<close>):
  \<open>repository/replay_repository.go\<close>, \<open>replay\<close>, \<open>cmd/replay-dead-letter\<close>. \<open>Ledger_Api\<close>: \<open>handler\<close> and the router.

  \<^bold>\<open>Gateway and edges.\<close> \<open>Rate_Limiter\<close>, \<open>Gateway\<close>: \<open>ratelimit\<close>, \<open>proxy\<close> and the router of \<open>services/gateway-service\<close>. \<open>Http\<close>: requests,
  responses, JSON bodies, routes. \<open>Security\<close>, \<open>Configuration\<close>, \<open>Service_Configs\<close>, \<open>Observability\<close>: the middleware, the settings and
  the counters of the three services; files that are copies are modelled once and the copies are defined or proved (\<open>Copies\<close>) to be equal.
  \<open>Metrics_Registry\<close>: the declared metric families and what each update writes. \<open>Process_Setup\<close>, \<open>Kafka_Clients\<close>, \<open>Processes\<close>: tracing, connection pool, Kafka
  clients, and every \<open>main\<close> that builds a process from its environment. \<open>Service_Lifecycle\<close>: how HTTP servers, workers and their telemetry run and end.

  \<^bold>\<open>Together.\<close> \<open>End_To_End\<close>: the relation \<open>flow_step\<close> joins \<open>pay_step\<close>, deliveries of any message of the topic with all retries, and replays;
  its invariant ties ledger entries to payments. \<open>Call_Stages\<close> cuts recording and replaying into their single calls, and \<open>Concurrent_Flow\<close> lets the calls
  of any number of consumers and replays interleave with everything else (\<open>world_step\<close>); a flow whose deliveries run one at a time is one of its runs (\<open>flow_in_world\<close>).
  \<open>Books\<close>: an abstract machine of payments and bookings that both relations refine. \<open>Concurrent_Samples\<close>: two consumers that race for one event.

  \<^bold>\<open>What is shown.\<close> Theories named \<open>_Properties\<close>, \<open>Retention_Delivery\<close> and this one hold the numbered properties. The payment group: idempotent creation, what
  every status code means, invariants of the tables in every reachable state, what the outbox guarantees. The ledger group: balanced
  double entries, at most one per event, agreement of balances. The consumer group: ordered gapless commits, nothing lost, the retry policy, survived outages, dead
  letters and their replay. The edge group: who passes the gateway and how often, credentials, settings. The commands: migrations are all or nothing,
  retention terminates and deletes only what it may. The composed group: exactly one double entry per consumed payment from empty databases under every interleaving, the refinement of the books, that every event that no publisher holds can
  still be published and booked (\<open>Concurrent_Progress\<close>), and requests through several processes. Beside them: registrations and metric updates fit each other, the publisher's counters agree with the topic, exit statuses tell how a process ended. Several properties state what goes wrong: payments cannot be reached through the gateway, abandoned outbox rows are never published, old events are booked again
  after retention, and with Kafka clients that keep to their documentation nothing is published, a poison message ends the consumer, and only the first dead letter can be replayed.

  \<^bold>\<open>Hypotheses.\<close> \<open>uuid_text\<close>: the database prints a UUID as ASCII that it reads back. \<open>payload_decodes\<close>: JSON keeps integers and
  ASCII text. \<open>plain_matcher\<close>: the router matches literal patterns and trailing stars. \<open>documented_writer\<close>, \<open>documented_reader\<close>: kafka-go's documentation of \<open>Writer.Topic\<close>
  and \<open>ReaderConfig.StartOffset\<close>. Absence of digest collisions where a digest is compared. Each has an instance in a witness. Libraries (SHA-256,
  JSON text, UUID syntax, URL and duration parsing, case tables, certificates) are parameters: the records \<open>lib\<close>, \<open>env\<close>, \<open>setup_env\<close> and \<open>process_env\<close>.

  \<^bold>\<open>Bounds and fuel.\<close> Integers wrap at 64 bits; where a sum could wrap the property states the bound, as in the rate limit and the balance check. The retention loop
  is a \<open>partial_function\<close> and its termination is proved, since each full batch deletes rows; all other loops recurse on their input: the retries on the attempts left,
  the publisher and the consumer on the list of ticks or turns of one run, of any length.

  \<^bold>\<open>Abstractions.\<close> Transactions are atomic and take effect at one instant; a claim skips locked rows, which are an input. In \<open>flow_step\<close> one delivery, with
  its retries, is one step, in \<open>world_step\<close> each call is. The topic keeps everything and delivers in any order. Writing a message and marking its row
  are one step of \<open>pay_step\<close>, and a crash between them is a marking that fails. The remote address of a request is the one after chi's RealIP middleware.

  \<^bold>\<open>Not modelled.\<close> Log lines; spans of traces; the values that Prometheus keeps and its page; chi's RequestID, Timeout and
  Recoverer and the bodies of its own 404 and 405; query strings, raw paths and protocol upgrades, which the proxy hands to \<open>httputil.ReverseProxy\<close> without reading them; the
  internals of kafka-go and pgx. They only call libraries or do not influence the modelled state.
\<close>

section \<open>The services together\<close>

text \<open>
  C1. Exactly once, end to end. Start both services on empty databases and let everything interleave call by call: API calls,
  publisher steps and crashes, any number of consumers that handle any message of the topic any number of times with any database faults,
  and replays of dead letters. Between two calls of an operation every other one may run, and every operation may stop after any call. Then every
  ledger entry stands for an existing payment; and a payment has exactly one
  debit and one credit, both of its amount, if the ledger has consumed its payment.created event, and
  none otherwise.
\<close>

theorem concurrent_double_entry:
  assumes "world_steps L topic initial_world w" and "uuid_text L" and "payload_decodes L"
  shows "(\<forall>r \<in> set (payments (ps_db (wd_pay w))).
      if creation_recorded (ps_db (wd_pay w)) (wd_ledger w) (pr_id r)
      then \<exists>d k. entries_for DirectionDebit (pr_id r) (entries (wd_ledger w)) = [d]
             \<and> entries_for DirectionCredit (pr_id r) (entries (wd_ledger w)) = [k]
             \<and> en_AmountCents d = pr_amount_cents r \<and> en_AmountCents k = pr_amount_cents r
      else entries_for DirectionDebit (pr_id r) (entries (wd_ledger w)) = []
             \<and> entries_for DirectionCredit (pr_id r) (entries (wd_ledger w)) = [])
    \<and> (\<forall>en \<in> set (entries (wd_ledger w)). \<exists>r \<in> set (payments (ps_db (wd_pay w))). en_ReferenceID en = pr_id r)"
proof -
  have "flow_inv L topic (flow_of w)"
    using world_inv_steps [OF assms(1) world_inv_initial assms(2,3)] by (simp add: world_inv_def)
  from double_entries [OF this, unfolded flow_of_simps] show ?thesis .
qed

text \<open>Two consumers have written, one after the other, what both had prepared.\<close>

theorem concurrent_double_entry_witness:
  "\<exists>w d. world_steps flow_lib ''t'' initial_world w \<and> (\<exists>t u. wd_threads w 0 = Some t \<and> wd_threads w (Suc 0) = Some u)
     \<and> entries_for DirectionDebit ''a1'' (entries (wd_ledger w)) = [d] \<and> en_AmountCents d = 2500"
proof (rule rivals)
  fix w1 w2 w3
  assume w: "world_steps flow_lib ''t'' initial_world w1" "world_step flow_lib ''t'' w1 w2" "world_step flow_lib ''t'' w2 w3"
    "wd_ledger w3 = flow_ledger" "ps_db (wd_pay w3) = flow_published_db"
    "\<exists>t u. wd_threads w3 0 = Some t \<and> wd_threads w3 (Suc 0) = Some u"
  have s: "world_steps flow_lib ''t'' initial_world w3"
    using w(1-3) by (meson rtranclp.rtrancl_into_rtrancl)
  have r: "flow_row \<in> set (payments (ps_db (wd_pay w3)))" by (simp add: w(5) flow_published_db_def)
  have rec: "creation_recorded flow_published_db flow_ledger (pr_id flow_row)"
    by (simp add: creation_recorded_def flow_published_db_def flow_ledger_def flow_row_def claim_row_def flow_outbox_row_def PaymentCreatedEvent_def)
  from concurrent_double_entry [OF s flow_uuid_text flow_decodes, THEN conjunct1, rule_format, OF r]
  have "\<exists>d. entries_for DirectionDebit (pr_id flow_row) (entries (wd_ledger w3)) = [d] \<and> en_AmountCents d = pr_amount_cents flow_row"
    unfolding w(4,5) by (simp add: rec) blast
  with s w(6) show ?thesis by (intro exI [of _ w3]) (simp add: flow_row_def)
qed

section \<open>The abstract books\<close>

lemma world_step_books:
  assumes step: "world_step L topic w w'" and inv: "world_inv L topic w" and ids: "uuid_text L" "payload_decodes L"
  shows "books_of (flow_of w') = books_of (flow_of w) \<or> books_step (books_of (flow_of w)) (books_of (flow_of w'))"
proof -
  have sys: "sys_inv L topic (wd_pay w)" and led: "led_inv L (wd_ledger w)" "entries_match (ps_db (wd_pay w)) (wd_ledger w)"
    using inv by (simp_all add: world_inv_def flow_inv_def)
  from step inv ids show ?thesis
  proof (cases rule: world_step_effect)
    case paid
    with sys paid_step [of L topic "flow_of w" "flow_of w'"] show ?thesis by simp
  next
    case (recorded e)
    have "pay_inv L (ps_db (wd_pay w))" using sys by (simp add: sys_inv_def)
    from delta_books [OF this led recorded(2,3)] show ?thesis
      by (intro booked_step) (simp_all add: recorded(1))
  next
    case (replayed log)
    then show ?thesis by (simp add: books_of_def booked_of_def same_ledger_def)
  qed
qed

text \<open>
  C2. The services refine an abstract set of books. Read a payment as its terms and status, and a payment as booked when the ledger has
  an entry for it. Then every single call of the concurrent services, from every reachable state (a transaction of the API, of the publisher or of one of
  many consumers, a message written, a crash), either changes nothing in the books or is exactly one abstract step: a new
  pending payment of a positive amount, a pending payment that succeeds or fails, or the booking of an existing payment
  that was not booked. And the debits of the ledger add up to the amounts of the booked payments.
\<close>

theorem concurrent_books:
  assumes "world_steps L topic initial_world w" and "world_step L topic w w'" and "uuid_text L" and "payload_decodes L"
  shows "books_step\<^sup>*\<^sup>* no_books (books_of (flow_of w))
    \<and> (books_of (flow_of w') = books_of (flow_of w) \<or> books_step (books_of (flow_of w)) (books_of (flow_of w')))
    \<and> sum_list (map (\<lambda>e. sint (en_AmountCents e)) (filter (\<lambda>e. en_Direction e = DirectionDebit) (entries (wd_ledger w))))
       = booked_total (books_of (flow_of w))"
proof -
  note inv = world_inv_steps [OF assms(1) world_inv_initial assms(3,4)]
  from assms(1) have "books_step\<^sup>*\<^sup>* no_books (books_of (flow_of w))"
  proof (induction rule: rtranclp_induct)
    case (step y z)
    from world_step_books [OF step(2) world_inv_steps [OF step(1) world_inv_initial assms(3,4)] assms(3,4)] step(3)
    show ?case by (auto intro: rtranclp.rtrancl_into_rtrancl)
  qed (simp add: flow_of_initial books_of_initial)
  moreover have "flow_inv L topic (flow_of w)" using inv by (simp add: world_inv_def)
  ultimately show ?thesis using world_step_books [OF assms(2) inv assms(3,4)] debit_total [of L topic "flow_of w"] by simp
qed

theorem concurrent_books_witness:
  "\<exists>w w'. world_steps flow_lib ''t'' initial_world w \<and> world_step flow_lib ''t'' w w'
     \<and> books_step (books_of (flow_of w)) (books_of (flow_of w')) \<and> bk_booked (books_of (flow_of w')) = {''a1''}"
proof (rule rivals)
  fix w1 w2 w3
  assume w: "world_steps flow_lib ''t'' initial_world w1" "world_step flow_lib ''t'' w1 w2" "entries (wd_ledger w1) = []" "wd_ledger w2 = flow_ledger"
  have b: "bk_booked (books_of (flow_of w1)) = {}" "bk_booked (books_of (flow_of w2)) = {''a1''}"
    by (simp_all add: books_of_def booked_of_def w(3,4)) (simp add: flow_ledger_def)
  then have "books_of (flow_of w2) \<noteq> books_of (flow_of w1)" by (metis insert_not_empty)
  with concurrent_books [OF w(1,2) flow_uuid_text flow_decodes] w(1,2) b(2) show ?thesis by blast
qed

section \<open>Progress\<close>



end
